theory Spec2Isabelle
  imports Main "HOL-Library.Word" "HOL-Library.AList" "HOL-Library.Sublist"
begin

section \<open>The object-store client of rag/utils/minio\_conn.py\<close>

text \<open>
  The class \<open>RAGFlowMinio\<close> wraps a connection handle of the MinIO client library.
  Every method is embedded as a function on an explicit state that holds the field
  \<open>self.conn\<close>, the settings the code reads, the remote store, a schedule of induced
  failures for the calls on the connection, and the list of everything observable the
  code did (calls on the connection, constructor calls, log records, pauses).
  A method returns a pair of its outcome and the new state; the outcome is \<open>Inl e\<close>
  when the exception \<open>e\<close> leaves the method and \<open>Inr v\<close> when the method returns \<open>v\<close>.
\<close>

subsection \<open>Data\<close>

type_synonym bytes = "8 word list"

text \<open>
  Python exceptions below \<open>Exception\<close>: the library's \<open>S3Error\<close> with its \<open>code\<close>,
  and every other exception class (network errors, \<open>AttributeError\<close> on a missing
  connection, ...), named by its message.
\<close>

datatype exn = S3Error string | OtherException string

text \<open>\<open>rag.settings\<close>: the bucket prefix (possibly unset) and the MINIO dictionary.\<close>

record rag_settings =
  MINIO_BUCKET_PREFIX :: "string option"
  MINIO_host :: string
  MINIO_user :: string
  MINIO_password :: string

text \<open>The handle \<open>Minio(host, access_key=..., secret_key=..., secure=...)\<close>.\<close>

record minio_client =
  endpoint :: string
  access_key :: string
  secret_key :: string
  secure :: bool

text \<open>The calls the code makes on the connection, with the arguments it passes.\<close>

datatype call =
    BucketExists string
  | MakeBucket string
  | PutObject string string bytes nat
  | RemoveObject string string
  | GetObject string string
  | ResponseRead
  | StatObject string string
  | GetPresignedUrl string string string nat
  | ListObjects string bool
  | RemoveBucket string
  | CopyObject string string string string

datatype event =
    Call call
  | NewMinio string string string bool
  | LogException string
  | LogError string
  | Sleep nat

datatype write_result = ObjectWriteResult string string

datatype object_stat = ObjectStat string string nat

datatype presigned_url = PresignedUrl string string string nat

type_synonym objects = "(string \<times> bytes) list"

record state =
  settings :: rag_settings
  MINIO_HEALTH_BUCKET :: "string option"
  conn :: "minio_client option"
  buckets :: "(string \<times> objects) list"
  faults :: "exn option list"
  ctor_faults :: "exn option list"
  events :: "event list"

type_synonym 'a comp = "state \<Rightarrow> (exn + 'a) \<times> state"

subsection \<open>Control flow: return, sequencing, try/except\<close>

definition ret :: "'a \<Rightarrow> 'a comp" where
  "ret v s = (Inr v, s)"

definition bindE :: "'a comp \<Rightarrow> ('a \<Rightarrow> 'b comp) \<Rightarrow> 'b comp" where
  "bindE m f s = (case m s of (Inl e, s') \<Rightarrow> (Inl e, s') | (Inr v, s') \<Rightarrow> f v s')"

text \<open>\<open>try: body  except ... as e: handler e\<close>; an exception of the handler propagates.\<close>

definition try_except :: "'a comp \<Rightarrow> (exn \<Rightarrow> 'a comp) \<Rightarrow> 'a comp" where
  "try_except body handler s =
     (case body s of (Inl e, s') \<Rightarrow> handler e s' | (Inr v, s') \<Rightarrow> (Inr v, s'))"

text \<open>
  The loop shared by \<open>put\<close>, \<open>get\<close> and \<open>get_presigned_url\<close>:
  \<^verbatim>\<open>for _ in range(n): try: return body  except Exception: handler\<close>
  followed by the return of \<open>None\<close> when the loop runs out.
\<close>

fun for_range_try :: "nat \<Rightarrow> 'a comp \<Rightarrow> unit comp \<Rightarrow> 'a option comp" where
  "for_range_try 0 body handler s = (Inr None, s)"
| "for_range_try (Suc n) body handler s =
     (case body s of
        (Inr r, s') \<Rightarrow> (Inr (Some r), s')
      | (Inl e, s') \<Rightarrow>
          (case handler s' of
             (Inl e', s'') \<Rightarrow> (Inl e', s'')
           | (Inr u, s'') \<Rightarrow> for_range_try n body handler s''))"

subsection \<open>Logging and time\<close>

definition emit :: "event \<Rightarrow> state \<Rightarrow> state" where
  "emit e s = s\<lparr>events := events s @ [e]\<rparr>"

definition logging_exception :: "string \<Rightarrow> unit comp" where
  "logging_exception msg s = (Inr (), emit (LogException msg) s)"

definition logging_error :: "string \<Rightarrow> unit comp" where
  "logging_error msg s = (Inr (), emit (LogError msg) s)"

definition time_sleep :: "nat \<Rightarrow> unit comp" where
  "time_sleep secs s = (Inr (), emit (Sleep secs) s)"

text \<open>\<open>str(e)\<close> as it appears in a formatted message.\<close>

fun str_exn :: "exn \<Rightarrow> string" where
  "str_exn (S3Error c) = ''S3 operation failed; code: '' @ c"
| "str_exn (OtherException m) = m"

subsection \<open>The MinIO library and the remote store\<close>

text \<open>
  Modelled from the spec: the MinIO client library and the object store behind it, which
  are third-party code and not part of the repository. A call on the connection is
  recorded, then either raises the next induced failure of the schedule \<open>faults\<close> (any
  exception, at any call) or acts on the store with the S3 semantics the specification
  names: buckets, objects, presigned URLs, server-side copy, metadata probing, and the
  error codes for a missing key or bucket. An attribute access on \<open>self.conn = None\<close>
  raises \<open>AttributeError\<close> and reaches no store.
\<close>

definition induce :: "call \<Rightarrow> unit comp" where
  "induce c s =
     (let s1 = emit (Call c) s in
      case faults s1 of
        [] \<Rightarrow> (Inr (), s1)
      | None # fs \<Rightarrow> (Inr (), s1\<lparr>faults := fs\<rparr>)
      | Some e # fs \<Rightarrow> (Inl e, s1\<lparr>faults := fs\<rparr>))"

definition invoke :: "call \<Rightarrow> unit comp" where
  "invoke c s =
     (case conn s of
        None \<Rightarrow> (Inl (OtherException ''AttributeError''), s)
      | Some h \<Rightarrow> induce c s)"

definition conn_bucket_exists :: "string \<Rightarrow> bool comp" where
  "conn_bucket_exists b =
     bindE (invoke (BucketExists b)) (\<lambda>u s. (Inr (map_of (buckets s) b \<noteq> None), s))"

definition conn_make_bucket :: "string \<Rightarrow> unit comp" where
  "conn_make_bucket b =
     bindE (invoke (MakeBucket b)) (\<lambda>u s.
       case map_of (buckets s) b of
         Some objs \<Rightarrow> (Inl (S3Error ''BucketAlreadyOwnedByYou''), s)
       | None \<Rightarrow> (Inr (), s\<lparr>buckets := AList.update b [] (buckets s)\<rparr>))"

definition conn_put_object :: "string \<Rightarrow> string \<Rightarrow> bytes \<Rightarrow> nat \<Rightarrow> write_result comp" where
  "conn_put_object b k data len =
     bindE (invoke (PutObject b k data len)) (\<lambda>u s.
       case map_of (buckets s) b of
         None \<Rightarrow> (Inl (S3Error ''NoSuchBucket''), s)
       | Some objs \<Rightarrow>
           (Inr (ObjectWriteResult b k),
            s\<lparr>buckets := AList.update b (AList.update k (take len data) objs) (buckets s)\<rparr>))"

definition conn_remove_object :: "string \<Rightarrow> string \<Rightarrow> unit comp" where
  "conn_remove_object b k =
     bindE (invoke (RemoveObject b k)) (\<lambda>u s.
       case map_of (buckets s) b of
         None \<Rightarrow> (Inl (S3Error ''NoSuchBucket''), s)
       | Some objs \<Rightarrow>
           (Inr (), s\<lparr>buckets := AList.update b (AList.delete k objs) (buckets s)\<rparr>))"

text \<open>\<open>get_object\<close> returns a response; its body is read by \<open>r.read()\<close>.\<close>

definition conn_get_object :: "string \<Rightarrow> string \<Rightarrow> bytes comp" where
  "conn_get_object b k =
     bindE (invoke (GetObject b k)) (\<lambda>u s.
       case map_of (buckets s) b of
         None \<Rightarrow> (Inl (S3Error ''NoSuchBucket''), s)
       | Some objs \<Rightarrow>
           (case map_of objs k of
              None \<Rightarrow> (Inl (S3Error ''NoSuchKey''), s)
            | Some data \<Rightarrow> (Inr data, s)))"

definition response_read :: "bytes \<Rightarrow> bytes comp" where
  "response_read r = bindE (induce ResponseRead) (\<lambda>u. ret r)"

definition conn_stat_object :: "string \<Rightarrow> string \<Rightarrow> object_stat comp" where
  "conn_stat_object b k =
     bindE (invoke (StatObject b k)) (\<lambda>u s.
       case map_of (buckets s) b of
         None \<Rightarrow> (Inl (S3Error ''NoSuchBucket''), s)
       | Some objs \<Rightarrow>
           (case map_of objs k of
              None \<Rightarrow> (Inl (S3Error ''NoSuchKey''), s)
            | Some data \<Rightarrow> (Inr (ObjectStat b k (length data)), s)))"

text \<open>The library's \<open>Object\<close> defines neither \<open>__bool__\<close> nor \<open>__len__\<close>: it is true.\<close>

definition truthy :: "object_stat \<Rightarrow> bool" where
  "truthy st = True"

definition conn_get_presigned_url ::
    "string \<Rightarrow> string \<Rightarrow> string \<Rightarrow> nat \<Rightarrow> presigned_url comp" where
  "conn_get_presigned_url method b k expires =
     bindE (invoke (GetPresignedUrl method b k expires)) (\<lambda>u s.
       case map_of (buckets s) b of
         None \<Rightarrow> (Inl (S3Error ''NoSuchBucket''), s)
       | Some objs \<Rightarrow> (Inr (PresignedUrl method b k expires), s))"

definition conn_list_objects :: "string \<Rightarrow> bool \<Rightarrow> string list comp" where
  "conn_list_objects b recursive =
     bindE (invoke (ListObjects b recursive)) (\<lambda>u s.
       case map_of (buckets s) b of
         None \<Rightarrow> (Inl (S3Error ''NoSuchBucket''), s)
       | Some objs \<Rightarrow> (Inr (map fst objs), s))"

definition conn_remove_bucket :: "string \<Rightarrow> unit comp" where
  "conn_remove_bucket b =
     bindE (invoke (RemoveBucket b)) (\<lambda>u s.
       case map_of (buckets s) b of
         None \<Rightarrow> (Inl (S3Error ''NoSuchBucket''), s)
       | Some objs \<Rightarrow>
           (if objs \<noteq> [] then (Inl (S3Error ''BucketNotEmpty''), s)
            else (Inr (), s\<lparr>buckets := AList.delete b (buckets s)\<rparr>)))"

definition conn_copy_object :: "string \<Rightarrow> string \<Rightarrow> string \<Rightarrow> string \<Rightarrow> unit comp" where
  "conn_copy_object db dk sb sk =
     bindE (invoke (CopyObject db dk sb sk)) (\<lambda>u s.
       case map_of (buckets s) sb of
         None \<Rightarrow> (Inl (S3Error ''NoSuchBucket''), s)
       | Some sobjs \<Rightarrow>
           (case map_of sobjs sk of
              None \<Rightarrow> (Inl (S3Error ''NoSuchKey''), s)
            | Some data \<Rightarrow>
                (case map_of (buckets s) db of
                   None \<Rightarrow> (Inl (S3Error ''NoSuchBucket''), s)
                 | Some dobjs \<Rightarrow>
                     (Inr (), s\<lparr>buckets := AList.update db (AList.update dk data dobjs) (buckets s)\<rparr>))))"

text \<open>
  The constructor \<open>Minio(...)\<close>: recorded with its arguments; it raises the next induced
  failure of \<open>ctor_faults\<close> or returns a handle built from the arguments.
\<close>

definition Minio :: "string \<Rightarrow> string \<Rightarrow> string \<Rightarrow> bool \<Rightarrow> minio_client comp" where
  "Minio host user password sec s =
     (let s1 = emit (NewMinio host user password sec) s;
          h = \<lparr>endpoint = host, access_key = user, secret_key = password, secure = sec\<rparr> in
      case ctor_faults s1 of
        [] \<Rightarrow> (Inr h, s1)
      | None # fs \<Rightarrow> (Inr h, s1\<lparr>ctor_faults := fs\<rparr>)
      | Some e # fs \<Rightarrow> (Inl e, s1\<lparr>ctor_faults := fs\<rparr>))"

subsection \<open>RAGFlowMinio\<close>

definition with_prefix :: "rag_settings \<Rightarrow> string \<Rightarrow> string" where
  "with_prefix cfg bucket =
     (let prefix = (case MINIO_BUCKET_PREFIX cfg of None \<Rightarrow> '''' | Some p \<Rightarrow> p) in
      if prefix \<noteq> '''' then prefix @ ''-'' @ bucket else bucket)"

definition dunder_close :: "unit comp" where
  "dunder_close s = (Inr (), s\<lparr>conn := None\<rparr>)"

definition dunder_open :: "unit comp" where
  "dunder_open =
     bindE (try_except (\<lambda>s. if conn s \<noteq> None then dunder_close s else ret () s)
                       (\<lambda>e. ret ()))
       (\<lambda>u. try_except
          (\<lambda>s. bindE (Minio (MINIO_host (settings s)) (MINIO_user (settings s))
                            (MINIO_password (settings s)) False)
                  (\<lambda>h s'. (Inr (), s'\<lparr>conn := Some h\<rparr>)) s)
          (\<lambda>e s. logging_exception (''Fail to connect '' @ MINIO_host (settings s) @ '' '') s))"

definition init :: "unit comp" where
  "init s = dunder_open (s\<lparr>conn := None\<rparr>)"

definition health :: "write_result comp" where
  "health s =
     (let bucket = (case MINIO_HEALTH_BUCKET s of None \<Rightarrow> '''' | Some b \<Rightarrow> b);
          fnm = ''txtxtxtxt1'';
          binary = [95, 116, 64, 64, 64, 49];
          pbucket = with_prefix (settings s) bucket in
      bindE (conn_bucket_exists pbucket) (\<lambda>ex.
      bindE (if \<not> ex then conn_make_bucket pbucket else ret ()) (\<lambda>u.
      conn_put_object pbucket fnm binary (length binary))) s)"

definition put_body :: "string \<Rightarrow> string \<Rightarrow> bytes \<Rightarrow> write_result comp" where
  "put_body bucket fnm binary s =
     (let pbucket = with_prefix (settings s) bucket in
      bindE (conn_bucket_exists pbucket) (\<lambda>ex.
      bindE (if \<not> ex then conn_make_bucket pbucket else ret ()) (\<lambda>u.
      conn_put_object pbucket fnm binary (length binary))) s)"

definition put_handler :: "string \<Rightarrow> string \<Rightarrow> unit comp" where
  "put_handler bucket fnm =
     bindE (logging_exception (''Fail to put '' @ bucket @ ''/'' @ fnm @ '':'')) (\<lambda>u.
     bindE dunder_open (\<lambda>u.
     time_sleep 1))"

definition put ::
    "string \<Rightarrow> string \<Rightarrow> bytes \<Rightarrow> string option \<Rightarrow> write_result option comp" where
  "put bucket fnm binary tenant_id =
     for_range_try 3 (put_body bucket fnm binary) (put_handler bucket fnm)"

definition rm :: "string \<Rightarrow> string \<Rightarrow> string option \<Rightarrow> unit comp" where
  "rm bucket fnm tenant_id =
     try_except
       (\<lambda>s. conn_remove_object (with_prefix (settings s) bucket) fnm s)
       (\<lambda>e. logging_exception (''Fail to remove '' @ bucket @ ''/'' @ fnm @ '':''))"

definition get_body :: "string \<Rightarrow> string \<Rightarrow> bytes comp" where
  "get_body bucket filename s =
     (let pbucket = with_prefix (settings s) bucket in
      bindE (conn_get_object pbucket filename) response_read s)"

text \<open>
  The handlers of \<open>get\<close> and \<open>get_presigned_url\<close> format \<open>pbucket\<close>, which the \<open>try\<close> block
  bound before its first call on the connection; nothing changes the settings, so it is
  the prefixed name again.
\<close>

definition get_handler :: "string \<Rightarrow> string \<Rightarrow> unit comp" where
  "get_handler bucket filename s =
     (let pbucket = with_prefix (settings s) bucket in
      bindE (logging_exception (''Fail to get '' @ pbucket @ ''/'' @ filename)) (\<lambda>u.
      bindE dunder_open (\<lambda>u.
      time_sleep 1)) s)"

definition get :: "string \<Rightarrow> string \<Rightarrow> string option \<Rightarrow> bytes option comp" where
  "get bucket filename tenant_id =
     for_range_try 1 (get_body bucket filename) (get_handler bucket filename)"

text \<open>
  \<open>obj_exist\<close> and \<open>bucket_exists\<close> return \<open>True\<close>, \<open>False\<close> or, when the \<open>S3Error\<close>
  clause matches and its \<open>if\<close> does not, fall off the end: Python's \<open>None\<close>.
\<close>

definition not_found_codes :: "string list" where
  "not_found_codes = [''NoSuchKey'', ''NoSuchBucket'', ''ResourceNotFound'']"

definition obj_exist :: "string \<Rightarrow> string \<Rightarrow> string option \<Rightarrow> bool option comp" where
  "obj_exist bucket filename tenant_id s =
     (let pbucket = with_prefix (settings s) bucket in
      try_except
        (bindE (conn_bucket_exists pbucket) (\<lambda>ex.
           if \<not> ex then ret (Some False)
           else bindE (conn_stat_object pbucket filename) (\<lambda>st.
                  if truthy st then ret (Some True) else ret (Some False))))
        (\<lambda>e. case e of
           S3Error c \<Rightarrow> if c \<in> set not_found_codes then ret (Some False) else ret None
         | OtherException m \<Rightarrow>
             bindE (logging_exception
                      (''obj_exist '' @ pbucket @ ''/'' @ filename @ '' got exception''))
               (\<lambda>u. ret (Some False))) s)"

definition bucket_exists :: "string \<Rightarrow> bool option comp" where
  "bucket_exists bucket s =
     (let pbucket = with_prefix (settings s) bucket in
      try_except
        (bindE (conn_bucket_exists pbucket) (\<lambda>ex.
           if \<not> ex then ret (Some False) else ret (Some True)))
        (\<lambda>e. case e of
           S3Error c \<Rightarrow> if c \<in> set not_found_codes then ret (Some False) else ret None
         | OtherException m \<Rightarrow>
             bindE (logging_exception (''bucket_exist '' @ pbucket @ '' got exception''))
               (\<lambda>u. ret (Some False))) s)"

definition get_presigned_url_body :: "string \<Rightarrow> string \<Rightarrow> nat \<Rightarrow> presigned_url comp" where
  "get_presigned_url_body bucket fnm expires s =
     (let pbucket = with_prefix (settings s) bucket in
      conn_get_presigned_url ''GET'' pbucket fnm expires s)"

definition get_presigned_url_handler :: "string \<Rightarrow> string \<Rightarrow> unit comp" where
  "get_presigned_url_handler bucket fnm s =
     (let pbucket = with_prefix (settings s) bucket in
      bindE (logging_exception (''Fail to get_presigned '' @ pbucket @ ''/'' @ fnm @ '':''))
        (\<lambda>u.
      bindE dunder_open (\<lambda>u.
      time_sleep 1)) s)"

definition get_presigned_url ::
    "string \<Rightarrow> string \<Rightarrow> nat \<Rightarrow> string option \<Rightarrow> presigned_url option comp" where
  "get_presigned_url bucket fnm expires tenant_id =
     for_range_try 10 (get_presigned_url_body bucket fnm expires)
                      (get_presigned_url_handler bucket fnm)"

text \<open>The loop \<open>for obj in objects_to_delete: self.conn.remove_object(...)\<close>.\<close>

fun remove_each :: "string \<Rightarrow> string list \<Rightarrow> unit comp" where
  "remove_each pbucket [] = ret ()"
| "remove_each pbucket (name # names) =
     bindE (conn_remove_object pbucket name) (\<lambda>u. remove_each pbucket names)"

definition remove_bucket :: "string \<Rightarrow> unit comp" where
  "remove_bucket bucket s =
     (let pbucket = with_prefix (settings s) bucket in
      try_except
        (bindE (conn_bucket_exists pbucket) (\<lambda>ex.
           if ex then
             bindE (conn_list_objects pbucket True) (\<lambda>objects_to_delete.
             bindE (remove_each pbucket objects_to_delete) (\<lambda>u.
             conn_remove_bucket pbucket))
           else ret ()))
        (\<lambda>e. logging_exception (''Fail to remove bucket '' @ pbucket)) s)"

definition copy :: "string \<Rightarrow> string \<Rightarrow> string \<Rightarrow> string \<Rightarrow> bool comp" where
  "copy src_bucket src_path dest_bucket dest_path s =
     (let psrc_bucket = with_prefix (settings s) src_bucket;
          pdest_bucket = with_prefix (settings s) dest_bucket in
      try_except
        (bindE (conn_bucket_exists pdest_bucket) (\<lambda>ex.
         bindE (if \<not> ex then conn_make_bucket pdest_bucket else ret ()) (\<lambda>u.
         bindE (try_except
                  (bindE (conn_stat_object psrc_bucket src_path) (\<lambda>st. ret None))
                  (\<lambda>e. bindE (logging_exception
                                 (''Source object not found: '' @ psrc_bucket @ ''/''
                                   @ src_path @ '', '' @ str_exn e))
                          (\<lambda>u. ret (Some False))))
           (\<lambda>returned. case returned of
              Some r \<Rightarrow> ret r
            | None \<Rightarrow>
                bindE (conn_copy_object pdest_bucket dest_path psrc_bucket src_path)
                  (\<lambda>u. ret True)))))
        (\<lambda>e. bindE (logging_exception
                       (''Fail to copy '' @ src_bucket @ ''/'' @ src_path @ '' -> ''
                         @ dest_bucket @ ''/'' @ dest_path))
                (\<lambda>u. ret False)) s)"

definition move :: "string \<Rightarrow> string \<Rightarrow> string \<Rightarrow> string \<Rightarrow> bool comp" where
  "move src_bucket src_path dest_bucket dest_path s =
     (let psrc_bucket = with_prefix (settings s) src_bucket;
          pdest_bucket = with_prefix (settings s) dest_bucket in
      try_except
        (bindE (copy psrc_bucket src_path pdest_bucket dest_path) (\<lambda>copied.
           if copied then
             bindE (rm psrc_bucket src_path None) (\<lambda>u. ret True)
           else
             bindE (logging_error
                      (''Copy failed, move aborted: '' @ psrc_bucket @ ''/'' @ src_path))
               (\<lambda>u. ret False)))
        (\<lambda>e. bindE (logging_exception
                       (''Fail to move '' @ psrc_bucket @ ''/'' @ src_path @ '' -> ''
                         @ pdest_bucket @ ''/'' @ dest_path))
                (\<lambda>u. ret False)) s)"

subsection \<open>Observations on a run\<close>

text \<open>The events a run from \<open>s\<close> to \<open>s'\<close> appended to the record, and the calls among events.\<close>

definition new_events :: "state \<Rightarrow> state \<Rightarrow> event list" where
  "new_events s s' = drop (length (events s)) (events s')"

fun calls_of :: "event list \<Rightarrow> call list" where
  "calls_of [] = []"
| "calls_of (Call c # evs) = c # calls_of evs"
| "calls_of (e # evs) = calls_of evs"

text \<open>The bucket names a call on the connection carries.\<close>

fun call_buckets :: "call \<Rightarrow> string list" where
  "call_buckets (BucketExists b) = [b]"
| "call_buckets (MakeBucket b) = [b]"
| "call_buckets (PutObject b k d n) = [b]"
| "call_buckets (RemoveObject b k) = [b]"
| "call_buckets (GetObject b k) = [b]"
| "call_buckets ResponseRead = []"
| "call_buckets (StatObject b k) = [b]"
| "call_buckets (GetPresignedUrl m b k e) = [b]"
| "call_buckets (ListObjects b r) = [b]"
| "call_buckets (RemoveBucket b) = [b]"
| "call_buckets (CopyObject db dk sb sk) = [db, sb]"

text \<open>The call carries no bucket name but \<open>b\<close>.\<close>

definition only_bucket :: "string \<Rightarrow> call \<Rightarrow> bool" where
  "only_bucket b c \<longleftrightarrow> set (call_buckets c) \<subseteq> {b}"

text \<open>The object stored under a bucket and a key, if any.\<close>

definition lookup_object :: "(string \<times> objects) list \<Rightarrow> string \<Rightarrow> string \<Rightarrow> bytes option" where
  "lookup_object bs b k = (case map_of bs b of None \<Rightarrow> None | Some objs \<Rightarrow> map_of objs k)"

text \<open>The bucket prefix is unset or empty.\<close>

definition no_prefix :: "rag_settings \<Rightarrow> bool" where
  "no_prefix cfg \<longleftrightarrow> MINIO_BUCKET_PREFIX cfg = None \<or> MINIO_BUCKET_PREFIX cfg = Some ''''"

text \<open>
  A run that leaves the settings, the handle and the constructor's schedule alone and
  appends events that all satisfy \<open>P\<close>.
\<close>

definition frame :: "(event \<Rightarrow> bool) \<Rightarrow> state \<Rightarrow> state \<Rightarrow> bool" where
  "frame P s s' \<longleftrightarrow>
     settings s' = settings s \<and> MINIO_HEALTH_BUCKET s' = MINIO_HEALTH_BUCKET s \<and>
     conn s' = conn s \<and> ctor_faults s' = ctor_faults s \<and>
     (\<exists>evs. events s' = events s @ evs \<and> list_all P evs)"

definition framed :: "(event \<Rightarrow> bool) \<Rightarrow> 'a comp \<Rightarrow> bool" where
  "framed P m \<longleftrightarrow> (\<forall>s. frame P s (snd (m s)))"

text \<open>Calls on the connection that satisfy \<open>Q\<close>; those and log records.\<close>

fun on_call :: "(call \<Rightarrow> bool) \<Rightarrow> event \<Rightarrow> bool" where
  "on_call Q (Call c) = Q c"
| "on_call Q e = False"

fun call_or_log :: "(call \<Rightarrow> bool) \<Rightarrow> event \<Rightarrow> bool" where
  "call_or_log Q (Call c) = Q c"
| "call_or_log Q (LogException m) = True"
| "call_or_log Q (LogError m) = True"
| "call_or_log Q e = False"

text \<open>The failure the schedule holds for the next call, and the state after a call.\<close>

definition next_fault :: "state \<Rightarrow> exn option" where
  "next_fault s = (case faults s of Some e # fs \<Rightarrow> Some e | _ \<Rightarrow> None)"

definition called :: "call \<Rightarrow> state \<Rightarrow> state" where
  "called c s = s\<lparr>events := events s @ [Call c], faults := tl (faults s)\<rparr>"

text \<open>The schedule induces no failure any more.\<close>

definition no_faults :: "state \<Rightarrow> bool" where
  "no_faults s \<longleftrightarrow> list_all (\<lambda>f. f = None) (faults s)"

text \<open>
  The schedule holds a failure for each of the next \<open>n\<close> calls on the connection (a call on
  a missing connection raises without reading the schedule).
\<close>

definition persistent_failure :: "nat \<Rightarrow> state \<Rightarrow> bool" where
  "persistent_failure n s \<longleftrightarrow>
     n \<le> length (faults s) \<and> list_all (\<lambda>f. f \<noteq> None) (take n (faults s))"

text \<open>The handler of the three retry loops: log the failure, reconnect, pause one second.\<close>

definition recover :: "string \<Rightarrow> unit comp" where
  "recover msg = bindE (logging_exception msg) (\<lambda>u. bindE dunder_open (\<lambda>u. time_sleep 1))"

text \<open>
  What a retry loop leaves in the record besides its calls and the records of a failed
  reconnect: per failed attempt the failure's log record, the constructor call with the
  static configuration, and the pause.
\<close>

definition connect_msg :: "rag_settings \<Rightarrow> string" where
  "connect_msg cfg = ''Fail to connect '' @ MINIO_host cfg @ '' ''"

fun retry_relevant :: "string \<Rightarrow> event \<Rightarrow> bool" where
  "retry_relevant cmsg (Call c) = False"
| "retry_relevant cmsg (LogException m) = (m \<noteq> cmsg)"
| "retry_relevant cmsg e = True"

definition retry_trace :: "rag_settings \<Rightarrow> event list \<Rightarrow> event list" where
  "retry_trace cfg evs = filter (retry_relevant (connect_msg cfg)) evs"

definition retry_block :: "rag_settings \<Rightarrow> string \<Rightarrow> event list" where
  "retry_block cfg msg =
     [LogException msg,
      NewMinio (MINIO_host cfg) (MINIO_user cfg) (MINIO_password cfg) False,
      Sleep 1]"

text \<open>The constructor calls among some events.\<close>

fun is_new_minio :: "event \<Rightarrow> bool" where
  "is_new_minio (NewMinio host user password sec) = True"
| "is_new_minio e = False"

text \<open>The handle the constructor builds from the static configuration.\<close>

definition static_client :: "rag_settings \<Rightarrow> minio_client" where
  "static_client cfg =
     \<lparr>endpoint = MINIO_host cfg, access_key = MINIO_user cfg,
      secret_key = MINIO_password cfg, secure = False\<rparr>"

text \<open>The calls of a \<open>copy\<close> that runs to its end.\<close>

definition copy_calls :: "state \<Rightarrow> string \<Rightarrow> string \<Rightarrow> string \<Rightarrow> string \<Rightarrow> call list" where
  "copy_calls s src_bucket src_path dest_bucket dest_path =
     (let psrc_bucket = with_prefix (settings s) src_bucket;
          pdest_bucket = with_prefix (settings s) dest_bucket in
      [BucketExists pdest_bucket]
      @ (if map_of (buckets s) pdest_bucket = None then [MakeBucket pdest_bucket] else [])
      @ [StatObject psrc_bucket src_path,
         CopyObject pdest_bucket dest_path psrc_bucket src_path])"

text \<open>
  The events of a failed attempt whose reconnect's constructor raised: as \<open>retry_block\<close>,
  with the record of the failed connect before the pause.
\<close>

definition retry_block_failed :: "rag_settings \<Rightarrow> string \<Rightarrow> event list" where
  "retry_block_failed cfg msg =
     [LogException msg,
      NewMinio (MINIO_host cfg) (MINIO_user cfg) (MINIO_password cfg) False,
      LogException (connect_msg cfg),
      Sleep 1]"

text \<open>
  The events of one failed attempt of a retry loop: the calls the \<open>try\<close> block made before
  it raised, a prefix of one of the call sequences \<open>seqs\<close> of a full run of the block, then
  the failure's log record, the constructor call and the pause.
\<close>

definition failed_attempt :: "rag_settings \<Rightarrow> string \<Rightarrow> call list list \<Rightarrow> event list \<Rightarrow> bool" where
  "failed_attempt cfg msg seqs seg \<longleftrightarrow>
     (\<exists>q\<in>set seqs. \<exists>cs\<in>set (prefixes q).
        seg = map Call cs @ retry_block cfg msg \<or>
        seg = map Call cs @ retry_block_failed cfg msg)"

text \<open>
  The handle after a retry loop whose failed attempts left the segments \<open>segs\<close>: the one
  it started with when no attempt failed, else the one the last reconnect built from the
  static configuration, or none when that reconnect's constructor raised.
\<close>

definition conn_after ::
    "rag_settings \<Rightarrow> minio_client option \<Rightarrow> event list list \<Rightarrow> minio_client option" where
  "conn_after cfg c0 segs =
     (if segs = [] then c0
      else if LogException (connect_msg cfg) \<in> set (last segs) then None
      else Some (static_client cfg))"

text \<open>
  The events of a whole retry loop with ceiling \<open>n\<close>, started with the handle \<open>c0\<close> and
  left with the handle \<open>c1\<close>: one segment per failed attempt, then the calls of the attempt
  that returned. When the loop returns no result there are exactly \<open>n\<close> failed attempts and
  nothing after them; when it returns a result there are fewer than \<open>n\<close> failed attempts,
  followed by one full run of the \<open>try\<close> block. The number of attempts is the number of
  segments, plus one when a result is returned. The handle afterwards is \<open>conn_after\<close>.
\<close>

definition retry_run ::
    "nat \<Rightarrow> rag_settings \<Rightarrow> string \<Rightarrow> call list list \<Rightarrow> bool
       \<Rightarrow> minio_client option \<Rightarrow> minio_client option \<Rightarrow> event list \<Rightarrow> bool" where
  "retry_run n cfg msg seqs no_result c0 c1 evs \<longleftrightarrow>
     (\<exists>segs tail.
        evs = concat segs @ tail \<and>
        list_all (failed_attempt cfg msg seqs) segs \<and>
        (if no_result then length segs = n \<and> tail = []
         else length segs < n \<and> (\<exists>q\<in>set seqs. tail = map Call q)) \<and>
        c1 = conn_after cfg c0 segs)"

text \<open>
  The events of a retry loop as to reconnecting: every failed attempt is a segment with
  its one constructor call, and the handle afterwards is \<open>conn_after\<close>.
\<close>

definition reconnect_run ::
    "rag_settings \<Rightarrow> string \<Rightarrow> call list list \<Rightarrow> minio_client option
       \<Rightarrow> minio_client option \<Rightarrow> event list \<Rightarrow> bool" where
  "reconnect_run cfg msg seqs c0 c1 evs \<longleftrightarrow>
     (\<exists>segs tail.
        evs = concat segs @ tail \<and>
        list_all (failed_attempt cfg msg seqs) segs \<and>
        (tail = [] \<or> (\<exists>q\<in>set seqs. tail = map Call q)) \<and>
        c1 = conn_after cfg c0 segs)"

text \<open>The call sequences of a full run of the three \<open>try\<close> blocks.\<close>

definition put_seqs :: "string \<Rightarrow> string \<Rightarrow> bytes \<Rightarrow> call list list" where
  "put_seqs pbucket fnm binary =
     [[BucketExists pbucket, PutObject pbucket fnm binary (length binary)],
      [BucketExists pbucket, MakeBucket pbucket, PutObject pbucket fnm binary (length binary)]]"

definition get_seqs :: "string \<Rightarrow> string \<Rightarrow> call list list" where
  "get_seqs pbucket filename = [[GetObject pbucket filename, ResponseRead]]"

definition get_presigned_url_seqs :: "string \<Rightarrow> string \<Rightarrow> nat \<Rightarrow> call list list" where
  "get_presigned_url_seqs pbucket fnm expires = [[GetPresignedUrl ''GET'' pbucket fnm expires]]"

subsection \<open>Example states\<close>

text \<open>Settings without and with a bucket prefix, and the handle built from them.\<close>

definition cfg0 :: rag_settings where
  "cfg0 = \<lparr>MINIO_BUCKET_PREFIX = None, MINIO_host = ''minio:9000'',
           MINIO_user = ''rag'', MINIO_password = ''secret''\<rparr>"

definition cfg_p :: rag_settings where
  "cfg_p = cfg0\<lparr>MINIO_BUCKET_PREFIX := Some ''p''\<rparr>"

definition h0 :: minio_client where
  "h0 = \<lparr>endpoint = ''minio:9000'', access_key = ''rag'', secret_key = ''secret'',
         secure = False\<rparr>"

text \<open>A connected client, an empty store, no induced failure.\<close>

definition st0 :: state where
  "st0 = \<lparr>settings = cfg0, MINIO_HEALTH_BUCKET = None, conn = Some h0, buckets = [],
          faults = [], ctor_faults = [], events = []\<rparr>"

text \<open>The store holds one object; the same under the prefix \<open>p\<close>.\<close>

definition st_docs :: state where
  "st_docs = st0\<lparr>buckets := [(''docs'', [(''a.pdf'', [1, 2])])]\<rparr>"

definition st_p :: state where
  "st_p = st0\<lparr>settings := cfg_p, buckets := [(''p-docs'', [(''a.pdf'', [1, 2])])]\<rparr>"

text \<open>
  The service is unreachable for the next ten calls; the fifth call fails (the
  remove\_object of a move); the first call is refused with an S3 error.
\<close>

definition st_down :: state where
  "st_down = st0\<lparr>faults := replicate 10 (Some (OtherException ''ConnectionError''))\<rparr>"

definition st_rm_fails :: state where
  "st_rm_fails =
     st_docs\<lparr>faults := [None, None, None, None, Some (OtherException ''ConnectionError'')]\<rparr>"

definition st_denied :: state where
  "st_denied = st0\<lparr>faults := [Some (S3Error ''AccessDenied'')]\<rparr>"

text \<open>
  The service is unreachable and the constructor raises three times; the handle is
  missing; the second call (the stat\_object of an existence check) fails; the first call
  reports a missing bucket; the second call reports a missing key.
\<close>

definition st_lost :: state where
  "st_lost = st_down\<lparr>ctor_faults := replicate 3 (Some (OtherException ''ValueError''))\<rparr>"

definition st_closed :: state where
  "st_closed = st0\<lparr>conn := None\<rparr>"

definition st_stat_down :: state where
  "st_stat_down = st_docs\<lparr>faults := [None, Some (OtherException ''ConnectionError'')]\<rparr>"

definition st_no_bucket :: state where
  "st_no_bucket = st0\<lparr>faults := [Some (S3Error ''NoSuchBucket'')]\<rparr>"

definition st_no_key :: state where
  "st_no_key = st_docs\<lparr>faults := [None, Some (S3Error ''NoSuchKey'')]\<rparr>"

section \<open>Properties\<close>

subsection \<open>The prefix transform\<close>

lemma with_prefix_value:
  "with_prefix cfg b =
     (case MINIO_BUCKET_PREFIX cfg of
        None \<Rightarrow> b
      | Some p \<Rightarrow> if p = [] then b else p @ ''-'' @ b)"
  by (simp add: with_prefix_def split: option.splits)

subsection \<open>Runs that leave the connection alone\<close>

lemma frame_refl: "frame P s s"
  by (simp add: frame_def)

lemma frame_trans:
  assumes "frame P s s'" and "frame P s' s''"
  shows "frame P s s''"
proof -
  from assms(1) obtain cs where cs: "events s' = events s @ cs" "list_all P cs"
    by (auto simp: frame_def)
  from assms(2) obtain ds where ds: "events s'' = events s' @ ds" "list_all P ds"
    by (auto simp: frame_def)
  have "events s'' = events s @ (cs @ ds) \<and> list_all P (cs @ ds)"
    using cs ds by simp
  then have "\<exists>es. events s'' = events s @ es \<and> list_all P es"
    by blast
  with assms show ?thesis
    by (simp add: frame_def)
qed

lemma frame_mono:
  assumes "frame P s s'" and "\<And>e. P e \<Longrightarrow> P' e"
  shows "frame P' s s'"
proof -
  from assms(1) obtain cs where cs: "events s' = events s @ cs" "list_all P cs"
    by (auto simp: frame_def)
  have "list_all P' cs" using cs(2) assms(2) by (simp add: list_all_iff)
  with cs(1) have "\<exists>es. events s' = events s @ es \<and> list_all P' es" by blast
  with assms(1) show ?thesis by (simp add: frame_def)
qed

lemma framedD: "framed P m \<Longrightarrow> frame P s (snd (m s))"
  by (simp add: framed_def)

lemma framed_ret: "framed P (ret v)"
  by (simp add: framed_def ret_def frame_refl)

lemma framed_bindE:
  assumes "framed P m" and "\<And>v. framed P (f v)"
  shows "framed P (bindE m f)"
  unfolding framed_def
proof
  fix s
  obtain r s' where ms: "m s = (r, s')" by (cases "m s")
  have 1: "frame P s s'" using assms(1) ms by (auto simp: framed_def dest: spec[of _ s])
  show "frame P s (snd (bindE m f s))"
  proof (cases r)
    case (Inl e)
    then show ?thesis using ms 1 by (simp add: bindE_def)
  next
    case (Inr v)
    have "frame P s' (snd (f v s'))" using assms(2)[of v] by (simp add: framed_def)
    then show ?thesis using ms 1 Inr by (auto simp: bindE_def intro: frame_trans)
  qed
qed

lemma framed_try_except:
  assumes "framed P m" and "\<And>e. framed P (h e)"
  shows "framed P (try_except m h)"
  unfolding framed_def
proof
  fix s
  obtain r s' where ms: "m s = (r, s')" by (cases "m s")
  have 1: "frame P s s'" using assms(1) ms by (auto simp: framed_def dest: spec[of _ s])
  show "frame P s (snd (try_except m h s))"
  proof (cases r)
    case (Inr v)
    then show ?thesis using ms 1 by (simp add: try_except_def)
  next
    case (Inl e)
    have "frame P s' (snd (h e s'))" using assms(2)[of e] by (simp add: framed_def)
    then show ?thesis using ms 1 Inl by (auto simp: try_except_def intro: frame_trans)
  qed
qed

lemma frame_emit:
  assumes "P e"
  shows "frame P s (emit e s)"
proof -
  have "events (emit e s) = events s @ [e] \<and> list_all P [e]"
    using assms by (simp add: emit_def)
  then have "\<exists>es. events (emit e s) = events s @ es \<and> list_all P es" by blast
  then show ?thesis by (simp add: frame_def emit_def)
qed

lemma framed_logging_exception: "P (LogException m) \<Longrightarrow> framed P (logging_exception m)"
  by (simp add: framed_def logging_exception_def frame_emit)

lemma framed_logging_error: "P (LogError m) \<Longrightarrow> framed P (logging_error m)"
  by (simp add: framed_def logging_error_def frame_emit)

lemma framed_induce:
  assumes "P (Call c)"
  shows "framed P (induce c)"
  unfolding framed_def
proof
  fix s
  have "events (snd (induce c s)) = events s @ [Call c]"
    by (simp add: induce_def emit_def Let_def split: list.splits option.splits)
  moreover have "list_all P [Call c]" using assms by simp
  ultimately have "\<exists>cs. events (snd (induce c s)) = events s @ cs \<and> list_all P cs"
    by blast
  moreover have "settings (snd (induce c s)) = settings s"
    "MINIO_HEALTH_BUCKET (snd (induce c s)) = MINIO_HEALTH_BUCKET s"
    "conn (snd (induce c s)) = conn s" "ctor_faults (snd (induce c s)) = ctor_faults s"
    by (simp_all add: induce_def emit_def Let_def split: list.splits option.splits)
  ultimately show "frame P s (snd (induce c s))"
    by (simp add: frame_def)
qed

lemma framed_invoke: "P (Call c) \<Longrightarrow> framed P (invoke c)"
  using framed_induce[of P c]
  unfolding framed_def invoke_def
  by (auto simp: frame_refl split: option.splits)

lemma framed_quiet:
  assumes "\<And>s. events (snd (g s)) = events s" "\<And>s. settings (snd (g s)) = settings s"
    "\<And>s. MINIO_HEALTH_BUCKET (snd (g s)) = MINIO_HEALTH_BUCKET s"
    "\<And>s. conn (snd (g s)) = conn s" "\<And>s. ctor_faults (snd (g s)) = ctor_faults s"
  shows "framed P g"
  unfolding framed_def frame_def
proof (intro allI conjI)
  fix s
  have "events (snd (g s)) = events s @ [] \<and> list_all P []"
    using assms(1) by simp
  then show "\<exists>cs. events (snd (g s)) = events s @ cs \<and> list_all P cs"
    by blast
qed (simp_all add: assms)

lemma framed_conn_bucket_exists:
  "P (Call (BucketExists b)) \<Longrightarrow> framed P (conn_bucket_exists b)"
  unfolding conn_bucket_exists_def
  by (rule framed_bindE, erule framed_invoke, rule framed_quiet) simp_all

lemma framed_conn_make_bucket: "P (Call (MakeBucket b)) \<Longrightarrow> framed P (conn_make_bucket b)"
  unfolding conn_make_bucket_def
  by (rule framed_bindE, erule framed_invoke, rule framed_quiet)
     (simp_all split: option.splits)

lemma framed_conn_put_object:
  "P (Call (PutObject b k d n)) \<Longrightarrow> framed P (conn_put_object b k d n)"
  unfolding conn_put_object_def
  by (rule framed_bindE, erule framed_invoke, rule framed_quiet)
     (simp_all split: option.splits)

lemma framed_conn_remove_object:
  "P (Call (RemoveObject b k)) \<Longrightarrow> framed P (conn_remove_object b k)"
  unfolding conn_remove_object_def
  by (rule framed_bindE, erule framed_invoke, rule framed_quiet)
     (simp_all split: option.splits)

lemma framed_conn_get_object: "P (Call (GetObject b k)) \<Longrightarrow> framed P (conn_get_object b k)"
  unfolding conn_get_object_def
  by (rule framed_bindE, erule framed_invoke, rule framed_quiet)
     (simp_all split: option.splits)

lemma framed_response_read: "P (Call ResponseRead) \<Longrightarrow> framed P (response_read r)"
  unfolding response_read_def
  by (rule framed_bindE, erule framed_induce) (rule framed_ret)

lemma framed_conn_stat_object:
  "P (Call (StatObject b k)) \<Longrightarrow> framed P (conn_stat_object b k)"
  unfolding conn_stat_object_def
  by (rule framed_bindE, erule framed_invoke, rule framed_quiet)
     (simp_all split: option.splits)

lemma framed_conn_get_presigned_url:
  "P (Call (GetPresignedUrl m b k e)) \<Longrightarrow> framed P (conn_get_presigned_url m b k e)"
  unfolding conn_get_presigned_url_def
  by (rule framed_bindE, erule framed_invoke, rule framed_quiet)
     (simp_all split: option.splits)

lemma framed_conn_list_objects:
  "P (Call (ListObjects b r)) \<Longrightarrow> framed P (conn_list_objects b r)"
  unfolding conn_list_objects_def
  by (rule framed_bindE, erule framed_invoke, rule framed_quiet)
     (simp_all split: option.splits)

lemma framed_conn_remove_bucket:
  "P (Call (RemoveBucket b)) \<Longrightarrow> framed P (conn_remove_bucket b)"
  unfolding conn_remove_bucket_def
  by (rule framed_bindE, erule framed_invoke, rule framed_quiet)
     (simp_all split: option.splits)

lemma framed_conn_copy_object:
  "P (Call (CopyObject db dk sb sk)) \<Longrightarrow> framed P (conn_copy_object db dk sb sk)"
  unfolding conn_copy_object_def
  by (rule framed_bindE, erule framed_invoke, rule framed_quiet)
     (simp_all split: option.splits)

lemma frame_put_body:
  "frame (on_call (only_bucket (with_prefix (settings s) bucket))) s
     (snd (put_body bucket fnm binary s))"
  unfolding put_body_def Let_def
  by (intro framedD framed_bindE framed_conn_bucket_exists framed_conn_put_object)
     (simp_all add: framed_conn_make_bucket framed_ret only_bucket_def)

lemma frame_get_body:
  "frame (on_call (only_bucket (with_prefix (settings s) bucket))) s
     (snd (get_body bucket filename s))"
  unfolding get_body_def Let_def
  by (intro framedD framed_bindE framed_conn_get_object framed_response_read)
     (simp_all add: only_bucket_def)

lemma frame_get_presigned_url_body:
  "frame (on_call (only_bucket (with_prefix (settings s) bucket))) s
     (snd (get_presigned_url_body bucket fnm expires s))"
  unfolding get_presigned_url_body_def Let_def
  by (intro framedD framed_conn_get_presigned_url) (simp add: only_bucket_def)

subsection \<open>Reconnecting\<close>

lemma dunder_open_result: "fst (dunder_open s) = Inr ()"
  by (simp add: dunder_open_def bindE_def try_except_def dunder_close_def ret_def Minio_def
      emit_def logging_exception_def Let_def split: list.splits option.splits)

lemma dunder_open_settings: "settings (snd (dunder_open s)) = settings s"
  by (simp add: dunder_open_def bindE_def try_except_def dunder_close_def ret_def Minio_def
      emit_def logging_exception_def Let_def split: list.splits option.splits)

lemma dunder_open_events:
  "events (snd (dunder_open s)) =
     events s @ NewMinio (MINIO_host (settings s)) (MINIO_user (settings s))
                  (MINIO_password (settings s)) False
       # (case ctor_faults s of Some e # fs \<Rightarrow> [LogException (connect_msg (settings s))]
          | _ \<Rightarrow> [])"
  by (simp add: dunder_open_def bindE_def try_except_def dunder_close_def ret_def Minio_def
      emit_def logging_exception_def Let_def connect_msg_def split: list.splits option.splits)

lemma dunder_open_conn:
  "conn (snd (dunder_open s)) =
     (case ctor_faults s of Some e # fs \<Rightarrow> None
      | _ \<Rightarrow> Some \<lparr>endpoint = MINIO_host (settings s), access_key = MINIO_user (settings s),
                   secret_key = MINIO_password (settings s), secure = False\<rparr>)"
  by (simp add: dunder_open_def bindE_def try_except_def dunder_close_def ret_def Minio_def
      emit_def logging_exception_def Let_def split: list.splits option.splits)

lemma dunder_open_faults: "faults (snd (dunder_open s)) = faults s"
  by (simp add: dunder_open_def bindE_def try_except_def dunder_close_def ret_def Minio_def
      emit_def logging_exception_def Let_def split: list.splits option.splits)

lemma dunder_open_buckets: "buckets (snd (dunder_open s)) = buckets s"
  by (simp add: dunder_open_def bindE_def try_except_def dunder_close_def ret_def Minio_def
      emit_def logging_exception_def Let_def split: list.splits option.splits)

lemma recover_eq:
  "recover msg s = (Inr (), emit (Sleep 1) (snd (dunder_open (emit (LogException msg) s))))"
proof -
  obtain r s' where d: "dunder_open (emit (LogException msg) s) = (r, s')"
    by (cases "dunder_open (emit (LogException msg) s)")
  then have "r = Inr ()" using dunder_open_result[of "emit (LogException msg) s"] by simp
  with d show ?thesis
    by (simp add: recover_def bindE_def logging_exception_def time_sleep_def)
qed

lemma recover_events:
  "events (snd (recover msg s)) =
     events s @ [LogException msg, NewMinio (MINIO_host (settings s)) (MINIO_user (settings s))
                  (MINIO_password (settings s)) False]
       @ (case ctor_faults s of Some e # fs \<Rightarrow> [LogException (connect_msg (settings s))]
          | _ \<Rightarrow> []) @ [Sleep 1]"
  by (simp add: recover_eq emit_def dunder_open_events split: list.splits option.splits)

lemma recover_trace:
  assumes "msg \<noteq> connect_msg (settings s)"
  shows "\<exists>ev. events (snd (recover msg s)) = events s @ ev \<and>
           retry_trace (settings s) ev = retry_block (settings s) msg"
proof -
  let ?ev = "[LogException msg, NewMinio (MINIO_host (settings s)) (MINIO_user (settings s))
                  (MINIO_password (settings s)) False]
       @ (case ctor_faults s of Some e # fs \<Rightarrow> [LogException (connect_msg (settings s))]
          | _ \<Rightarrow> []) @ [Sleep 1]"
  have "retry_trace (settings s) ?ev = retry_block (settings s) msg"
    using assms by (simp add: retry_trace_def retry_block_def split: list.splits option.splits)
  then show ?thesis using recover_events[of msg s] by blast
qed

lemma recover_fields:
  "fst (recover msg s) = Inr ()" "settings (snd (recover msg s)) = settings s"
  "faults (snd (recover msg s)) = faults s" "buckets (snd (recover msg s)) = buckets s"
  by (simp_all add: recover_eq emit_def dunder_open_settings dunder_open_faults dunder_open_buckets)

lemma retry_trace_calls: "list_all (on_call Q) evs \<Longrightarrow> retry_trace cfg evs = []"
proof (induction evs)
  case Nil
  show ?case by (simp add: retry_trace_def)
next
  case (Cons e evs)
  then show ?case by (cases e) (simp_all add: retry_trace_def)
qed

lemma retry_trace_append: "retry_trace cfg (xs @ ys) = retry_trace cfg xs @ retry_trace cfg ys"
  by (simp add: retry_trace_def)

lemma for_range_try_trace:
  assumes body: "\<And>s. frame (on_call (Q s)) s (snd (body s))"
    and hres: "\<And>s. fst (handler s) = Inr ()"
    and hset: "\<And>s. settings (snd (handler s)) = settings s"
    and hev: "\<And>s. \<exists>ev. events (snd (handler s)) = events s @ ev \<and>
                 retry_trace (settings s) ev = retry_block (settings s) (msg (settings s))"
  shows "settings (snd (for_range_try n body handler s)) = settings s \<and>
         (\<exists>ev k. events (snd (for_range_try n body handler s)) = events s @ ev \<and> k \<le> n \<and>
            retry_trace (settings s) ev
              = concat (replicate k (retry_block (settings s) (msg (settings s)))) \<and>
            (fst (for_range_try n body handler s) = Inr None \<longleftrightarrow> k = n)) \<and>
         (\<exists>v. fst (for_range_try n body handler s) = Inr v)"
proof (induction n arbitrary: s)
  case 0
  show ?case by (simp add: retry_trace_def)
next
  case (Suc n)
  obtain r s1 where b: "body s = (r, s1)" by (cases "body s")
  from body[of s] b obtain cs where s1: "settings s1 = settings s"
      "events s1 = events s @ cs" "list_all (on_call (Q s)) cs"
    by (auto simp: frame_def)
  note calls = retry_trace_calls[OF s1(3)]
  show ?case
  proof (cases r)
    case (Inr v)
    have "events s1 = events s @ cs \<and> (0::nat) \<le> Suc n \<and>
       retry_trace (settings s) cs
         = concat (replicate 0 (retry_block (settings s) (msg (settings s)))) \<and>
       ((Inr (Some v) :: exn + 'a option) = Inr None \<longleftrightarrow> (0::nat) = Suc n)"
      using s1 by (simp add: calls)
    then show ?thesis using b Inr s1 by (simp del: replicate.simps) blast
  next
    case (Inl e)
    obtain u s2 where h: "handler s1 = (u, s2)" by (cases "handler s1")
    have u: "u = Inr ()" using hres[of s1] h by simp
    have s2: "settings s2 = settings s" using hset[of s1] h s1 by simp
    from hev[of s1] h s1 obtain ev1 where ev1: "events s2 = events s1 @ ev1"
      "retry_trace (settings s) ev1 = retry_block (settings s) (msg (settings s))"
      by auto
    have step: "for_range_try (Suc n) body handler s = for_range_try n body handler s2"
      using b Inl h u by simp
    from Suc.IH[of s2] s2 obtain ev k where
      ih: "settings (snd (for_range_try n body handler s2)) = settings s"
        "events (snd (for_range_try n body handler s2)) = events s2 @ ev" "k \<le> n"
        "retry_trace (settings s) ev
           = concat (replicate k (retry_block (settings s) (msg (settings s))))"
        "(fst (for_range_try n body handler s2) = Inr None) = (k = n)"
        "\<exists>v. fst (for_range_try n body handler s2) = Inr v"
      by auto
    have "events (snd (for_range_try n body handler s2)) = events s @ (cs @ ev1 @ ev) \<and>
       Suc k \<le> Suc n \<and>
       retry_trace (settings s) (cs @ ev1 @ ev)
         = concat (replicate (Suc k) (retry_block (settings s) (msg (settings s)))) \<and>
       ((fst (for_range_try n body handler s2) = Inr None) = (Suc k = Suc n))"
      using ih ev1 s1 by (simp add: retry_trace_append calls)
    then have "\<exists>ev k. events (snd (for_range_try n body handler s2)) = events s @ ev \<and>
       k \<le> Suc n \<and>
       retry_trace (settings s) ev
         = concat (replicate k (retry_block (settings s) (msg (settings s)))) \<and>
       ((fst (for_range_try n body handler s2) = Inr None) = (k = Suc n))"
      by blast
    then show ?thesis using ih(1,6) unfolding step by blast
  qed
qed

lemma bindE_Inl: "fst (m s) = Inl e \<Longrightarrow> bindE m f s = (Inl e, snd (m s))"
  by (cases "m s") (simp add: bindE_def)

lemma invoke_fails:
  assumes "persistent_failure (Suc n) s"
  shows "\<exists>e. fst (invoke c s) = Inl e \<and> persistent_failure n (snd (invoke c s))"
proof (cases "conn s")
  case None
  have "set (take n (faults s)) \<subseteq> set (take (Suc n) (faults s))"
    by (rule set_take_subset_set_take) simp
  then have "persistent_failure n s" using assms
    unfolding persistent_failure_def list_all_iff by auto
  then show ?thesis using None by (simp add: invoke_def)
next
  case (Some h)
  from assms obtain f fs where fs: "faults s = f # fs"
    by (cases "faults s") (auto simp: persistent_failure_def)
  with assms obtain e where e: "f = Some e"
    by (cases f) (auto simp: persistent_failure_def)
  have "persistent_failure n (snd (invoke c s))"
    using assms Some fs e by (simp add: invoke_def induce_def emit_def persistent_failure_def)
  then show ?thesis using Some fs e by (simp add: invoke_def induce_def emit_def)
qed

lemma bindE_fails:
  assumes "\<exists>e. fst (m s) = Inl e \<and> Q (snd (m s))"
  shows "\<exists>e. fst (bindE m f s) = Inl e \<and> Q (snd (bindE m f s))"
  using assms by (cases "m s") (auto simp: bindE_def)

lemma put_body_fails:
  assumes "persistent_failure (Suc n) s"
  shows "\<exists>e. fst (put_body bucket fnm binary s) = Inl e \<and>
           persistent_failure n (snd (put_body bucket fnm binary s))"
  unfolding put_body_def Let_def conn_bucket_exists_def
  by (intro bindE_fails invoke_fails assms)

lemma get_body_fails:
  assumes "persistent_failure (Suc n) s"
  shows "\<exists>e. fst (get_body bucket filename s) = Inl e \<and>
           persistent_failure n (snd (get_body bucket filename s))"
  unfolding get_body_def Let_def conn_get_object_def
  by (intro bindE_fails invoke_fails assms)

lemma get_presigned_url_body_fails:
  assumes "persistent_failure (Suc n) s"
  shows "\<exists>e. fst (get_presigned_url_body bucket fnm expires s) = Inl e \<and>
           persistent_failure n (snd (get_presigned_url_body bucket fnm expires s))"
  unfolding get_presigned_url_body_def Let_def conn_get_presigned_url_def
  by (intro bindE_fails invoke_fails assms)

lemma for_range_try_fails:
  assumes body: "\<And>n s. persistent_failure (Suc n) s \<Longrightarrow>
       \<exists>e. fst (body s) = Inl e \<and> persistent_failure n (snd (body s))"
    and hres: "\<And>s. fst (handler s) = Inr ()"
    and hfaults: "\<And>s. faults (snd (handler s)) = faults s"
  shows "persistent_failure n s \<Longrightarrow> fst (for_range_try n body handler s) = Inr None"
proof (induction n arbitrary: s)
  case 0
  show ?case by simp
next
  case (Suc n)
  obtain r s1 where b: "body s = (r, s1)" by (cases "body s")
  from body[OF Suc.prems] b obtain e where e: "r = Inl e" "persistent_failure n s1" by auto
  obtain u s2 where h: "handler s1 = (u, s2)" by (cases "handler s1")
  have u: "u = Inr ()" using hres[of s1] h by simp
  have "faults s2 = faults s1" using hfaults[of s1] h by simp
  then have "persistent_failure n s2" using e(2) by (simp add: persistent_failure_def)
  from Suc.IH[OF this] show ?case using b e h u by simp
qed

lemma put_handler_recover:
  "put_handler bucket fnm = recover (''Fail to put '' @ bucket @ ''/'' @ fnm @ '':'')"
  by (simp add: put_handler_def recover_def)

lemma get_handler_recover:
  "get_handler bucket filename s =
     recover (''Fail to get '' @ with_prefix (settings s) bucket @ ''/'' @ filename) s"
  by (simp add: get_handler_def recover_def)

lemma get_presigned_url_handler_recover:
  "get_presigned_url_handler bucket fnm s =
     recover (''Fail to get_presigned '' @ with_prefix (settings s) bucket @ ''/'' @ fnm @ '':'') s"
  by (simp add: get_presigned_url_handler_def recover_def)

lemma put_trace:
  "settings (snd (put bucket fnm binary t s)) = settings s \<and>
   (\<exists>ev k. events (snd (put bucket fnm binary t s)) = events s @ ev \<and> k \<le> 3 \<and>
      retry_trace (settings s) ev
        = concat (replicate k (retry_block (settings s)
                                 (''Fail to put '' @ bucket @ ''/'' @ fnm @ '':''))) \<and>
      (fst (put bucket fnm binary t s) = Inr None \<longleftrightarrow> k = 3)) \<and>
   (\<exists>v. fst (put bucket fnm binary t s) = Inr v)"
  unfolding put_def put_handler_recover
proof (rule for_range_try_trace[where msg = "\<lambda>cfg. ''Fail to put '' @ bucket @ ''/'' @ fnm @ '':''"])
  show "\<And>s. frame (on_call (only_bucket (with_prefix (settings s) bucket))) s (snd (put_body bucket fnm binary s))"
    by (rule frame_put_body)
  show "\<And>s. \<exists>ev. events (snd (recover (''Fail to put '' @ bucket @ ''/'' @ fnm @ '':'') s)) = events s @ ev \<and>
            retry_trace (settings s) ev = retry_block (settings s) (''Fail to put '' @ bucket @ ''/'' @ fnm @ '':'')"
    by (rule recover_trace) (simp add: connect_msg_def)
qed (simp_all add: recover_fields)

lemma get_trace:
  "settings (snd (get bucket filename t s)) = settings s \<and>
   (\<exists>ev k. events (snd (get bucket filename t s)) = events s @ ev \<and> k \<le> 1 \<and>
      retry_trace (settings s) ev
        = concat (replicate k (retry_block (settings s)
            (''Fail to get '' @ with_prefix (settings s) bucket @ ''/'' @ filename))) \<and>
      (fst (get bucket filename t s) = Inr None \<longleftrightarrow> k = 1)) \<and>
   (\<exists>v. fst (get bucket filename t s) = Inr v)"
  unfolding get_def
proof (rule for_range_try_trace[where
      msg = "\<lambda>cfg. ''Fail to get '' @ with_prefix cfg bucket @ ''/'' @ filename"])
  show "\<And>s. frame (on_call (only_bucket (with_prefix (settings s) bucket))) s (snd (get_body bucket filename s))"
    by (rule frame_get_body)
  show "\<And>s. \<exists>ev. events (snd (get_handler bucket filename s)) = events s @ ev \<and>
            retry_trace (settings s) ev = retry_block (settings s)
              (''Fail to get '' @ with_prefix (settings s) bucket @ ''/'' @ filename)"
    unfolding get_handler_recover by (rule recover_trace) (simp add: connect_msg_def)
qed (simp_all add: recover_fields get_handler_recover)

lemma get_presigned_url_trace:
  "settings (snd (get_presigned_url bucket fnm expires t s)) = settings s \<and>
   (\<exists>ev k. events (snd (get_presigned_url bucket fnm expires t s)) = events s @ ev \<and> k \<le> 10 \<and>
      retry_trace (settings s) ev
        = concat (replicate k (retry_block (settings s)
            (''Fail to get_presigned '' @ with_prefix (settings s) bucket @ ''/'' @ fnm @ '':''))) \<and>
      (fst (get_presigned_url bucket fnm expires t s) = Inr None \<longleftrightarrow> k = 10)) \<and>
   (\<exists>v. fst (get_presigned_url bucket fnm expires t s) = Inr v)"
  unfolding get_presigned_url_def
proof (rule for_range_try_trace[where
      msg = "\<lambda>cfg. ''Fail to get_presigned '' @ with_prefix cfg bucket @ ''/'' @ fnm @ '':''"])
  show "\<And>s. frame (on_call (only_bucket (with_prefix (settings s) bucket))) s (snd (get_presigned_url_body bucket fnm expires s))"
    by (rule frame_get_presigned_url_body)
  show "\<And>s. \<exists>ev. events (snd (get_presigned_url_handler bucket fnm s)) = events s @ ev \<and>
            retry_trace (settings s) ev = retry_block (settings s)
              (''Fail to get_presigned '' @ with_prefix (settings s) bucket @ ''/'' @ fnm @ '':'')"
    unfolding get_presigned_url_handler_recover
    by (rule recover_trace) (simp add: connect_msg_def)
qed (simp_all add: recover_fields get_presigned_url_handler_recover)

lemma new_events_append: "events s' = events s @ ev \<Longrightarrow> new_events s s' = ev"
  by (simp add: new_events_def)

lemma put_fails:
  "persistent_failure 3 s \<Longrightarrow> fst (put bucket fnm binary t s) = Inr None"
  unfolding put_def put_handler_recover
  by (rule for_range_try_fails[OF put_body_fails]) (simp_all add: recover_fields)

lemma get_fails:
  "persistent_failure 1 s \<Longrightarrow> fst (get bucket filename t s) = Inr None"
  unfolding get_def
  by (rule for_range_try_fails[OF get_body_fails])
     (simp_all add: recover_fields get_handler_recover)

lemma get_presigned_url_fails:
  "persistent_failure 10 s \<Longrightarrow> fst (get_presigned_url bucket fnm expires t s) = Inr None"
  unfolding get_presigned_url_def
  by (rule for_range_try_fails[OF get_presigned_url_body_fails])
     (simp_all add: recover_fields get_presigned_url_handler_recover)

subsection \<open>Outcomes of the calls on the connection\<close>

lemma induce_run:
  "induce c s = ((case next_fault s of Some e \<Rightarrow> Inl e | None \<Rightarrow> Inr ()), called c s)"
  by (cases "faults s"; cases "hd (faults s)")
     (simp_all add: induce_def emit_def called_def next_fault_def)

lemma invoke_run:
  "invoke c s =
     (case conn s of
        None \<Rightarrow> (Inl (OtherException ''AttributeError''), s)
      | Some h \<Rightarrow> ((case next_fault s of Some e \<Rightarrow> Inl e | None \<Rightarrow> Inr ()), called c s))"
  by (simp add: invoke_def induce_run split: option.splits)

lemma called_fields:
  "settings (called c s) = settings s" "MINIO_HEALTH_BUCKET (called c s) = MINIO_HEALTH_BUCKET s"
  "conn (called c s) = conn s" "buckets (called c s) = buckets s"
  "ctor_faults (called c s) = ctor_faults s" "events (called c s) = events s @ [Call c]"
  "faults (called c s) = tl (faults s)"
  by (simp_all add: called_def)

lemma emit_fields:
  "settings (emit e s) = settings s" "MINIO_HEALTH_BUCKET (emit e s) = MINIO_HEALTH_BUCKET s"
  "conn (emit e s) = conn s" "buckets (emit e s) = buckets s"
  "ctor_faults (emit e s) = ctor_faults s" "events (emit e s) = events s @ [e]"
  "faults (emit e s) = faults s"
  by (simp_all add: emit_def)

lemma bindE_E:
  assumes "bindE m f s = (r, s')"
  obtains (raised) e where "m s = (Inl e, s')" "r = Inl e"
  | (continued) v s1 where "m s = (Inr v, s1)" "f v s1 = (r, s')"
  using assms by (cases "m s") (auto simp: bindE_def split: sum.splits)

lemma try_except_E:
  assumes "try_except m h s = (r, s')"
  obtains (returned) v where "m s = (Inr v, s')" "r = Inr v"
  | (handled) e s1 where "m s = (Inl e, s1)" "h e s1 = (r, s')"
  using assms by (cases "m s") (auto simp: try_except_def split: sum.splits)

lemma invoke_Inr:
  "invoke c s = (Inr u, s') \<Longrightarrow> s' = called c s \<and> conn s \<noteq> None \<and> next_fault s = None"
  by (auto simp: invoke_run split: option.splits)

lemma invoke_Inl:
  "invoke c s = (Inl e, s') \<Longrightarrow> s' = s \<and> conn s = None \<or> s' = called c s \<and> conn s \<noteq> None"
  by (auto simp: invoke_run split: option.splits)

lemma conn_bucket_exists_Inr:
  assumes "conn_bucket_exists b s = (Inr ex, s')"
  shows "s' = called (BucketExists b) s \<and> conn s \<noteq> None \<and> next_fault s = None \<and>
         ex = (map_of (buckets s) b \<noteq> None)"
  using assms unfolding conn_bucket_exists_def
  by (elim bindE_E) (auto dest!: invoke_Inr simp: called_fields)

lemma conn_bucket_exists_Inl:
  assumes "conn_bucket_exists b s = (Inl e, s')"
  shows "s' = s \<and> conn s = None \<or> s' = called (BucketExists b) s \<and> conn s \<noteq> None"
  using assms unfolding conn_bucket_exists_def
  by (elim bindE_E) (auto dest!: invoke_Inr invoke_Inl)

lemma conn_make_bucket_Inr:
  assumes "conn_make_bucket b s = (Inr u, s')"
  shows "s' = (called (MakeBucket b) s)\<lparr>buckets := AList.update b [] (buckets s)\<rparr> \<and>
         conn s \<noteq> None \<and> next_fault s = None \<and> map_of (buckets s) b = None"
  using assms unfolding conn_make_bucket_def
  by (elim bindE_E) (auto dest!: invoke_Inr simp: called_fields split: option.splits)

lemma conn_make_bucket_Inl:
  assumes "conn_make_bucket b s = (Inl e, s')"
  shows "s' = s \<and> conn s = None \<or> s' = called (MakeBucket b) s \<and> conn s \<noteq> None"
  using assms unfolding conn_make_bucket_def
  by (elim bindE_E) (auto dest!: invoke_Inr invoke_Inl split: option.splits)

lemma conn_stat_object_Inr:
  assumes "conn_stat_object b k s = (Inr st, s')"
  shows "s' = called (StatObject b k) s \<and> conn s \<noteq> None \<and> next_fault s = None \<and>
         lookup_object (buckets s) b k \<noteq> None"
  using assms unfolding conn_stat_object_def
  by (elim bindE_E)
     (auto dest!: invoke_Inr simp: called_fields lookup_object_def split: option.splits)

lemma conn_stat_object_Inl:
  assumes "conn_stat_object b k s = (Inl e, s')"
  shows "s' = s \<and> conn s = None \<or> s' = called (StatObject b k) s \<and> conn s \<noteq> None"
  using assms unfolding conn_stat_object_def
  by (elim bindE_E) (auto dest!: invoke_Inr invoke_Inl split: option.splits)

lemma conn_copy_object_Inr:
  assumes "conn_copy_object db dk sb sk s = (Inr u, s')"
  shows "conn s \<noteq> None \<and> next_fault s = None \<and>
         (\<exists>data dobjs. lookup_object (buckets s) sb sk = Some data \<and>
            map_of (buckets s) db = Some dobjs \<and>
            s' = (called (CopyObject db dk sb sk) s)
                   \<lparr>buckets := AList.update db (AList.update dk data dobjs) (buckets s)\<rparr>)"
  using assms unfolding conn_copy_object_def
  by (elim bindE_E)
     (auto dest!: invoke_Inr simp: called_fields lookup_object_def split: option.splits)

lemma conn_copy_object_Inl:
  assumes "conn_copy_object db dk sb sk s = (Inl e, s')"
  shows "s' = s \<and> conn s = None \<or> s' = called (CopyObject db dk sb sk) s \<and> conn s \<noteq> None"
  using assms unfolding conn_copy_object_def
  by (elim bindE_E) (auto dest!: invoke_Inr invoke_Inl split: option.splits)

lemma conn_remove_object_Inr:
  assumes "conn_remove_object b k s = (Inr u, s')"
  shows "conn s \<noteq> None \<and> next_fault s = None \<and>
         (\<exists>objs. map_of (buckets s) b = Some objs \<and>
            s' = (called (RemoveObject b k) s)
                   \<lparr>buckets := AList.update b (AList.delete k objs) (buckets s)\<rparr>)"
  using assms unfolding conn_remove_object_def
  by (elim bindE_E) (auto dest!: invoke_Inr simp: called_fields split: option.splits)

lemma conn_remove_object_Inl:
  assumes "conn_remove_object b k s = (Inl e, s')"
  shows "s' = s \<and> conn s = None \<or> s' = called (RemoveObject b k) s \<and> conn s \<noteq> None"
  using assms unfolding conn_remove_object_def
  by (elim bindE_E) (auto dest!: invoke_Inr invoke_Inl split: option.splits)

lemma ret_E: "ret v s = (r, s') \<Longrightarrow> r = Inr v \<and> s' = s"
  by (auto simp: ret_def)

lemma logging_exception_E: "logging_exception m s = (r, s') \<Longrightarrow> r = Inr () \<and> s' = emit (LogException m) s"
  by (auto simp: logging_exception_def)

lemma logging_error_E: "logging_error m s = (r, s') \<Longrightarrow> r = Inr () \<and> s' = emit (LogError m) s"
  by (auto simp: logging_error_def)

lemmas conn_Inr = conn_bucket_exists_Inr conn_make_bucket_Inr conn_stat_object_Inr
  conn_copy_object_Inr conn_remove_object_Inr

lemmas conn_Inl = conn_bucket_exists_Inl conn_make_bucket_Inl conn_stat_object_Inl
  conn_copy_object_Inl conn_remove_object_Inl

lemma lookup_object_update_other:
  "b' \<noteq> b \<Longrightarrow> lookup_object (AList.update b objs bs) b' k = lookup_object bs b' k"
  by (simp add: lookup_object_def update_conv')

lemma lookup_object_update_same:
  "lookup_object (AList.update b objs bs) b k = map_of objs k"
  by (simp add: lookup_object_def update_conv')

lemma lookup_object_update_empty:
  "lookup_object (AList.update b [] bs) b' k = Some d \<Longrightarrow> b' \<noteq> b \<and> lookup_object bs b' k = Some d"
  by (cases "b' = b") (simp_all add: lookup_object_def update_conv')

lemma copy_total: "\<exists>b. fst (copy sb sp db dp s) = Inr b"
proof -
  obtain r s' where run: "copy sb sp db dp s = (r, s')" by (cases "copy sb sp db dp s")
  have "\<exists>b. r = Inr b"
    using run unfolding copy_def Let_def
    by (auto elim!: try_except_E bindE_E dest!: ret_E logging_exception_E
          split: if_splits option.splits)
  with run show ?thesis by simp
qed

lemma copy_True:
  assumes "copy sb sp db dp s = (Inr True, s')"
  shows "new_events s s' = map Call (copy_calls s sb sp db dp)"
  using assms unfolding copy_def Let_def copy_calls_def
  by (auto elim!: try_except_E bindE_E dest!: ret_E logging_exception_E conn_Inr
        simp: called_fields emit_fields new_events_def split: if_splits option.splits)

lemma copy_True_store:
  assumes "copy sb sp db dp s = (Inr True, s')"
  shows "lookup_object (buckets s) (with_prefix (settings s) sb) sp \<noteq> None \<and>
         lookup_object (buckets s') (with_prefix (settings s) db) dp
           = lookup_object (buckets s) (with_prefix (settings s) sb) sp"
  using assms unfolding copy_def Let_def
  by (auto elim!: try_except_E bindE_E
        dest!: ret_E logging_exception_E conn_Inr lookup_object_update_empty
        simp: called_fields emit_fields lookup_object_update_same update_conv'
        split: if_splits option.splits)

lemma copy_False:
  assumes "copy sb sp db dp s = (Inr False, s')"
  shows "prefix (calls_of (new_events s s')) (copy_calls s sb sp db dp) \<and>
         (\<exists>m. new_events s s' = map Call (calls_of (new_events s s')) @ [LogException m])"
  using assms unfolding copy_def Let_def copy_calls_def
  by (auto elim!: try_except_E bindE_E dest!: ret_E logging_exception_E conn_Inr conn_Inl
        simp: called_fields emit_fields new_events_def split: if_splits option.splits)

lemma copy_absent:
  assumes "lookup_object (buckets s) (with_prefix (settings s) sb) sp = None"
    and "copy sb sp db dp s = (r, s')"
  shows "r = Inr False \<and>
         CopyObject (with_prefix (settings s) db) dp (with_prefix (settings s) sb) sp
           \<notin> set (calls_of (new_events s s'))"
  using assms(2,1) unfolding copy_def Let_def
  by (auto elim!: try_except_E bindE_E
        dest!: ret_E logging_exception_E conn_Inr conn_Inl lookup_object_update_empty
        simp: called_fields emit_fields new_events_def split: if_splits option.splits)

lemmas run_defs = ret_def bindE_def try_except_def logging_exception_def logging_error_def
  time_sleep_def emit_def invoke_def induce_def Let_def with_prefix_def

lemmas conn_defs = conn_bucket_exists_def conn_make_bucket_def conn_put_object_def
  conn_remove_object_def conn_get_object_def response_read_def conn_stat_object_def
  conn_get_presigned_url_def conn_list_objects_def conn_remove_bucket_def conn_copy_object_def

lemmas example_defs = st0_def cfg0_def cfg_p_def h0_def st_down_def st_docs_def

subsection \<open>Deleting and moving\<close>

lemma with_prefix_no_prefix: "no_prefix cfg \<Longrightarrow> with_prefix cfg b = b"
  by (auto simp: no_prefix_def with_prefix_def)

lemma conn_get_object_Inr:
  assumes "conn_get_object b k s = (Inr d, s')"
  shows "s' = called (GetObject b k) s \<and> conn s \<noteq> None \<and> next_fault s = None \<and>
         lookup_object (buckets s) b k = Some d"
  using assms unfolding conn_get_object_def
  by (elim bindE_E)
     (auto dest!: invoke_Inr simp: called_fields lookup_object_def split: option.splits)

lemma conn_remove_bucket_Inr:
  assumes "conn_remove_bucket b s = (Inr u, s')"
  shows "conn s \<noteq> None \<and> next_fault s = None \<and>
         s' = (called (RemoveBucket b) s)\<lparr>buckets := AList.delete b (buckets s)\<rparr>"
  using assms unfolding conn_remove_bucket_def
  by (elim bindE_E) (auto dest!: invoke_Inr simp: called_fields split: option.splits if_splits)

lemma lookup_object_removed:
  "lookup_object (AList.update b (AList.delete k objs) bs) b k = None"
  by (simp add: lookup_object_def update_conv' delete_conv')

lemma rm_total: "fst (rm bucket fnm t s) = Inr ()"
proof -
  obtain r s' where run: "rm bucket fnm t s = (r, s')" by (cases "rm bucket fnm t s")
  have "r = Inr ()"
    using run unfolding rm_def
    by (auto elim!: try_except_E dest!: logging_exception_E)
  with run show ?thesis by simp
qed

lemma rm_outcome:
  assumes "rm bucket fnm t s = (r, s')"
  shows "events s' = events s @ [Call (RemoveObject (with_prefix (settings s) bucket) fnm)] \<and>
           lookup_object (buckets s') (with_prefix (settings s) bucket) fnm = None
       \<or> (\<exists>evs. events s' = events s @ evs
                    @ [LogException (''Fail to remove '' @ bucket @ ''/'' @ fnm @ '':'')]) \<and>
           buckets s' = buckets s"
  using assms unfolding rm_def
  by (auto elim!: try_except_E dest!: logging_exception_E conn_Inr conn_Inl
        simp: called_fields emit_fields lookup_object_removed)

lemma move_eq:
  "move sb sp db dp s =
     (case copy (with_prefix (settings s) sb) sp (with_prefix (settings s) db) dp s of
        (Inr True, s1) \<Rightarrow> (Inr True, snd (rm (with_prefix (settings s) sb) sp None s1))
      | (Inr False, s1) \<Rightarrow>
          (Inr False,
           emit (LogError (''Copy failed, move aborted: '' @ with_prefix (settings s) sb
                            @ ''/'' @ sp)) s1)
      | (Inl e, s1) \<Rightarrow>
          (Inr False,
           emit (LogException (''Fail to move '' @ with_prefix (settings s) sb @ ''/'' @ sp
                   @ '' -> '' @ with_prefix (settings s) db @ ''/'' @ dp)) s1))"
proof -
  let ?c = "copy (with_prefix (settings s) sb) sp (with_prefix (settings s) db) dp s"
  obtain r s1 where c: "?c = (r, s1)" by (cases ?c)
  obtain u s2 where d: "rm (with_prefix (settings s) sb) sp None s1 = (u, s2)"
    by (cases "rm (with_prefix (settings s) sb) sp None s1")
  have u: "u = Inr ()" using rm_total[of "with_prefix (settings s) sb" sp None s1] d by simp
  show ?thesis
    using c d u
    by (cases r)
       (simp_all add: move_def Let_def try_except_def bindE_def ret_def logging_error_def
          logging_exception_def)
qed

lemma move_result:
  "fst (move sb sp db dp s)
     = fst (copy (with_prefix (settings s) sb) sp (with_prefix (settings s) db) dp s)"
proof -
  let ?c = "copy (with_prefix (settings s) sb) sp (with_prefix (settings s) db) dp s"
  obtain r s1 where c: "?c = (r, s1)" by (cases ?c)
  from copy_total[of "with_prefix (settings s) sb" sp "with_prefix (settings s) db" dp s] c
  obtain b where "r = Inr b" by auto
  with c show ?thesis by (cases b) (simp_all add: move_eq)
qed

subsection \<open>The operations without a retry loop leave the connection alone\<close>

lemma framed_if: "framed P a \<Longrightarrow> framed P b \<Longrightarrow> framed P (if c then a else b)"
  by simp

lemma framed_case_option:
  "framed P a \<Longrightarrow> (\<And>x. framed P (f x)) \<Longrightarrow> framed P (case opt of None \<Rightarrow> a | Some x \<Rightarrow> f x)"
  by (cases opt) simp_all

lemma framed_case_exn:
  "(\<And>c. framed P (f c)) \<Longrightarrow> (\<And>m. framed P (g m)) \<Longrightarrow>
   framed P (case e of S3Error c \<Rightarrow> f c | OtherException m \<Rightarrow> g m)"
  by (cases e) simp_all

lemmas framed_intros = framed_bindE framed_try_except framed_if framed_case_option
  framed_case_exn framed_ret framed_logging_exception framed_logging_error
  framed_conn_bucket_exists framed_conn_make_bucket framed_conn_put_object
  framed_conn_remove_object framed_conn_get_object framed_response_read
  framed_conn_stat_object framed_conn_get_presigned_url framed_conn_list_objects
  framed_conn_remove_bucket framed_conn_copy_object

lemma frame_health:
  "frame (on_call (only_bucket (with_prefix (settings s)
            (case MINIO_HEALTH_BUCKET s of None \<Rightarrow> [] | Some b \<Rightarrow> b)))) s (snd (health s))"
  unfolding health_def Let_def
  by (intro framedD framed_intros) (simp_all add: only_bucket_def)

lemma frame_rm:
  "frame (call_or_log (only_bucket (with_prefix (settings s) bucket))) s
     (snd (rm bucket fnm t s))"
proof -
  have "rm bucket fnm t s =
      try_except (conn_remove_object (with_prefix (settings s) bucket) fnm)
        (\<lambda>e. logging_exception (''Fail to remove '' @ bucket @ ''/'' @ fnm @ '':'')) s"
    by (simp add: rm_def try_except_def)
  then show ?thesis
    by (simp only:) (intro framedD framed_intros, simp_all add: only_bucket_def)
qed

lemma frame_obj_exist:
  "frame (call_or_log (only_bucket (with_prefix (settings s) bucket))) s
     (snd (obj_exist bucket filename t s))"
  unfolding obj_exist_def Let_def
  by (intro framedD framed_intros) (simp_all add: only_bucket_def)

lemma frame_bucket_exists:
  "frame (call_or_log (only_bucket (with_prefix (settings s) bucket))) s
     (snd (bucket_exists bucket s))"
  unfolding bucket_exists_def Let_def
  by (intro framedD framed_intros) (simp_all add: only_bucket_def)

lemma framed_remove_each:
  "(\<And>k. P (Call (RemoveObject pbucket k))) \<Longrightarrow> framed P (remove_each pbucket names)"
  by (induction names) (auto intro!: framed_intros)

lemma frame_remove_bucket:
  "frame (call_or_log (only_bucket (with_prefix (settings s) bucket))) s
     (snd (remove_bucket bucket s))"
  unfolding remove_bucket_def Let_def
  by (intro framedD framed_intros framed_remove_each) (simp_all add: only_bucket_def)

lemma frame_copy:
  "frame (call_or_log (\<lambda>c. set (call_buckets c)
             \<subseteq> {with_prefix (settings s) src_bucket, with_prefix (settings s) dest_bucket})) s
     (snd (copy src_bucket src_path dest_bucket dest_path s))"
  unfolding copy_def Let_def
  by (intro framedD framed_intros) simp_all

lemma call_or_log_True: "call_or_log Q e \<Longrightarrow> call_or_log (\<lambda>c. True) e"
  by (cases e) simp_all

lemma framed_rm: "framed (call_or_log (\<lambda>c. True)) (rm bucket fnm t)"
  unfolding framed_def
  by (intro allI frame_mono[OF frame_rm] call_or_log_True)

lemma framed_copy: "framed (call_or_log (\<lambda>c. True)) (copy a b c d)"
  unfolding framed_def
  by (intro allI frame_mono[OF frame_copy] call_or_log_True)

lemma frame_move:
  "frame (call_or_log (\<lambda>c. True)) s (snd (move a b c d s))"
  unfolding move_def Let_def
  by (intro framedD framed_intros framed_rm framed_copy) simp_all

lemma copy_True_conn:
  assumes "copy sb sp db dp s = (Inr True, s')"
  shows "conn s \<noteq> None"
  using assms unfolding copy_def Let_def
  by (auto elim!: try_except_E bindE_E dest!: ret_E logging_exception_E conn_Inr
        split: if_splits option.splits)

lemma rm_calls:
  assumes "conn s \<noteq> None"
  shows "\<exists>evs. events (snd (rm bucket fnm t s))
           = events s @ Call (RemoveObject (with_prefix (settings s) bucket) fnm) # evs"
proof -
  obtain r s' where run: "rm bucket fnm t s = (r, s')" by (cases "rm bucket fnm t s")
  have "\<exists>evs. events s'
           = events s @ Call (RemoveObject (with_prefix (settings s) bucket) fnm) # evs"
    using run assms unfolding rm_def
    by (auto elim!: try_except_E dest!: logging_exception_E conn_Inr conn_Inl
          simp: called_fields emit_fields)
  with run show ?thesis by simp
qed

lemma frame_events: "frame P s s' \<Longrightarrow> \<exists>evs. events s' = events s @ evs"
  by (auto simp: frame_def)

lemma frame_settings: "frame P s s' \<Longrightarrow> settings s' = settings s"
  by (simp add: frame_def)

lemma frame_conn: "frame P s s' \<Longrightarrow> conn s' = conn s"
  by (simp add: frame_def)

lemma calls_of_append: "calls_of (xs @ ys) = calls_of xs @ calls_of ys"
  by (induction xs rule: calls_of.induct) simp_all

lemma calls_of_map_Call: "calls_of (map Call cs) = cs"
  by (induction cs) simp_all

lemma no_remove_in_copy_calls: "RemoveObject b k \<notin> set (copy_calls s sb sp db dp)"
  by (simp add: copy_calls_def Let_def)

lemma move_aborted:
  assumes "fst (copy (with_prefix (settings s) sb) sp (with_prefix (settings s) db) dp s)
             = Inr False"
  shows "fst (move sb sp db dp s) = Inr False \<and>
         RemoveObject b k \<notin> set (calls_of (new_events s (snd (move sb sp db dp s))))"
proof -
  let ?ps = "with_prefix (settings s) sb" and ?pd = "with_prefix (settings s) db"
  obtain s1 where c: "copy ?ps sp ?pd dp s = (Inr False, s1)"
    using assms by (cases "copy ?ps sp ?pd dp s") simp
  from frame_events[OF frame_copy[where s = s and src_bucket = ?ps and src_path = sp
        and dest_bucket = ?pd and dest_path = dp]] c
  obtain evs where evs: "events s1 = events s @ evs" by auto
  then have ne: "new_events s s1 = evs" by (simp add: new_events_def)
  have "prefix (calls_of evs) (copy_calls s ?ps sp ?pd dp)"
    using copy_False[OF c] ne by simp
  then have "set (calls_of evs) \<subseteq> set (copy_calls s ?ps sp ?pd dp)"
    by (rule set_mono_prefix)
  then have "RemoveObject b k \<notin> set (calls_of evs)"
    using no_remove_in_copy_calls by blast
  then show ?thesis
    using c evs by (simp add: move_eq new_events_def emit_fields calls_of_append)
qed

lemma move_deletes:
  assumes "fst (copy (with_prefix (settings s) sb) sp (with_prefix (settings s) db) dp s)
             = Inr True"
  shows "fst (move sb sp db dp s) = Inr True \<and>
         snd (move sb sp db dp s)
           = snd (rm (with_prefix (settings s) sb) sp None
                    (snd (copy (with_prefix (settings s) sb) sp
                            (with_prefix (settings s) db) dp s))) \<and>
         RemoveObject (with_prefix (settings s) (with_prefix (settings s) sb)) sp
           \<in> set (calls_of (new_events s (snd (move sb sp db dp s))))"
proof -
  let ?ps = "with_prefix (settings s) sb" and ?pd = "with_prefix (settings s) db"
  obtain s1 where c: "copy ?ps sp ?pd dp s = (Inr True, s1)"
    using assms by (cases "copy ?ps sp ?pd dp s") simp
  have fr: "frame (call_or_log (\<lambda>c. True)) s s1"
    using framedD[OF framed_copy[of ?ps sp ?pd dp], of s] c by simp
  from frame_events[OF fr] obtain evs where evs: "events s1 = events s @ evs" by auto
  have "conn s1 \<noteq> None" using copy_True_conn[OF c] frame_conn[OF fr] by simp
  from rm_calls[OF this, where bucket = ?ps and fnm = sp and t = None] frame_settings[OF fr]
  obtain evs' where "events (snd (rm ?ps sp None s1))
      = events s1 @ Call (RemoveObject (with_prefix (settings s) ?ps) sp) # evs'"
    by auto
  then show ?thesis
    using c evs by (simp add: move_eq new_events_def calls_of_append)
qed

lemma move_removed:
  assumes np: "no_prefix (settings s)"
    and ok: "fst (move sb sp db dp s) = Inr True"
    and quiet: "LogException (''Fail to remove '' @ sb @ ''/'' @ sp @ '':'')
                  \<notin> set (new_events s (snd (move sb sp db dp s)))"
  shows "lookup_object (buckets (snd (move sb sp db dp s))) sb sp = None"
proof -
  have wp: "\<And>b. with_prefix (settings s) b = b" using np by (rule with_prefix_no_prefix)
  obtain r s1 where c: "copy sb sp db dp s = (r, s1)" by (cases "copy sb sp db dp s")
  have r: "r = Inr True" using ok c move_result[of sb sp db dp s] by (simp add: wp)
  have fr: "frame (call_or_log (\<lambda>c. True)) s s1"
    using framedD[OF framed_copy[of sb sp db dp], of s] c by simp
  from frame_events[OF fr] obtain evs where evs: "events s1 = events s @ evs" by auto
  have s1: "settings s1 = settings s" by (rule frame_settings[OF fr])
  obtain u s2 where d: "rm sb sp None s1 = (u, s2)" by (cases "rm sb sp None s1")
  have mv: "snd (move sb sp db dp s) = s2" using c r d by (simp add: move_eq wp)
  from rm_outcome[OF d] show ?thesis
  proof
    assume "events s2 = events s1 @ [Call (RemoveObject (with_prefix (settings s1) sb) sp)] \<and>
            lookup_object (buckets s2) (with_prefix (settings s1) sb) sp = None"
    then show ?thesis using mv s1 by (simp add: wp)
  next
    assume "(\<exists>evs. events s2 = events s1 @ evs
                @ [LogException (''Fail to remove '' @ sb @ ''/'' @ sp @ '':'')]) \<and>
            buckets s2 = buckets s1"
    then obtain evs' where "events s2 = events s1 @ evs'
                @ [LogException (''Fail to remove '' @ sb @ ''/'' @ sp @ '':'')]" by blast
    then have "LogException (''Fail to remove '' @ sb @ ''/'' @ sp @ '':'')
                 \<in> set (new_events s s2)"
      using evs by (simp add: new_events_def)
    with quiet mv show ?thesis by simp
  qed
qed

lemma get_absent:
  assumes "lookup_object (buckets s) (with_prefix (settings s) bucket) filename = None"
  shows "fst (get bucket filename t s) = Inr None"
proof -
  obtain r s1 where b: "get_body bucket filename s = (r, s1)"
    by (cases "get_body bucket filename s")
  have "\<exists>e. r = Inl e"
    using b assms unfolding get_body_def Let_def response_read_def
    by (cases r) (auto elim!: bindE_E dest!: conn_get_object_Inr)
  then obtain e where r: "r = Inl e" by blast
  obtain u s2 where h: "get_handler bucket filename s1 = (u, s2)"
    by (cases "get_handler bucket filename s1")
  have "fst (get_handler bucket filename s1) = Inr ()"
    by (simp add: get_handler_recover recover_fields)
  then have "u = Inr ()" using h by simp
  then show ?thesis using b r h by (simp add: get_def)
qed

lemma obj_exist_absent:
  assumes "lookup_object (buckets s) (with_prefix (settings s) bucket) filename = None"
  shows "fst (obj_exist bucket filename t s) \<noteq> Inr (Some True)"
proof -
  obtain r s' where run: "obj_exist bucket filename t s = (r, s')"
    by (cases "obj_exist bucket filename t s")
  have "r \<noteq> Inr (Some True)"
    using run assms unfolding obj_exist_def Let_def
    by (auto elim!: try_except_E bindE_E dest!: ret_E logging_exception_E conn_Inr
          simp: called_fields split: if_splits exn.splits)
  with run show ?thesis by simp
qed

lemma obj_exist_absent_quiet:
  assumes "lookup_object (buckets s) (with_prefix (settings s) bucket) filename = None"
    and "conn s \<noteq> None" and "no_faults s"
  shows "fst (obj_exist bucket filename t s) = Inr (Some False)"
proof -
  have nf: "next_fault s = None" "next_fault (called c s) = None" for c
    using assms(3)
    by (cases "faults s"; auto simp: no_faults_def next_fault_def called_def
          split: list.splits option.splits)+
  show ?thesis
    using assms(1,2) nf
    by (auto simp: obj_exist_def Let_def try_except_def bindE_def ret_def invoke_run
          conn_bucket_exists_def conn_stat_object_def called_fields lookup_object_def
          not_found_codes_def split: option.splits)
qed

subsection \<open>What a move guarantees\<close>

text \<open>
  Claim C2, amended. \<open>move\<close> runs its \<open>copy\<close>. When the copy returns \<open>False\<close>, \<open>move\<close>
  returns \<open>False\<close> and makes no remove\_object call. When the copy returns \<open>True\<close>, \<open>move\<close>
  then runs its \<open>rm\<close>, which calls remove\_object, and returns \<open>True\<close>. When the bucket prefix
  is empty, \<open>move\<close> returned \<open>True\<close> and its \<open>rm\<close> logged no failure, the source object is
  gone: \<open>get\<close> on it returns no result and \<open>obj_exist\<close> does not return \<open>True\<close> (it returns
  \<open>False\<close> when no further call fails).
\<close>

theorem move_contract:
  "(fst (copy (with_prefix (settings s) sb) sp (with_prefix (settings s) db) dp s) = Inr False
      \<longrightarrow> fst (move sb sp db dp s) = Inr False \<and>
          RemoveObject b k \<notin> set (calls_of (new_events s (snd (move sb sp db dp s))))) \<and>
   (fst (copy (with_prefix (settings s) sb) sp (with_prefix (settings s) db) dp s) = Inr True
      \<longrightarrow> fst (move sb sp db dp s) = Inr True \<and>
          snd (move sb sp db dp s)
            = snd (rm (with_prefix (settings s) sb) sp None
                     (snd (copy (with_prefix (settings s) sb) sp
                             (with_prefix (settings s) db) dp s))) \<and>
          (\<exists>b'. RemoveObject b' sp
             \<in> set (calls_of (new_events s (snd (move sb sp db dp s)))))) \<and>
   (no_prefix (settings s) \<and> fst (move sb sp db dp s) = Inr True \<and>
    LogException (''Fail to remove '' @ sb @ ''/'' @ sp @ '':'')
      \<notin> set (new_events s (snd (move sb sp db dp s)))
      \<longrightarrow> fst (get sb sp t (snd (move sb sp db dp s))) = Inr None \<and>
          fst (obj_exist sb sp t (snd (move sb sp db dp s))) \<noteq> Inr (Some True) \<and>
          (no_faults (snd (move sb sp db dp s))
             \<longrightarrow> fst (obj_exist sb sp t (snd (move sb sp db dp s))) = Inr (Some False)))"
proof (intro conjI impI)
  assume a: "no_prefix (settings s) \<and> fst (move sb sp db dp s) = Inr True \<and>
    LogException (''Fail to remove '' @ sb @ ''/'' @ sp @ '':'')
      \<notin> set (new_events s (snd (move sb sp db dp s)))"
  let ?s' = "snd (move sb sp db dp s)"
  have fr: "frame (call_or_log (\<lambda>c. True)) s ?s'" by (rule frame_move)
  have np: "no_prefix (settings ?s')" using a frame_settings[OF fr] by simp
  have gone: "lookup_object (buckets ?s') (with_prefix (settings ?s') sb) sp = None"
    using move_removed[of s sb sp db dp] a with_prefix_no_prefix[OF np] by simp
  show "fst (get sb sp t ?s') = Inr None" by (rule get_absent[OF gone])
  show "fst (obj_exist sb sp t ?s') \<noteq> Inr (Some True)" by (rule obj_exist_absent[OF gone])
  have "conn s \<noteq> None"
    using a move_result[of sb sp db dp s]
      copy_True_conn[of "with_prefix (settings s) sb" sp "with_prefix (settings s) db" dp s]
    by (metis prod.collapse)
  then have c: "conn ?s' \<noteq> None" using frame_conn[OF fr] by simp
  show "fst (obj_exist sb sp t ?s') = Inr (Some False)" if "no_faults ?s'"
    by (rule obj_exist_absent_quiet[OF gone c that])
qed (use move_aborted move_deletes in blast)+

lemmas op_defs = put_def put_body_def put_handler_def rm_def get_def get_body_def
  get_handler_def obj_exist_def bucket_exists_def get_presigned_url_def
  get_presigned_url_body_def get_presigned_url_handler_def remove_bucket_def copy_def
  move_def health_def dunder_open_def dunder_close_def Minio_def not_found_codes_def truthy_def

lemmas example_defs2 = example_defs st_rm_fails_def

theorem move_contract_witness:
  "fst (copy ''docs'' ''missing'' ''archive'' ''b.pdf'' st_docs) = Inr False \<and>
   fst (move ''docs'' ''missing'' ''archive'' ''b.pdf'' st_docs) = Inr False \<and>
   RemoveObject ''docs'' ''missing''
     \<notin> set (calls_of (new_events st_docs
                        (snd (move ''docs'' ''missing'' ''archive'' ''b.pdf'' st_docs)))) \<and>
   fst (copy ''docs'' ''a.pdf'' ''archive'' ''b.pdf'' st_docs) = Inr True \<and>
   no_prefix (settings st_docs) \<and>
   fst (move ''docs'' ''a.pdf'' ''archive'' ''b.pdf'' st_docs) = Inr True \<and>
   LogException (''Fail to remove '' @ ''docs'' @ ''/'' @ ''a.pdf'' @ '':'')
     \<notin> set (new_events st_docs (snd (move ''docs'' ''a.pdf'' ''archive'' ''b.pdf'' st_docs))) \<and>
   no_faults (snd (move ''docs'' ''a.pdf'' ''archive'' ''b.pdf'' st_docs)) \<and>
   fst (get ''docs'' ''a.pdf'' None (snd (move ''docs'' ''a.pdf'' ''archive'' ''b.pdf'' st_docs)))
     = Inr None \<and>
   fst (obj_exist ''docs'' ''a.pdf'' None
          (snd (move ''docs'' ''a.pdf'' ''archive'' ''b.pdf'' st_docs))) = Inr (Some False)"
proof -
  have pre: "with_prefix (settings st_docs) ''docs'' = ''docs''"
    "with_prefix (settings st_docs) ''archive'' = ''archive''"
    by (simp_all add: with_prefix_def example_defs)
  have h1: "fst (copy ''docs'' ''missing'' ''archive'' ''b.pdf'' st_docs) = Inr False"
    by (simp add: op_defs run_defs conn_defs example_defs)
  have h2: "fst (copy ''docs'' ''a.pdf'' ''archive'' ''b.pdf'' st_docs) = Inr True"
    by (simp add: op_defs run_defs conn_defs example_defs)
  have h3: "no_prefix (settings st_docs)"
    by (simp add: no_prefix_def example_defs)
  have h4: "LogException (''Fail to remove '' @ ''docs'' @ ''/'' @ ''a.pdf'' @ '':'')
     \<notin> set (new_events st_docs (snd (move ''docs'' ''a.pdf'' ''archive'' ''b.pdf'' st_docs)))"
    by (simp add: op_defs run_defs conn_defs example_defs new_events_def)
  have h5: "no_faults (snd (move ''docs'' ''a.pdf'' ''archive'' ''b.pdf'' st_docs))"
    by (simp add: op_defs run_defs conn_defs example_defs no_faults_def)
  note A = move_contract[of st_docs "''docs''" "''missing''" "''archive''" "''b.pdf''"
        "''docs''" "''missing''" None, unfolded pre]
  note B = move_contract[of st_docs "''docs''" "''a.pdf''" "''archive''" "''b.pdf''"
        "''docs''" "''a.pdf''" None, unfolded pre]
  have c1: "fst (move ''docs'' ''missing'' ''archive'' ''b.pdf'' st_docs) = Inr False \<and>
     RemoveObject ''docs'' ''missing''
       \<notin> set (calls_of (new_events st_docs
                        (snd (move ''docs'' ''missing'' ''archive'' ''b.pdf'' st_docs))))"
    using A h1 by blast
  have c2: "fst (move ''docs'' ''a.pdf'' ''archive'' ''b.pdf'' st_docs) = Inr True"
    using B h2 by blast
  have c3: "fst (get ''docs'' ''a.pdf'' None
                  (snd (move ''docs'' ''a.pdf'' ''archive'' ''b.pdf'' st_docs))) = Inr None \<and>
     fst (obj_exist ''docs'' ''a.pdf'' None
            (snd (move ''docs'' ''a.pdf'' ''archive'' ''b.pdf'' st_docs))) = Inr (Some False)"
    using B h3 c2 h4 h5 by blast
  show ?thesis
    using h1 h2 h3 h4 h5 c1 c2 c3 by blast
qed

theorem move_keeps_source_after_failed_delete:
  "fst (move ''docs'' ''a.pdf'' ''archive'' ''b.pdf'' st_rm_fails) = Inr True \<and>
   fst (obj_exist ''docs'' ''a.pdf'' None
          (snd (move ''docs'' ''a.pdf'' ''archive'' ''b.pdf'' st_rm_fails))) = Inr (Some True) \<and>
   fst (get ''docs'' ''a.pdf'' None
          (snd (move ''docs'' ''a.pdf'' ''archive'' ''b.pdf'' st_rm_fails))) = Inr (Some [1, 2])"
  by (simp add: op_defs run_defs conn_defs example_defs2)

subsection \<open>The value move returns\<close>

text \<open>
  Claim C10. \<open>move\<close> returns what its internal \<open>copy\<close> returned, whatever its \<open>rm\<close> does.
  In the example the copy succeeds and the remove\_object call raises: \<open>move\<close> returns
  \<open>True\<close>, the failure is logged, and the source object is still in the store.
\<close>

theorem move_returns_copy_result:
  "fst (move sb sp db dp s)
     = fst (copy (with_prefix (settings s) sb) sp (with_prefix (settings s) db) dp s) \<and>
   fst (move ''docs'' ''a.pdf'' ''archive'' ''b.pdf'' st_rm_fails) = Inr True \<and>
   LogException ''Fail to remove docs/a.pdf:''
     \<in> set (events (snd (move ''docs'' ''a.pdf'' ''archive'' ''b.pdf'' st_rm_fails))) \<and>
   lookup_object (buckets (snd (move ''docs'' ''a.pdf'' ''archive'' ''b.pdf'' st_rm_fails)))
     ''docs'' ''a.pdf'' = Some [1, 2]"
proof -
  have "fst (move ''docs'' ''a.pdf'' ''archive'' ''b.pdf'' st_rm_fails) = Inr True \<and>
   LogException ''Fail to remove docs/a.pdf:''
     \<in> set (events (snd (move ''docs'' ''a.pdf'' ''archive'' ''b.pdf'' st_rm_fails))) \<and>
   lookup_object (buckets (snd (move ''docs'' ''a.pdf'' ''archive'' ''b.pdf'' st_rm_fails)))
     ''docs'' ''a.pdf'' = Some [1, 2]"
    by (simp add: op_defs run_defs conn_defs example_defs2 lookup_object_def)
  then show ?thesis using move_result[of sb sp db dp s] by simp
qed

theorem move_returns_copy_result_witness:
  "fst (move ''docs'' ''missing'' ''archive'' ''b.pdf'' st_docs) = Inr False \<and>
   fst (move ''docs'' ''a.pdf'' ''archive'' ''b.pdf'' st_docs) = Inr True"
proof -
  have pre: "with_prefix (settings st_docs) ''docs'' = ''docs''"
    "with_prefix (settings st_docs) ''archive'' = ''archive''"
    by (simp_all add: with_prefix_def example_defs)
  have h1: "fst (copy ''docs'' ''missing'' ''archive'' ''b.pdf'' st_docs) = Inr False"
    by (simp add: op_defs run_defs conn_defs example_defs)
  have h2: "fst (copy ''docs'' ''a.pdf'' ''archive'' ''b.pdf'' st_docs) = Inr True"
    by (simp add: op_defs run_defs conn_defs example_defs)
  show ?thesis
    using h1 h2
      move_returns_copy_result[of "''docs''" "''missing''" "''archive''" "''b.pdf''" st_docs]
      move_returns_copy_result[of "''docs''" "''a.pdf''" "''archive''" "''b.pdf''" st_docs]
    unfolding pre by simp
qed

subsection \<open>Storing and reading back\<close>

lemma no_faults_next: "no_faults s \<Longrightarrow> next_fault s = None"
  by (cases "faults s") (auto simp: no_faults_def next_fault_def split: option.splits)

lemma no_faults_called: "no_faults s \<Longrightarrow> no_faults (called c s)"
  by (cases "faults s") (auto simp: no_faults_def called_def)

lemma no_faults_buckets: "no_faults (s\<lparr>buckets := bs\<rparr>) = no_faults s"
  by (simp add: no_faults_def)

lemma lookup_object_stored:
  "lookup_object (AList.update b (AList.update k d objs) bs) b k = Some d"
  by (simp add: lookup_object_def update_conv')

lemma put_body_ok:
  assumes "conn s \<noteq> None" and "no_faults s"
  shows "fst (put_body bucket fnm binary s)
           = Inr (ObjectWriteResult (with_prefix (settings s) bucket) fnm) \<and>
         conn (snd (put_body bucket fnm binary s)) \<noteq> None \<and>
         no_faults (snd (put_body bucket fnm binary s)) \<and>
         settings (snd (put_body bucket fnm binary s)) = settings s \<and>
         lookup_object (buckets (snd (put_body bucket fnm binary s)))
           (with_prefix (settings s) bucket) fnm = Some binary"
proof (cases "map_of (buckets s) (with_prefix (settings s) bucket)")
  case None
  then show ?thesis
    using assms
    by (auto simp: put_body_def Let_def bindE_def ret_def invoke_run conn_bucket_exists_def
          conn_make_bucket_def conn_put_object_def called_fields no_faults_next
          no_faults_called no_faults_buckets update_conv' lookup_object_stored
          lookup_object_update_same)
next
  case (Some objs)
  then show ?thesis
    using assms
    by (auto simp: put_body_def Let_def bindE_def ret_def invoke_run conn_bucket_exists_def
          conn_make_bucket_def conn_put_object_def called_fields no_faults_next
          no_faults_called no_faults_buckets update_conv' lookup_object_stored
          lookup_object_update_same)
qed

lemma get_body_ok:
  assumes "conn s \<noteq> None" and "no_faults s"
    and "lookup_object (buckets s) (with_prefix (settings s) bucket) filename = Some d"
  shows "fst (get_body bucket filename s) = Inr d"
  using assms
  by (auto simp: get_body_def Let_def bindE_def ret_def invoke_run induce_run
        conn_get_object_def response_read_def called_fields no_faults_next no_faults_called
        lookup_object_def split: option.splits)

text \<open>
  Claim C6. When the connection is present and the schedule induces no failure,
  \<open>put\<close> followed by \<open>get\<close> on the same bucket and key returns the bytes that were put.
\<close>

theorem put_get_roundtrip:
  assumes "conn s \<noteq> None" and "no_faults s"
  shows "fst (get bucket fnm t2 (snd (put bucket fnm binary t1 s))) = Inr (Some binary)"
proof -
  obtain r s1 where b: "put_body bucket fnm binary s = (r, s1)"
    by (cases "put_body bucket fnm binary s")
  from put_body_ok[OF assms, of bucket fnm binary] b
  have s1: "r = Inr (ObjectWriteResult (with_prefix (settings s) bucket) fnm)"
    "conn s1 \<noteq> None" "no_faults s1" "settings s1 = settings s"
    "lookup_object (buckets s1) (with_prefix (settings s) bucket) fnm = Some binary"
    by simp_all
  have p: "snd (put bucket fnm binary t1 s) = s1"
    using b s1(1) by (simp add: put_def numeral_3_eq_3)
  have "fst (get_body bucket fnm s1) = Inr binary"
    using get_body_ok[OF s1(2,3), of bucket fnm binary] s1(4,5) by simp
  then have "fst (get bucket fnm t2 s1) = Inr (Some binary)"
    by (cases "get_body bucket fnm s1") (simp add: get_def)
  with p show ?thesis by simp
qed

theorem put_get_roundtrip_witness:
  "conn st0 \<noteq> None \<and> no_faults st0 \<and>
   fst (get ''docs'' ''a.pdf'' None (snd (put ''docs'' ''a.pdf'' [1, 2, 3] None st0)))
     = Inr (Some [1, 2, 3])"
proof -
  have h: "conn st0 \<noteq> None" "no_faults st0"
    by (simp_all add: st0_def no_faults_def)
  show ?thesis using h put_get_roundtrip[OF h] by simp
qed

subsection \<open>What a copy guarantees\<close>

lemma quiet_take_Suc:
  "list_all (\<lambda>f. f = None) (take (Suc n) fs)
     \<longleftrightarrow> (case fs of Some e # r \<Rightarrow> False | _ \<Rightarrow> True) \<and>
         list_all (\<lambda>f. f = None) (take n (tl fs))"
  by (cases fs) (auto split: option.splits)

lemma copy_True_quiet:
  assumes "copy sb sp db dp s = (Inr True, s')"
  shows "list_all (\<lambda>f. f = None) (take (length (copy_calls s sb sp db dp)) (faults s))"
  using assms unfolding copy_def Let_def copy_calls_def
  by (auto elim!: try_except_E bindE_E dest!: ret_E logging_exception_E conn_Inr
        simp: called_def emit_fields quiet_take_Suc next_fault_def
        split: if_splits option.splits list.splits)

lemma copy_ok:
  assumes "conn s \<noteq> None" and "no_faults s"
    and "lookup_object (buckets s) (with_prefix (settings s) sb) sp \<noteq> None"
  shows "fst (copy sb sp db dp s) = Inr True"
proof (cases "map_of (buckets s) (with_prefix (settings s) db)")
  case None
  then have "with_prefix (settings s) sb \<noteq> with_prefix (settings s) db"
    using assms(3) by (auto simp: lookup_object_def)
  then show ?thesis
    using None assms
    by (auto simp: copy_def Let_def try_except_def bindE_def ret_def invoke_run
          conn_bucket_exists_def conn_make_bucket_def conn_stat_object_def
          conn_copy_object_def called_fields no_faults_next no_faults_called
          no_faults_buckets update_conv' lookup_object_def split: option.splits)
next
  case (Some dobjs)
  then show ?thesis
    using assms
    by (auto simp: copy_def Let_def try_except_def bindE_def ret_def invoke_run
          conn_bucket_exists_def conn_make_bucket_def conn_stat_object_def
          conn_copy_object_def called_fields no_faults_next no_faults_called
          no_faults_buckets update_conv' lookup_object_def split: option.splits)
qed

text \<open>
  Claim C7. \<open>copy\<close> returns \<open>True\<close> or \<open>False\<close>, never raises. When it returns \<open>True\<close> its
  events are exactly the calls: bucket\_exists on the destination bucket, make\_bucket when
  that bucket was absent, stat\_object on the source, copy\_object; none of them was made
  to fail; and the destination then holds the source's bytes. When it returns \<open>False\<close> its
  events are a prefix of those calls followed by one log record. When the source object
  is absent it returns \<open>False\<close> and never calls copy\_object. When the connection is present,
  no call fails and the source object is there, it returns \<open>True\<close>.
\<close>

theorem copy_contract:
  "(fst (copy sb sp db dp s) = Inr True \<or> fst (copy sb sp db dp s) = Inr False) \<and>
   (fst (copy sb sp db dp s) = Inr True \<longrightarrow>
      new_events s (snd (copy sb sp db dp s)) = map Call (copy_calls s sb sp db dp) \<and>
      conn s \<noteq> None \<and>
      list_all (\<lambda>f. f = None) (take (length (copy_calls s sb sp db dp)) (faults s)) \<and>
      lookup_object (buckets s) (with_prefix (settings s) sb) sp \<noteq> None \<and>
      lookup_object (buckets (snd (copy sb sp db dp s))) (with_prefix (settings s) db) dp
        = lookup_object (buckets s) (with_prefix (settings s) sb) sp) \<and>
   (fst (copy sb sp db dp s) = Inr False \<longrightarrow>
      prefix (calls_of (new_events s (snd (copy sb sp db dp s)))) (copy_calls s sb sp db dp) \<and>
      (\<exists>m. new_events s (snd (copy sb sp db dp s))
             = map Call (calls_of (new_events s (snd (copy sb sp db dp s))))
               @ [LogException m])) \<and>
   (lookup_object (buckets s) (with_prefix (settings s) sb) sp = None \<longrightarrow>
      fst (copy sb sp db dp s) = Inr False \<and>
      CopyObject (with_prefix (settings s) db) dp (with_prefix (settings s) sb) sp
        \<notin> set (calls_of (new_events s (snd (copy sb sp db dp s))))) \<and>
   (conn s \<noteq> None \<and> no_faults s \<and>
    lookup_object (buckets s) (with_prefix (settings s) sb) sp \<noteq> None \<longrightarrow>
      fst (copy sb sp db dp s) = Inr True)"
proof -
  obtain r s' where run: "copy sb sp db dp s = (r, s')" by (cases "copy sb sp db dp s")
  have fs: "fst (copy sb sp db dp s) = r" "snd (copy sb sp db dp s) = s'"
    using run by simp_all
  from copy_total[of sb sp db dp s] run have 1: "r = Inr True \<or> r = Inr False" by auto
  have 2: "conn s \<noteq> None \<and> no_faults s \<and>
    lookup_object (buckets s) (with_prefix (settings s) sb) sp \<noteq> None \<longrightarrow> r = Inr True"
    using copy_ok[of s sb sp db dp] fs by blast
  have 3: "r = Inr True \<longrightarrow>
      new_events s s' = map Call (copy_calls s sb sp db dp) \<and>
      conn s \<noteq> None \<and>
      list_all (\<lambda>f. f = None) (take (length (copy_calls s sb sp db dp)) (faults s)) \<and>
      lookup_object (buckets s) (with_prefix (settings s) sb) sp \<noteq> None \<and>
      lookup_object (buckets s') (with_prefix (settings s) db) dp
        = lookup_object (buckets s) (with_prefix (settings s) sb) sp"
    using copy_True_conn[of sb sp db dp s s'] copy_True_quiet[of sb sp db dp s s']
      copy_True[of sb sp db dp s s'] copy_True_store[of sb sp db dp s s'] run
    by blast
  have 4: "r = Inr False \<longrightarrow>
      prefix (calls_of (new_events s s')) (copy_calls s sb sp db dp) \<and>
      (\<exists>m. new_events s s' = map Call (calls_of (new_events s s')) @ [LogException m])"
    using copy_False[of sb sp db dp s s'] run by blast
  have 5: "lookup_object (buckets s) (with_prefix (settings s) sb) sp = None \<longrightarrow>
      r = Inr False \<and>
      CopyObject (with_prefix (settings s) db) dp (with_prefix (settings s) sb) sp
        \<notin> set (calls_of (new_events s s'))"
    using copy_absent[of s sb sp db dp r s'] run by blast
  show ?thesis
    unfolding fs using 1 2 3 4 5 by blast
qed

theorem copy_contract_witness:
  "conn st_docs \<noteq> None \<and> no_faults st_docs \<and>
   lookup_object (buckets st_docs) ''docs'' ''a.pdf'' \<noteq> None \<and>
   fst (copy ''docs'' ''a.pdf'' ''archive'' ''b.pdf'' st_docs) = Inr True \<and>
   new_events st_docs (snd (copy ''docs'' ''a.pdf'' ''archive'' ''b.pdf'' st_docs))
     = [Call (BucketExists ''archive''), Call (MakeBucket ''archive''),
        Call (StatObject ''docs'' ''a.pdf''),
        Call (CopyObject ''archive'' ''b.pdf'' ''docs'' ''a.pdf'')] \<and>
   lookup_object (buckets (snd (copy ''docs'' ''a.pdf'' ''archive'' ''b.pdf'' st_docs)))
     ''archive'' ''b.pdf'' = Some [1, 2] \<and>
   lookup_object (buckets st_docs) ''docs'' ''missing'' = None \<and>
   fst (copy ''docs'' ''missing'' ''archive'' ''b.pdf'' st_docs) = Inr False \<and>
   CopyObject ''archive'' ''b.pdf'' ''docs'' ''missing''
     \<notin> set (calls_of (new_events st_docs
                        (snd (copy ''docs'' ''missing'' ''archive'' ''b.pdf'' st_docs)))) \<and>
   (\<exists>m. new_events st_docs (snd (copy ''docs'' ''missing'' ''archive'' ''b.pdf'' st_docs))
         = map Call (calls_of (new_events st_docs
                                 (snd (copy ''docs'' ''missing'' ''archive'' ''b.pdf'' st_docs))))
           @ [LogException m])"
proof -
  have pres: "conn st_docs \<noteq> None" "no_faults st_docs"
    by (simp_all add: no_faults_def example_defs)
  have absent: "lookup_object (buckets st_docs) ''docs'' ''missing'' = None"
    by (simp add: lookup_object_def example_defs)
  have pre: "with_prefix (settings st_docs) ''docs'' = ''docs''"
    "with_prefix (settings st_docs) ''archive'' = ''archive''"
    by (simp_all add: with_prefix_def example_defs)
  have calls: "copy_calls st_docs ''docs'' ''a.pdf'' ''archive'' ''b.pdf''
      = [BucketExists ''archive'', MakeBucket ''archive'', StatObject ''docs'' ''a.pdf'',
         CopyObject ''archive'' ''b.pdf'' ''docs'' ''a.pdf'']"
    by (simp add: copy_calls_def with_prefix_def example_defs Let_def)
  have src: "lookup_object (buckets st_docs) ''docs'' ''a.pdf'' = Some [1, 2]"
    by (simp add: lookup_object_def example_defs)
  note A = copy_contract[of "''docs''" "''a.pdf''" "''archive''" "''b.pdf''" st_docs,
      unfolded pre]
  note B = copy_contract[of "''docs''" "''missing''" "''archive''" "''b.pdf''" st_docs,
      unfolded pre]
  have src': "lookup_object (buckets st_docs) ''docs'' ''a.pdf'' \<noteq> None"
    using src by simp
  have ok: "fst (copy ''docs'' ''a.pdf'' ''archive'' ''b.pdf'' st_docs) = Inr True"
    using A pres src' by blast
  have ev: "new_events st_docs (snd (copy ''docs'' ''a.pdf'' ''archive'' ''b.pdf'' st_docs))
     = map Call (copy_calls st_docs ''docs'' ''a.pdf'' ''archive'' ''b.pdf'')"
    "lookup_object (buckets (snd (copy ''docs'' ''a.pdf'' ''archive'' ''b.pdf'' st_docs)))
       ''archive'' ''b.pdf'' = lookup_object (buckets st_docs) ''docs'' ''a.pdf''"
    using A ok by blast+
  have miss: "fst (copy ''docs'' ''missing'' ''archive'' ''b.pdf'' st_docs) = Inr False"
    "CopyObject ''archive'' ''b.pdf'' ''docs'' ''missing''
     \<notin> set (calls_of (new_events st_docs
                        (snd (copy ''docs'' ''missing'' ''archive'' ''b.pdf'' st_docs))))"
    using B absent by blast+
  have logged: "\<exists>m. new_events st_docs
           (snd (copy ''docs'' ''missing'' ''archive'' ''b.pdf'' st_docs))
         = map Call (calls_of (new_events st_docs
                                 (snd (copy ''docs'' ''missing'' ''archive'' ''b.pdf'' st_docs))))
           @ [LogException m]"
    using B miss(1) by blast
  show ?thesis
    using pres src' ok absent miss logged ev by (simp add: calls src)
qed

subsection \<open>The tenant id\<close>

text \<open>
  Claim C9. For \<open>put\<close>, \<open>rm\<close>, \<open>get\<close>, \<open>obj_exist\<close> and \<open>get_presigned_url\<close>, two tenant ids
  give the same result and the same final state from every state: the tenant id is never
  read.
\<close>

theorem tenant_id_unused:
  "put bucket fnm binary t1 s = put bucket fnm binary t2 s \<and>
   rm bucket fnm t1 s = rm bucket fnm t2 s \<and>
   get bucket fnm t1 s = get bucket fnm t2 s \<and>
   obj_exist bucket fnm t1 s = obj_exist bucket fnm t2 s \<and>
   get_presigned_url bucket fnm expires t1 s = get_presigned_url bucket fnm expires t2 s"
  by (simp add: put_def rm_def get_def obj_exist_def get_presigned_url_def)

theorem tenant_id_unused_witness:
  "put ''docs'' ''a.pdf'' [1, 2] None st0 = put ''docs'' ''a.pdf'' [1, 2] (Some ''tenant-7'') st0 \<and>
   rm ''docs'' ''a.pdf'' None st0 = rm ''docs'' ''a.pdf'' (Some ''tenant-7'') st0 \<and>
   get ''docs'' ''a.pdf'' None st0 = get ''docs'' ''a.pdf'' (Some ''tenant-7'') st0 \<and>
   obj_exist ''docs'' ''a.pdf'' None st0 = obj_exist ''docs'' ''a.pdf'' (Some ''tenant-7'') st0 \<and>
   get_presigned_url ''docs'' ''a.pdf'' 3600 None st0
     = get_presigned_url ''docs'' ''a.pdf'' 3600 (Some ''tenant-7'') st0"
  by (rule tenant_id_unused)

subsection \<open>Existence checks and errors that are not a missing object\<close>

text \<open>
  Claim C5. The first call on the connection raises an \<open>S3Error\<close> whose code is
  \<open>AccessDenied\<close>, none of the three not-found codes. \<open>obj_exist\<close> and \<open>bucket_exists\<close> fall
  through their \<open>S3Error\<close> clause: they return \<open>None\<close>, not \<open>False\<close>, and log nothing.
\<close>

theorem exists_checks_on_unexpected_s3error:
  "fst (obj_exist ''docs'' ''a.pdf'' None st_denied) = Inr None \<and>
   new_events st_denied (snd (obj_exist ''docs'' ''a.pdf'' None st_denied))
     = [Call (BucketExists ''docs'')] \<and>
   fst (bucket_exists ''docs'' st_denied) = Inr None \<and>
   new_events st_denied (snd (bucket_exists ''docs'' st_denied))
     = [Call (BucketExists ''docs'')]"
  by (simp add: op_defs run_defs conn_defs example_defs st_denied_def new_events_def)

subsection \<open>The bucket names move passes on\<close>

text \<open>
  Claim C1. With the prefix \<open>p\<close>, an object put under the logical bucket \<open>docs\<close> lives in
  \<open>p-docs\<close>. \<open>copy\<close> finds it there. \<open>move\<close> prefixes the names and hands them to \<open>copy\<close>,
  which prefixes them again: the calls on the connection carry \<open>p-p-archive\<close> and
  \<open>p-p-docs\<close>, the source is not found, and \<open>move\<close> returns \<open>False\<close>.
\<close>

theorem move_prefixes_twice:
  "with_prefix (settings st_p) ''docs'' = ''p-docs'' \<and>
   with_prefix (settings st_p) ''archive'' = ''p-archive'' \<and>
   fst (copy ''docs'' ''a.pdf'' ''archive'' ''b.pdf'' st_p) = Inr True \<and>
   calls_of (new_events st_p (snd (copy ''docs'' ''a.pdf'' ''archive'' ''b.pdf'' st_p)))
     = [BucketExists ''p-archive'', MakeBucket ''p-archive'', StatObject ''p-docs'' ''a.pdf'',
        CopyObject ''p-archive'' ''b.pdf'' ''p-docs'' ''a.pdf''] \<and>
   fst (move ''docs'' ''a.pdf'' ''archive'' ''b.pdf'' st_p) = Inr False \<and>
   calls_of (new_events st_p (snd (move ''docs'' ''a.pdf'' ''archive'' ''b.pdf'' st_p)))
     = [BucketExists ''p-p-archive'', MakeBucket ''p-p-archive'',
        StatObject ''p-p-docs'' ''a.pdf'']"
  by (simp add: op_defs run_defs conn_defs example_defs st_p_def new_events_def)

subsection \<open>No exception leaves an operation with a handler\<close>

lemma try_except_total:
  assumes "\<And>e s. \<exists>v. fst (h e s) = Inr v"
  shows "\<exists>v. fst (try_except m h s) = Inr v"
proof (cases "m s")
  case (Pair r s1)
  then show ?thesis using assms by (cases r) (auto simp: try_except_def)
qed

lemma obj_exist_total: "\<exists>v. fst (obj_exist bucket filename t s) = Inr v"
  unfolding obj_exist_def Let_def
proof (rule try_except_total)
  fix e s'
  show "\<exists>v. fst ((case e of
           S3Error c \<Rightarrow> if c \<in> set not_found_codes then ret (Some False) else ret None
         | OtherException m \<Rightarrow>
             bindE (logging_exception
                      (''obj_exist '' @ with_prefix (settings s) bucket @ ''/'' @ filename
                        @ '' got exception''))
               (\<lambda>u. ret (Some False))) s') = Inr v"
    by (cases e) (simp_all add: ret_def bindE_def logging_exception_def)
qed

lemma bucket_exists_total: "\<exists>v. fst (bucket_exists bucket s) = Inr v"
  unfolding bucket_exists_def Let_def
proof (rule try_except_total)
  fix e s'
  show "\<exists>v. fst ((case e of
           S3Error c \<Rightarrow> if c \<in> set not_found_codes then ret (Some False) else ret None
         | OtherException m \<Rightarrow>
             bindE (logging_exception
                      (''bucket_exist '' @ with_prefix (settings s) bucket @ '' got exception''))
               (\<lambda>u. ret (Some False))) s') = Inr v"
    by (cases e) (simp_all add: ret_def bindE_def logging_exception_def)
qed

lemma remove_bucket_total: "fst (remove_bucket bucket s) = Inr ()"
proof -
  have "\<exists>v. fst (remove_bucket bucket s) = Inr v"
    unfolding remove_bucket_def Let_def
    by (rule try_except_total) (simp add: logging_exception_def)
  then show ?thesis by auto
qed

lemma move_total: "\<exists>v. fst (move sb sp db dp s) = Inr v"
  using copy_total[of "with_prefix (settings s) sb" sp "with_prefix (settings s) db" dp s]
  by (simp add: move_result)

lemma retry_block_logged:
  assumes "retry_trace cfg ev = concat (replicate k (retry_block cfg msg))" and "0 < k"
  shows "LogException msg \<in> set ev"
proof -
  obtain j where "k = Suc j" using assms(2) by (cases k) auto
  then have "LogException msg \<in> set (retry_trace cfg ev)"
    using assms(1) by (simp add: retry_block_def)
  then show ?thesis by (simp add: retry_trace_def)
qed

lemma put_None_logged:
  assumes "fst (put bucket fnm binary t s) = Inr None"
  shows "LogException (''Fail to put '' @ bucket @ ''/'' @ fnm @ '':'')
           \<in> set (new_events s (snd (put bucket fnm binary t s)))"
proof -
  from put_trace[of bucket fnm binary t s] assms obtain ev where
    "events (snd (put bucket fnm binary t s)) = events s @ ev"
    "retry_trace (settings s) ev = concat (replicate 3 (retry_block (settings s)
            (''Fail to put '' @ bucket @ ''/'' @ fnm @ '':'')))"
    by auto
  then show ?thesis
    using retry_block_logged[of "settings s" ev 3] by (simp add: new_events_def)
qed

lemma get_None_logged:
  assumes "fst (get bucket fnm t s) = Inr None"
  shows "LogException (''Fail to get '' @ with_prefix (settings s) bucket @ ''/'' @ fnm)
           \<in> set (new_events s (snd (get bucket fnm t s)))"
proof -
  from get_trace[of bucket fnm t s] assms obtain ev where
    "events (snd (get bucket fnm t s)) = events s @ ev"
    "retry_trace (settings s) ev = concat (replicate 1 (retry_block (settings s)
            (''Fail to get '' @ with_prefix (settings s) bucket @ ''/'' @ fnm)))"
    by auto
  then show ?thesis
    using retry_block_logged[of "settings s" ev 1] by (simp add: new_events_def)
qed

lemma get_presigned_url_None_logged:
  assumes "fst (get_presigned_url bucket fnm expires t s) = Inr None"
  shows "LogException (''Fail to get_presigned '' @ with_prefix (settings s) bucket @ ''/''
                        @ fnm @ '':'')
           \<in> set (new_events s (snd (get_presigned_url bucket fnm expires t s)))"
proof -
  from get_presigned_url_trace[of bucket fnm expires t s] assms obtain ev where
    "events (snd (get_presigned_url bucket fnm expires t s)) = events s @ ev"
    "retry_trace (settings s) ev = concat (replicate 10 (retry_block (settings s)
       (''Fail to get_presigned '' @ with_prefix (settings s) bucket @ ''/'' @ fnm @ '':'')))"
    by auto
  then show ?thesis
    using retry_block_logged[of "settings s" ev 10] by (simp add: new_events_def)
qed

lemma copy_False_logged:
  assumes "fst (copy sb sp db dp s) = Inr False"
  shows "\<exists>m. LogException m \<in> set (new_events s (snd (copy sb sp db dp s)))"
proof -
  obtain s' where run: "copy sb sp db dp s = (Inr False, s')"
    using assms by (cases "copy sb sp db dp s") simp
  from copy_False[OF run] obtain m where
    "new_events s s' = map Call (calls_of (new_events s s')) @ [LogException m]" by blast
  then have "LogException m \<in> set (new_events s s')"
    by (metis in_set_conv_decomp)
  with run show ?thesis by auto
qed

lemma move_False_logged:
  assumes "fst (move sb sp db dp s) = Inr False"
  shows "LogError (''Copy failed, move aborted: '' @ with_prefix (settings s) sb @ ''/'' @ sp)
           \<in> set (new_events s (snd (move sb sp db dp s)))"
proof -
  let ?ps = "with_prefix (settings s) sb" and ?pd = "with_prefix (settings s) db"
  obtain s1 where c: "copy ?ps sp ?pd dp s = (Inr False, s1)"
    using assms move_result[of sb sp db dp s] by (cases "copy ?ps sp ?pd dp s") simp
  from frame_events[OF framedD[OF framed_copy[of ?ps sp ?pd dp], of s]] c
  obtain evs where "events s1 = events s @ evs" by auto
  then show ?thesis using c by (simp add: move_eq new_events_def emit_fields)
qed

lemma rm_logged_or_removed:
  "LogException (''Fail to remove '' @ bucket @ ''/'' @ fnm @ '':'')
     \<in> set (new_events s (snd (rm bucket fnm t s))) \<or>
   lookup_object (buckets (snd (rm bucket fnm t s))) (with_prefix (settings s) bucket) fnm = None"
proof -
  obtain r s' where run: "rm bucket fnm t s = (r, s')" by (cases "rm bucket fnm t s")
  from rm_outcome[OF run] show ?thesis using run by (auto simp: new_events_def)
qed

lemma remove_bucket_logged_or_removed:
  "LogException (''Fail to remove bucket '' @ with_prefix (settings s) bucket)
     \<in> set (new_events s (snd (remove_bucket bucket s))) \<or>
   map_of (buckets (snd (remove_bucket bucket s))) (with_prefix (settings s) bucket) = None"
proof -
  let ?pb = "with_prefix (settings s) bucket"
  let ?body = "bindE (conn_bucket_exists ?pb) (\<lambda>ex.
           if ex then
             bindE (conn_list_objects ?pb True) (\<lambda>objects_to_delete.
             bindE (remove_each ?pb objects_to_delete) (\<lambda>u.
             conn_remove_bucket ?pb))
           else ret ())"
  obtain r s1 where b: "?body s = (r, s1)" by (cases "?body s")
  have fr: "frame (call_or_log (only_bucket ?pb)) s s1"
    using framedD[of "call_or_log (only_bucket ?pb)" ?body s] b
    by (simp add: framed_intros framed_remove_each only_bucket_def)
  from frame_events[OF fr] obtain evs where evs: "events s1 = events s @ evs" by auto
  show ?thesis
  proof (cases r)
    case (Inl e)
    then have "snd (remove_bucket bucket s)
        = emit (LogException (''Fail to remove bucket '' @ ?pb)) s1"
      using b by (simp add: remove_bucket_def Let_def try_except_def logging_exception_def)
    then show ?thesis using evs by (simp add: new_events_def emit_fields)
  next
    case (Inr u)
    then have s': "snd (remove_bucket bucket s) = s1"
      using b by (simp add: remove_bucket_def Let_def try_except_def)
    have "map_of (buckets s1) ?pb = None"
      using b Inr
      by (auto elim!: bindE_E dest!: ret_E conn_bucket_exists_Inr conn_remove_bucket_Inr
            simp: called_fields delete_conv' split: if_splits)
    with s' show ?thesis by simp
  qed
qed

lemma obj_exist_no_conn:
  assumes "conn s = None"
  shows "fst (obj_exist bucket fnm t s) = Inr (Some False) \<and>
         new_events s (snd (obj_exist bucket fnm t s))
           = [LogException (''obj_exist '' @ with_prefix (settings s) bucket @ ''/'' @ fnm
                              @ '' got exception'')]"
  using assms
  by (simp add: obj_exist_def Let_def try_except_def bindE_def ret_def invoke_run
        conn_bucket_exists_def logging_exception_def emit_def new_events_def)

lemma obj_exist_error_first:
  assumes "conn s \<noteq> None" and "next_fault s = Some (OtherException m)"
  shows "fst (obj_exist bucket fnm t s) = Inr (Some False) \<and>
         new_events s (snd (obj_exist bucket fnm t s))
           = [Call (BucketExists (with_prefix (settings s) bucket)),
              LogException (''obj_exist '' @ with_prefix (settings s) bucket @ ''/'' @ fnm
                              @ '' got exception'')]"
  using assms
  by (auto simp: obj_exist_def Let_def try_except_def bindE_def ret_def invoke_run
        conn_bucket_exists_def logging_exception_def emit_def new_events_def called_def)

lemma obj_exist_error_second:
  assumes "conn s \<noteq> None" and "next_fault s = None"
    and "map_of (buckets s) (with_prefix (settings s) bucket) \<noteq> None"
    and "next_fault (called (BucketExists (with_prefix (settings s) bucket)) s)
           = Some (OtherException m)"
  shows "fst (obj_exist bucket fnm t s) = Inr (Some False) \<and>
         new_events s (snd (obj_exist bucket fnm t s))
           = [Call (BucketExists (with_prefix (settings s) bucket)),
              Call (StatObject (with_prefix (settings s) bucket) fnm),
              LogException (''obj_exist '' @ with_prefix (settings s) bucket @ ''/'' @ fnm
                              @ '' got exception'')]"
  using assms
  by (auto simp: obj_exist_def Let_def try_except_def bindE_def ret_def invoke_run
        conn_bucket_exists_def conn_stat_object_def logging_exception_def emit_def
        new_events_def called_fields)

lemma obj_exist_not_found_first:
  assumes "conn s \<noteq> None" and "next_fault s = Some (S3Error c)"
    and "c \<in> set not_found_codes"
  shows "fst (obj_exist bucket fnm t s) = Inr (Some False) \<and>
         new_events s (snd (obj_exist bucket fnm t s))
           = [Call (BucketExists (with_prefix (settings s) bucket))]"
  using assms
  by (auto simp: obj_exist_def Let_def try_except_def bindE_def ret_def invoke_run
        conn_bucket_exists_def new_events_def called_def)

lemma obj_exist_not_found_second:
  assumes "conn s \<noteq> None" and "next_fault s = None"
    and "map_of (buckets s) (with_prefix (settings s) bucket) \<noteq> None"
    and "next_fault (called (BucketExists (with_prefix (settings s) bucket)) s)
           = Some (S3Error c)"
    and "c \<in> set not_found_codes"
  shows "fst (obj_exist bucket fnm t s) = Inr (Some False) \<and>
         new_events s (snd (obj_exist bucket fnm t s))
           = [Call (BucketExists (with_prefix (settings s) bucket)),
              Call (StatObject (with_prefix (settings s) bucket) fnm)]"
  using assms
  by (auto simp: obj_exist_def Let_def try_except_def bindE_def ret_def invoke_run
        conn_bucket_exists_def conn_stat_object_def new_events_def called_fields)

lemma obj_exist_missing_key:
  assumes "conn s \<noteq> None" and "next_fault s = None"
    and "map_of (buckets s) (with_prefix (settings s) bucket) \<noteq> None"
    and "next_fault (called (BucketExists (with_prefix (settings s) bucket)) s) = None"
    and "lookup_object (buckets s) (with_prefix (settings s) bucket) fnm = None"
  shows "fst (obj_exist bucket fnm t s) = Inr (Some False) \<and>
         new_events s (snd (obj_exist bucket fnm t s))
           = [Call (BucketExists (with_prefix (settings s) bucket)),
              Call (StatObject (with_prefix (settings s) bucket) fnm)]"
  using assms
  by (auto simp: obj_exist_def Let_def try_except_def bindE_def ret_def invoke_run
        conn_bucket_exists_def conn_stat_object_def new_events_def called_fields
        lookup_object_def not_found_codes_def split: option.splits)

lemma bucket_exists_no_conn:
  assumes "conn s = None"
  shows "fst (bucket_exists bucket s) = Inr (Some False) \<and>
         new_events s (snd (bucket_exists bucket s))
           = [LogException (''bucket_exist '' @ with_prefix (settings s) bucket
                              @ '' got exception'')]"
  using assms
  by (simp add: bucket_exists_def Let_def try_except_def bindE_def ret_def invoke_run
        conn_bucket_exists_def logging_exception_def emit_def new_events_def)

lemma bucket_exists_error:
  assumes "conn s \<noteq> None" and "next_fault s = Some (OtherException m)"
  shows "fst (bucket_exists bucket s) = Inr (Some False) \<and>
         new_events s (snd (bucket_exists bucket s))
           = [Call (BucketExists (with_prefix (settings s) bucket)),
              LogException (''bucket_exist '' @ with_prefix (settings s) bucket
                              @ '' got exception'')]"
  using assms
  by (auto simp: bucket_exists_def Let_def try_except_def bindE_def ret_def invoke_run
        conn_bucket_exists_def logging_exception_def emit_def new_events_def called_def)

lemma bucket_exists_not_found:
  assumes "conn s \<noteq> None" and "next_fault s = Some (S3Error c)"
    and "c \<in> set not_found_codes"
  shows "fst (bucket_exists bucket s) = Inr (Some False) \<and>
         new_events s (snd (bucket_exists bucket s))
           = [Call (BucketExists (with_prefix (settings s) bucket))]"
  using assms
  by (auto simp: bucket_exists_def Let_def try_except_def bindE_def ret_def invoke_run
        conn_bucket_exists_def new_events_def called_def)

text \<open>
  Claim C4, amended. No exception leaves \<open>put\<close>, \<open>get\<close>, \<open>get_presigned_url\<close>, \<open>rm\<close>,
  \<open>obj_exist\<close>, \<open>bucket_exists\<close>, \<open>remove_bucket\<close>, \<open>copy\<close> or \<open>move\<close>, whatever the connection
  raises. \<open>put\<close>, \<open>get\<close> and \<open>get_presigned_url\<close> that return no result have logged their
  failure; so have \<open>copy\<close> and \<open>move\<close> that return \<open>False\<close>; \<open>rm\<close> and \<open>remove_bucket\<close> have
  logged a failure or the object, respectively the bucket, is gone. In \<open>obj_exist\<close> and
  \<open>bucket_exists\<close> an error that is not an \<open>S3Error\<close> (a missing handle, or an exception
  raised by bucket\_exists or stat\_object) ends in one log record and the result \<open>False\<close>;
  an \<open>S3Error\<close> with one of the three not-found codes, raised by a call or by the probe of
  a missing key, ends in \<open>False\<close> with no log record. \<open>health\<close> has no handler.
\<close>

theorem no_exception_escapes:
  "(\<exists>v. fst (put bucket fnm binary t s) = Inr v) \<and>
   (\<exists>v. fst (get bucket fnm t s) = Inr v) \<and>
   (\<exists>v. fst (get_presigned_url bucket fnm expires t s) = Inr v) \<and>
   fst (rm bucket fnm t s) = Inr () \<and>
   (\<exists>v. fst (obj_exist bucket fnm t s) = Inr v) \<and>
   (\<exists>v. fst (bucket_exists bucket s) = Inr v) \<and>
   fst (remove_bucket bucket s) = Inr () \<and>
   (\<exists>v. fst (copy bucket fnm db dp s) = Inr v) \<and>
   (\<exists>v. fst (move bucket fnm db dp s) = Inr v) \<and>
   (fst (put bucket fnm binary t s) = Inr None \<longrightarrow>
      LogException (''Fail to put '' @ bucket @ ''/'' @ fnm @ '':'')
        \<in> set (new_events s (snd (put bucket fnm binary t s)))) \<and>
   (fst (get bucket fnm t s) = Inr None \<longrightarrow>
      LogException (''Fail to get '' @ with_prefix (settings s) bucket @ ''/'' @ fnm)
        \<in> set (new_events s (snd (get bucket fnm t s)))) \<and>
   (fst (get_presigned_url bucket fnm expires t s) = Inr None \<longrightarrow>
      LogException (''Fail to get_presigned '' @ with_prefix (settings s) bucket @ ''/''
                     @ fnm @ '':'')
        \<in> set (new_events s (snd (get_presigned_url bucket fnm expires t s)))) \<and>
   (fst (copy bucket fnm db dp s) = Inr False \<longrightarrow>
      (\<exists>m. LogException m \<in> set (new_events s (snd (copy bucket fnm db dp s))))) \<and>
   (fst (move bucket fnm db dp s) = Inr False \<longrightarrow>
      LogError (''Copy failed, move aborted: '' @ with_prefix (settings s) bucket @ ''/'' @ fnm)
        \<in> set (new_events s (snd (move bucket fnm db dp s)))) \<and>
   (LogException (''Fail to remove '' @ bucket @ ''/'' @ fnm @ '':'')
      \<in> set (new_events s (snd (rm bucket fnm t s))) \<or>
    lookup_object (buckets (snd (rm bucket fnm t s))) (with_prefix (settings s) bucket) fnm
      = None) \<and>
   (LogException (''Fail to remove bucket '' @ with_prefix (settings s) bucket)
      \<in> set (new_events s (snd (remove_bucket bucket s))) \<or>
    map_of (buckets (snd (remove_bucket bucket s))) (with_prefix (settings s) bucket) = None) \<and>
   (conn s = None \<longrightarrow>
      fst (obj_exist bucket fnm t s) = Inr (Some False) \<and>
      new_events s (snd (obj_exist bucket fnm t s))
        = [LogException (''obj_exist '' @ with_prefix (settings s) bucket @ ''/'' @ fnm
                           @ '' got exception'')]) \<and>
   (conn s \<noteq> None \<and> next_fault s = Some (OtherException m) \<longrightarrow>
      fst (obj_exist bucket fnm t s) = Inr (Some False) \<and>
      new_events s (snd (obj_exist bucket fnm t s))
        = [Call (BucketExists (with_prefix (settings s) bucket)),
           LogException (''obj_exist '' @ with_prefix (settings s) bucket @ ''/'' @ fnm
                           @ '' got exception'')]) \<and>
   (conn s \<noteq> None \<and> next_fault s = None \<and>
    map_of (buckets s) (with_prefix (settings s) bucket) \<noteq> None \<and>
    next_fault (called (BucketExists (with_prefix (settings s) bucket)) s)
      = Some (OtherException m) \<longrightarrow>
      fst (obj_exist bucket fnm t s) = Inr (Some False) \<and>
      new_events s (snd (obj_exist bucket fnm t s))
        = [Call (BucketExists (with_prefix (settings s) bucket)),
           Call (StatObject (with_prefix (settings s) bucket) fnm),
           LogException (''obj_exist '' @ with_prefix (settings s) bucket @ ''/'' @ fnm
                           @ '' got exception'')]) \<and>
   (conn s \<noteq> None \<and> next_fault s = Some (S3Error c) \<and> c \<in> set not_found_codes \<longrightarrow>
      fst (obj_exist bucket fnm t s) = Inr (Some False) \<and>
      new_events s (snd (obj_exist bucket fnm t s))
        = [Call (BucketExists (with_prefix (settings s) bucket))]) \<and>
   (conn s \<noteq> None \<and> next_fault s = None \<and>
    map_of (buckets s) (with_prefix (settings s) bucket) \<noteq> None \<and>
    next_fault (called (BucketExists (with_prefix (settings s) bucket)) s)
      = Some (S3Error c) \<and> c \<in> set not_found_codes \<longrightarrow>
      fst (obj_exist bucket fnm t s) = Inr (Some False) \<and>
      new_events s (snd (obj_exist bucket fnm t s))
        = [Call (BucketExists (with_prefix (settings s) bucket)),
           Call (StatObject (with_prefix (settings s) bucket) fnm)]) \<and>
   (conn s \<noteq> None \<and> next_fault s = None \<and>
    map_of (buckets s) (with_prefix (settings s) bucket) \<noteq> None \<and>
    next_fault (called (BucketExists (with_prefix (settings s) bucket)) s) = None \<and>
    lookup_object (buckets s) (with_prefix (settings s) bucket) fnm = None \<longrightarrow>
      fst (obj_exist bucket fnm t s) = Inr (Some False) \<and>
      new_events s (snd (obj_exist bucket fnm t s))
        = [Call (BucketExists (with_prefix (settings s) bucket)),
           Call (StatObject (with_prefix (settings s) bucket) fnm)]) \<and>
   (conn s = None \<longrightarrow>
      fst (bucket_exists bucket s) = Inr (Some False) \<and>
      new_events s (snd (bucket_exists bucket s))
        = [LogException (''bucket_exist '' @ with_prefix (settings s) bucket
                           @ '' got exception'')]) \<and>
   (conn s \<noteq> None \<and> next_fault s = Some (OtherException m) \<longrightarrow>
      fst (bucket_exists bucket s) = Inr (Some False) \<and>
      new_events s (snd (bucket_exists bucket s))
        = [Call (BucketExists (with_prefix (settings s) bucket)),
           LogException (''bucket_exist '' @ with_prefix (settings s) bucket
                           @ '' got exception'')]) \<and>
   (conn s \<noteq> None \<and> next_fault s = Some (S3Error c) \<and> c \<in> set not_found_codes \<longrightarrow>
      fst (bucket_exists bucket s) = Inr (Some False) \<and>
      new_events s (snd (bucket_exists bucket s))
        = [Call (BucketExists (with_prefix (settings s) bucket))])"
proof -
  have 1: "\<exists>v. fst (put bucket fnm binary t s) = Inr v"
    using put_trace[of bucket fnm binary t s] by blast
  have 2: "\<exists>v. fst (get bucket fnm t s) = Inr v"
    using get_trace[of bucket fnm t s] by blast
  have 3: "\<exists>v. fst (get_presigned_url bucket fnm expires t s) = Inr v"
    using get_presigned_url_trace[of bucket fnm expires t s] by blast
  have 4: "fst (put bucket fnm binary t s) = Inr None \<longrightarrow>
      LogException (''Fail to put '' @ bucket @ ''/'' @ fnm @ '':'')
        \<in> set (new_events s (snd (put bucket fnm binary t s)))"
    by (rule impI, erule put_None_logged)
  have 5: "fst (get bucket fnm t s) = Inr None \<longrightarrow>
      LogException (''Fail to get '' @ with_prefix (settings s) bucket @ ''/'' @ fnm)
        \<in> set (new_events s (snd (get bucket fnm t s)))"
    by (rule impI, erule get_None_logged)
  have 6: "fst (get_presigned_url bucket fnm expires t s) = Inr None \<longrightarrow>
      LogException (''Fail to get_presigned '' @ with_prefix (settings s) bucket @ ''/''
                     @ fnm @ '':'')
        \<in> set (new_events s (snd (get_presigned_url bucket fnm expires t s)))"
    by (rule impI, erule get_presigned_url_None_logged)
  have 7: "fst (copy bucket fnm db dp s) = Inr False \<longrightarrow>
      (\<exists>m. LogException m \<in> set (new_events s (snd (copy bucket fnm db dp s))))"
    by (rule impI, erule copy_False_logged)
  have 8: "fst (move bucket fnm db dp s) = Inr False \<longrightarrow>
      LogError (''Copy failed, move aborted: '' @ with_prefix (settings s) bucket @ ''/'' @ fnm)
        \<in> set (new_events s (snd (move bucket fnm db dp s)))"
    by (rule impI, erule move_False_logged)
  have o1: "conn s = None \<longrightarrow>
      fst (obj_exist bucket fnm t s) = Inr (Some False) \<and>
      new_events s (snd (obj_exist bucket fnm t s))
        = [LogException (''obj_exist '' @ with_prefix (settings s) bucket @ ''/'' @ fnm
                           @ '' got exception'')]"
    by (rule impI, erule obj_exist_no_conn)
  have o2: "conn s \<noteq> None \<and> next_fault s = Some (OtherException m) \<longrightarrow>
      fst (obj_exist bucket fnm t s) = Inr (Some False) \<and>
      new_events s (snd (obj_exist bucket fnm t s))
        = [Call (BucketExists (with_prefix (settings s) bucket)),
           LogException (''obj_exist '' @ with_prefix (settings s) bucket @ ''/'' @ fnm
                           @ '' got exception'')]"
    by (rule impI, (erule conjE)+, rule obj_exist_error_first)
  have o3: "conn s \<noteq> None \<and> next_fault s = None \<and>
    map_of (buckets s) (with_prefix (settings s) bucket) \<noteq> None \<and>
    next_fault (called (BucketExists (with_prefix (settings s) bucket)) s)
      = Some (OtherException m) \<longrightarrow>
      fst (obj_exist bucket fnm t s) = Inr (Some False) \<and>
      new_events s (snd (obj_exist bucket fnm t s))
        = [Call (BucketExists (with_prefix (settings s) bucket)),
           Call (StatObject (with_prefix (settings s) bucket) fnm),
           LogException (''obj_exist '' @ with_prefix (settings s) bucket @ ''/'' @ fnm
                           @ '' got exception'')]"
    by (rule impI, (erule conjE)+, rule obj_exist_error_second)
  have o4: "conn s \<noteq> None \<and> next_fault s = Some (S3Error c) \<and> c \<in> set not_found_codes \<longrightarrow>
      fst (obj_exist bucket fnm t s) = Inr (Some False) \<and>
      new_events s (snd (obj_exist bucket fnm t s))
        = [Call (BucketExists (with_prefix (settings s) bucket))]"
    by (rule impI, (erule conjE)+, rule obj_exist_not_found_first)
  have o5: "conn s \<noteq> None \<and> next_fault s = None \<and>
    map_of (buckets s) (with_prefix (settings s) bucket) \<noteq> None \<and>
    next_fault (called (BucketExists (with_prefix (settings s) bucket)) s)
      = Some (S3Error c) \<and> c \<in> set not_found_codes \<longrightarrow>
      fst (obj_exist bucket fnm t s) = Inr (Some False) \<and>
      new_events s (snd (obj_exist bucket fnm t s))
        = [Call (BucketExists (with_prefix (settings s) bucket)),
           Call (StatObject (with_prefix (settings s) bucket) fnm)]"
    by (rule impI, (erule conjE)+, rule obj_exist_not_found_second)
  have o6: "conn s \<noteq> None \<and> next_fault s = None \<and>
    map_of (buckets s) (with_prefix (settings s) bucket) \<noteq> None \<and>
    next_fault (called (BucketExists (with_prefix (settings s) bucket)) s) = None \<and>
    lookup_object (buckets s) (with_prefix (settings s) bucket) fnm = None \<longrightarrow>
      fst (obj_exist bucket fnm t s) = Inr (Some False) \<and>
      new_events s (snd (obj_exist bucket fnm t s))
        = [Call (BucketExists (with_prefix (settings s) bucket)),
           Call (StatObject (with_prefix (settings s) bucket) fnm)]"
    by (rule impI, (erule conjE)+, rule obj_exist_missing_key)
  have b1: "conn s = None \<longrightarrow>
      fst (bucket_exists bucket s) = Inr (Some False) \<and>
      new_events s (snd (bucket_exists bucket s))
        = [LogException (''bucket_exist '' @ with_prefix (settings s) bucket
                           @ '' got exception'')]"
    by (rule impI, erule bucket_exists_no_conn)
  have b2: "conn s \<noteq> None \<and> next_fault s = Some (OtherException m) \<longrightarrow>
      fst (bucket_exists bucket s) = Inr (Some False) \<and>
      new_events s (snd (bucket_exists bucket s))
        = [Call (BucketExists (with_prefix (settings s) bucket)),
           LogException (''bucket_exist '' @ with_prefix (settings s) bucket
                           @ '' got exception'')]"
    by (rule impI, (erule conjE)+, rule bucket_exists_error)
  have b3: "conn s \<noteq> None \<and> next_fault s = Some (S3Error c) \<and> c \<in> set not_found_codes \<longrightarrow>
      fst (bucket_exists bucket s) = Inr (Some False) \<and>
      new_events s (snd (bucket_exists bucket s))
        = [Call (BucketExists (with_prefix (settings s) bucket))]"
    by (rule impI, (erule conjE)+, rule bucket_exists_not_found)
  show ?thesis
    by (intro conjI 1 2 3 4 5 6 7 8 o1 o2 o3 o4 o5 o6 b1 b2 b3 rm_total obj_exist_total
          bucket_exists_total remove_bucket_total copy_total move_total rm_logged_or_removed
          remove_bucket_logged_or_removed)
qed

theorem no_exception_escapes_witness:
  "fst (put ''docs'' ''a.pdf'' [1, 2] None st_down) = Inr None \<and>
   LogException (''Fail to put '' @ ''docs'' @ ''/'' @ ''a.pdf'' @ '':'')
     \<in> set (new_events st_down (snd (put ''docs'' ''a.pdf'' [1, 2] None st_down))) \<and>
   fst (get ''docs'' ''a.pdf'' None st_down) = Inr None \<and>
   LogException (''Fail to get '' @ ''docs'' @ ''/'' @ ''a.pdf'')
     \<in> set (new_events st_down (snd (get ''docs'' ''a.pdf'' None st_down))) \<and>
   fst (get_presigned_url ''docs'' ''a.pdf'' 3600 None st_down) = Inr None \<and>
   LogException (''Fail to get_presigned '' @ ''docs'' @ ''/'' @ ''a.pdf'' @ '':'')
     \<in> set (new_events st_down (snd (get_presigned_url ''docs'' ''a.pdf'' 3600 None st_down))) \<and>
   fst (copy ''docs'' ''a.pdf'' ''archive'' ''b.pdf'' st_down) = Inr False \<and>
   (\<exists>m. LogException m
      \<in> set (new_events st_down (snd (copy ''docs'' ''a.pdf'' ''archive'' ''b.pdf'' st_down)))) \<and>
   fst (move ''docs'' ''a.pdf'' ''archive'' ''b.pdf'' st_down) = Inr False \<and>
   LogError (''Copy failed, move aborted: '' @ ''docs'' @ ''/'' @ ''a.pdf'')
     \<in> set (new_events st_down (snd (move ''docs'' ''a.pdf'' ''archive'' ''b.pdf'' st_down))) \<and>
   conn st_closed = None \<and>
   fst (obj_exist ''docs'' ''a.pdf'' None st_closed) = Inr (Some False) \<and>
   new_events st_closed (snd (obj_exist ''docs'' ''a.pdf'' None st_closed))
     = [LogException (''obj_exist '' @ ''docs'' @ ''/'' @ ''a.pdf'' @ '' got exception'')] \<and>
   fst (bucket_exists ''docs'' st_closed) = Inr (Some False) \<and>
   new_events st_closed (snd (bucket_exists ''docs'' st_closed))
     = [LogException (''bucket_exist '' @ ''docs'' @ '' got exception'')] \<and>
   next_fault st_down = Some (OtherException ''ConnectionError'') \<and>
   fst (obj_exist ''docs'' ''a.pdf'' None st_down) = Inr (Some False) \<and>
   new_events st_down (snd (obj_exist ''docs'' ''a.pdf'' None st_down))
     = [Call (BucketExists ''docs''),
        LogException (''obj_exist '' @ ''docs'' @ ''/'' @ ''a.pdf'' @ '' got exception'')] \<and>
   fst (bucket_exists ''docs'' st_down) = Inr (Some False) \<and>
   new_events st_down (snd (bucket_exists ''docs'' st_down))
     = [Call (BucketExists ''docs''),
        LogException (''bucket_exist '' @ ''docs'' @ '' got exception'')] \<and>
   next_fault (called (BucketExists ''docs'') st_stat_down)
     = Some (OtherException ''ConnectionError'') \<and>
   fst (obj_exist ''docs'' ''a.pdf'' None st_stat_down) = Inr (Some False) \<and>
   new_events st_stat_down (snd (obj_exist ''docs'' ''a.pdf'' None st_stat_down))
     = [Call (BucketExists ''docs''), Call (StatObject ''docs'' ''a.pdf''),
        LogException (''obj_exist '' @ ''docs'' @ ''/'' @ ''a.pdf'' @ '' got exception'')] \<and>
   next_fault st_no_bucket = Some (S3Error ''NoSuchBucket'') \<and>
   fst (obj_exist ''docs'' ''a.pdf'' None st_no_bucket) = Inr (Some False) \<and>
   new_events st_no_bucket (snd (obj_exist ''docs'' ''a.pdf'' None st_no_bucket))
     = [Call (BucketExists ''docs'')] \<and>
   fst (bucket_exists ''docs'' st_no_bucket) = Inr (Some False) \<and>
   new_events st_no_bucket (snd (bucket_exists ''docs'' st_no_bucket))
     = [Call (BucketExists ''docs'')] \<and>
   next_fault (called (BucketExists ''docs'') st_no_key) = Some (S3Error ''NoSuchKey'') \<and>
   fst (obj_exist ''docs'' ''a.pdf'' None st_no_key) = Inr (Some False) \<and>
   new_events st_no_key (snd (obj_exist ''docs'' ''a.pdf'' None st_no_key))
     = [Call (BucketExists ''docs''), Call (StatObject ''docs'' ''a.pdf'')] \<and>
   lookup_object (buckets st_docs) ''docs'' ''missing'' = None \<and>
   fst (obj_exist ''docs'' ''missing'' None st_docs) = Inr (Some False) \<and>
   new_events st_docs (snd (obj_exist ''docs'' ''missing'' None st_docs))
     = [Call (BucketExists ''docs''), Call (StatObject ''docs'' ''missing'')]"
proof -
  have pre: "with_prefix (settings st_down) ''docs'' = ''docs''"
    "with_prefix (settings st_closed) ''docs'' = ''docs''"
    "with_prefix (settings st_stat_down) ''docs'' = ''docs''"
    "with_prefix (settings st_no_bucket) ''docs'' = ''docs''"
    "with_prefix (settings st_no_key) ''docs'' = ''docs''"
    "with_prefix (settings st_docs) ''docs'' = ''docs''"
    by (simp_all add: with_prefix_def example_defs st_closed_def st_stat_down_def
          st_no_bucket_def st_no_key_def)
  have pf: "persistent_failure 1 st_down" "persistent_failure 3 st_down"
    "persistent_failure 10 st_down"
    by (simp_all add: persistent_failure_def st_down_def st0_def eval_nat_numeral)
  have h1: "fst (put ''docs'' ''a.pdf'' [1, 2] None st_down) = Inr None"
    by (rule put_fails[OF pf(2)])
  have h2: "fst (get ''docs'' ''a.pdf'' None st_down) = Inr None"
    by (rule get_fails[OF pf(1)])
  have h3: "fst (get_presigned_url ''docs'' ''a.pdf'' 3600 None st_down) = Inr None"
    by (rule get_presigned_url_fails[OF pf(3)])
  have h4: "fst (copy ''docs'' ''a.pdf'' ''archive'' ''b.pdf'' st_down) = Inr False"
    by (simp add: op_defs run_defs conn_defs example_defs eval_nat_numeral)
  have h5: "fst (move ''docs'' ''a.pdf'' ''archive'' ''b.pdf'' st_down) = Inr False"
    by (simp add: op_defs run_defs conn_defs example_defs eval_nat_numeral)
  have d: "conn st_down \<noteq> None" "next_fault st_down = Some (OtherException ''ConnectionError'')"
    by (simp_all add: next_fault_def example_defs eval_nat_numeral)
  note A = no_exception_escapes[where bucket = "''docs''" and fnm = "''a.pdf''"
      and binary = "[1, 2]" and t = None and s = st_down and expires = 3600
      and db = "''archive''" and dp = "''b.pdf''" and m = "''ConnectionError''"
      and c = "''NoSuchKey''", unfolded pre]
  have a: "LogException (''Fail to put '' @ ''docs'' @ ''/'' @ ''a.pdf'' @ '':'')
       \<in> set (new_events st_down (snd (put ''docs'' ''a.pdf'' [1, 2] None st_down)))"
    "LogException (''Fail to get '' @ ''docs'' @ ''/'' @ ''a.pdf'')
       \<in> set (new_events st_down (snd (get ''docs'' ''a.pdf'' None st_down)))"
    "LogException (''Fail to get_presigned '' @ ''docs'' @ ''/'' @ ''a.pdf'' @ '':'')
       \<in> set (new_events st_down
                (snd (get_presigned_url ''docs'' ''a.pdf'' 3600 None st_down)))"
    "\<exists>m. LogException m
       \<in> set (new_events st_down (snd (copy ''docs'' ''a.pdf'' ''archive'' ''b.pdf'' st_down)))"
    "LogError (''Copy failed, move aborted: '' @ ''docs'' @ ''/'' @ ''a.pdf'')
       \<in> set (new_events st_down (snd (move ''docs'' ''a.pdf'' ''archive'' ''b.pdf'' st_down)))"
    using A h1 h2 h3 h4 h5 by blast+
  have a2: "fst (obj_exist ''docs'' ''a.pdf'' None st_down) = Inr (Some False)"
    "new_events st_down (snd (obj_exist ''docs'' ''a.pdf'' None st_down))
       = [Call (BucketExists ''docs''),
          LogException (''obj_exist '' @ ''docs'' @ ''/'' @ ''a.pdf'' @ '' got exception'')]"
    "fst (bucket_exists ''docs'' st_down) = Inr (Some False)"
    "new_events st_down (snd (bucket_exists ''docs'' st_down))
       = [Call (BucketExists ''docs''),
          LogException (''bucket_exist '' @ ''docs'' @ '' got exception'')]"
    using A d by simp_all
  have c: "conn st_closed = None" by (simp add: st_closed_def)
  note B = no_exception_escapes[where bucket = "''docs''" and fnm = "''a.pdf''"
      and binary = "[1, 2]" and t = None and s = st_closed and expires = 3600
      and db = "''archive''" and dp = "''b.pdf''" and m = "''ConnectionError''"
      and c = "''NoSuchKey''", unfolded pre]
  have b: "fst (obj_exist ''docs'' ''a.pdf'' None st_closed) = Inr (Some False)"
    "new_events st_closed (snd (obj_exist ''docs'' ''a.pdf'' None st_closed))
       = [LogException (''obj_exist '' @ ''docs'' @ ''/'' @ ''a.pdf'' @ '' got exception'')]"
    "fst (bucket_exists ''docs'' st_closed) = Inr (Some False)"
    "new_events st_closed (snd (bucket_exists ''docs'' st_closed))
       = [LogException (''bucket_exist '' @ ''docs'' @ '' got exception'')]"
    using B c by simp_all
  have e: "conn st_stat_down \<noteq> None" "next_fault st_stat_down = None"
    "map_of (buckets st_stat_down) ''docs'' \<noteq> None"
    "next_fault (called (BucketExists ''docs'') st_stat_down)
       = Some (OtherException ''ConnectionError'')"
    by (simp_all add: next_fault_def called_def example_defs st_stat_down_def)
  note E = no_exception_escapes[where bucket = "''docs''" and fnm = "''a.pdf''"
      and binary = "[1, 2]" and t = None and s = st_stat_down and expires = 3600
      and db = "''archive''" and dp = "''b.pdf''" and m = "''ConnectionError''"
      and c = "''NoSuchKey''", unfolded pre]
  have e2: "fst (obj_exist ''docs'' ''a.pdf'' None st_stat_down) = Inr (Some False)"
    "new_events st_stat_down (snd (obj_exist ''docs'' ''a.pdf'' None st_stat_down))
       = [Call (BucketExists ''docs''), Call (StatObject ''docs'' ''a.pdf''),
          LogException (''obj_exist '' @ ''docs'' @ ''/'' @ ''a.pdf'' @ '' got exception'')]"
    using E e by simp_all
  have f: "conn st_no_bucket \<noteq> None" "next_fault st_no_bucket = Some (S3Error ''NoSuchBucket'')"
    "''NoSuchBucket'' \<in> set not_found_codes"
    by (simp_all add: next_fault_def example_defs st_no_bucket_def not_found_codes_def)
  note F = no_exception_escapes[where bucket = "''docs''" and fnm = "''a.pdf''"
      and binary = "[1, 2]" and t = None and s = st_no_bucket and expires = 3600
      and db = "''archive''" and dp = "''b.pdf''" and m = "''ConnectionError''"
      and c = "''NoSuchBucket''", unfolded pre]
  have f2: "fst (obj_exist ''docs'' ''a.pdf'' None st_no_bucket) = Inr (Some False)"
    "new_events st_no_bucket (snd (obj_exist ''docs'' ''a.pdf'' None st_no_bucket))
       = [Call (BucketExists ''docs'')]"
    "fst (bucket_exists ''docs'' st_no_bucket) = Inr (Some False)"
    "new_events st_no_bucket (snd (bucket_exists ''docs'' st_no_bucket))
       = [Call (BucketExists ''docs'')]"
    using F f by simp_all
  have g: "conn st_no_key \<noteq> None" "next_fault st_no_key = None"
    "map_of (buckets st_no_key) ''docs'' \<noteq> None"
    "next_fault (called (BucketExists ''docs'') st_no_key) = Some (S3Error ''NoSuchKey'')"
    "''NoSuchKey'' \<in> set not_found_codes"
    by (simp_all add: next_fault_def called_def example_defs st_no_key_def not_found_codes_def)
  note G = no_exception_escapes[where bucket = "''docs''" and fnm = "''a.pdf''"
      and binary = "[1, 2]" and t = None and s = st_no_key and expires = 3600
      and db = "''archive''" and dp = "''b.pdf''" and m = "''ConnectionError''"
      and c = "''NoSuchKey''", unfolded pre]
  have g2: "fst (obj_exist ''docs'' ''a.pdf'' None st_no_key) = Inr (Some False)"
    "new_events st_no_key (snd (obj_exist ''docs'' ''a.pdf'' None st_no_key))
       = [Call (BucketExists ''docs''), Call (StatObject ''docs'' ''a.pdf'')]"
    using G g by simp_all
  have k: "conn st_docs \<noteq> None" "next_fault st_docs = None"
    "map_of (buckets st_docs) ''docs'' \<noteq> None"
    "next_fault (called (BucketExists ''docs'') st_docs) = None"
    "lookup_object (buckets st_docs) ''docs'' ''missing'' = None"
    by (simp_all add: next_fault_def called_def example_defs lookup_object_def)
  note K = no_exception_escapes[where bucket = "''docs''" and fnm = "''missing''"
      and binary = "[1, 2]" and t = None and s = st_docs and expires = 3600
      and db = "''archive''" and dp = "''b.pdf''" and m = "''ConnectionError''"
      and c = "''NoSuchKey''", unfolded pre]
  have k2: "fst (obj_exist ''docs'' ''missing'' None st_docs) = Inr (Some False)"
    "new_events st_docs (snd (obj_exist ''docs'' ''missing'' None st_docs))
       = [Call (BucketExists ''docs''), Call (StatObject ''docs'' ''missing'')]"
    using K k by simp_all
  show ?thesis
    by (intro conjI h1 h2 h3 h4 h5 a a2 b c d(2) e(4) e2 f(2) f2 g(4) g2 k(5) k2)
qed

text \<open>
  \<open>health\<close> has no \<open>try\<close>: when the connection raises, the exception reaches the caller
  and nothing is logged.
\<close>

theorem health_raises:
  "fst (health st_down) = Inl (OtherException ''ConnectionError'') \<and>
   new_events st_down (snd (health st_down)) = [Call (BucketExists [])]"
  by (simp add: op_defs run_defs conn_defs example_defs new_events_def eval_nat_numeral)

subsection \<open>The attempts of a retry loop\<close>

lemma recover_run:
  "\<exists>s2. recover msg s = (Inr (), s2) \<and> settings s2 = settings s \<and>
     (events s2 = events s @ retry_block (settings s) msg \<and>
        conn s2 = Some (static_client (settings s)) \<or>
      events s2 = events s @ retry_block_failed (settings s) msg \<and> conn s2 = None)"
proof -
  let ?s1 = "emit (LogException msg) s"
  have c: "conn (snd (recover msg s)) = conn (snd (dunder_open ?s1))"
    by (simp add: recover_eq emit_def)
  have "events (snd (recover msg s)) = events s @ retry_block (settings s) msg \<and>
        conn (snd (recover msg s)) = Some (static_client (settings s)) \<or>
      events (snd (recover msg s)) = events s @ retry_block_failed (settings s) msg \<and>
        conn (snd (recover msg s)) = None"
    unfolding c
    by (simp add: recover_events dunder_open_conn emit_def retry_block_def
          retry_block_failed_def static_client_def split: list.splits option.splits)
  moreover have "recover msg s = (Inr (), snd (recover msg s))"
    using recover_fields(1)[of msg s] by (cases "recover msg s") simp
  ultimately show ?thesis using recover_fields(2)[of msg s] by blast
qed

lemma connect_log_in_segment:
  assumes "msg \<noteq> connect_msg cfg"
  shows "LogException (connect_msg cfg) \<notin> set (map Call cs @ retry_block cfg msg)"
    and "LogException (connect_msg cfg) \<in> set (map Call cs @ retry_block_failed cfg msg)"
  using assms by (auto simp: retry_block_def retry_block_failed_def)

lemma for_range_try_run:
  assumes body_ok: "\<And>s v s1. body s = (Inr v, s1) \<Longrightarrow>
        settings s1 = settings s \<and> conn s1 = conn s \<and>
        (\<exists>q\<in>set (seqs (settings s)). events s1 = events s @ map Call q)"
    and body_fail: "\<And>s e s1. body s = (Inl e, s1) \<Longrightarrow>
        settings s1 = settings s \<and> conn s1 = conn s \<and>
        (\<exists>q\<in>set (seqs (settings s)). \<exists>cs\<in>set (prefixes q).
           events s1 = events s @ map Call cs)"
    and handler: "\<And>s. \<exists>s2. handler s = (Inr (), s2) \<and> settings s2 = settings s \<and>
        (events s2 = events s @ retry_block (settings s) (msg (settings s)) \<and>
           conn s2 = Some (static_client (settings s)) \<or>
         events s2 = events s @ retry_block_failed (settings s) (msg (settings s)) \<and>
           conn s2 = None)"
    and msg: "\<And>cfg. msg cfg \<noteq> connect_msg cfg"
  shows "\<exists>segs tail v.
           fst (for_range_try n body handler s) = Inr v \<and>
           events (snd (for_range_try n body handler s)) = events s @ concat segs @ tail \<and>
           list_all (failed_attempt (settings s) (msg (settings s)) (seqs (settings s))) segs \<and>
           (v = None \<longrightarrow> length segs = n \<and> tail = []) \<and>
           (v \<noteq> None \<longrightarrow> length segs < n \<and>
              (\<exists>q\<in>set (seqs (settings s)). tail = map Call q)) \<and>
           conn (snd (for_range_try n body handler s))
             = conn_after (settings s) (conn s) segs \<and>
           settings (snd (for_range_try n body handler s)) = settings s"
proof (induction n arbitrary: s)
  case 0
  have "fst (for_range_try 0 body handler s) = Inr None \<and>
        events (snd (for_range_try 0 body handler s)) = events s @ concat [] @ [] \<and>
        list_all (failed_attempt (settings s) (msg (settings s)) (seqs (settings s))) [] \<and>
        conn (snd (for_range_try 0 body handler s)) = conn_after (settings s) (conn s) [] \<and>
        settings (snd (for_range_try 0 body handler s)) = settings s"
    by (simp add: conn_after_def)
  then show ?case by (intro exI[of _ "[]"] exI[of _ None]) simp
next
  case (Suc n)
  let ?cfg = "settings s"
  obtain r s1 where b: "body s = (r, s1)" by (cases "body s")
  show ?case
  proof (cases r)
    case (Inr v)
    from body_ok[of s v s1] b Inr obtain q where q: "settings s1 = ?cfg" "conn s1 = conn s"
      "q \<in> set (seqs ?cfg)" "events s1 = events s @ map Call q" by auto
    have run: "for_range_try (Suc n) body handler s = (Inr (Some v), s1)"
      using b Inr by simp
    have "fst (for_range_try (Suc n) body handler s) = Inr (Some v) \<and>
          events (snd (for_range_try (Suc n) body handler s))
            = events s @ concat [] @ map Call q \<and>
          list_all (failed_attempt ?cfg (msg ?cfg) (seqs ?cfg)) [] \<and>
          (Some v = None \<longrightarrow> length ([] :: event list list) = Suc n \<and> map Call q = []) \<and>
          (Some v \<noteq> None \<longrightarrow> length ([] :: event list list) < Suc n \<and>
             (\<exists>q'\<in>set (seqs ?cfg). map Call q = map Call q')) \<and>
          conn (snd (for_range_try (Suc n) body handler s)) = conn_after ?cfg (conn s) [] \<and>
          settings (snd (for_range_try (Suc n) body handler s)) = ?cfg"
      using run q by (auto simp: conn_after_def)
    then show ?thesis by blast
  next
    case (Inl e)
    from body_fail[of s e s1] b Inl obtain q cs where q: "settings s1 = ?cfg"
      "conn s1 = conn s" "q \<in> set (seqs ?cfg)" "cs \<in> set (prefixes q)"
      "events s1 = events s @ map Call cs" by auto
    from handler[of s1] q(1) obtain s2 where h: "handler s1 = (Inr (), s2)"
      "settings s2 = ?cfg"
      "events s2 = events s1 @ retry_block ?cfg (msg ?cfg) \<and>
         conn s2 = Some (static_client ?cfg) \<or>
       events s2 = events s1 @ retry_block_failed ?cfg (msg ?cfg) \<and> conn s2 = None"
      by auto
    define seg where "seg = drop (length (events s)) (events s2)"
    have seg: "events s2 = events s @ seg"
      using h(3) q(5) by (auto simp: seg_def)
    have seg_cases: "seg = map Call cs @ retry_block ?cfg (msg ?cfg) \<and>
         conn s2 = Some (static_client ?cfg) \<or>
       seg = map Call cs @ retry_block_failed ?cfg (msg ?cfg) \<and> conn s2 = None"
      using h(3) q(5) by (auto simp: seg_def)
    have fa: "failed_attempt ?cfg (msg ?cfg) (seqs ?cfg) seg"
      unfolding failed_attempt_def using seg_cases q(3,4) by blast
    have c2: "conn s2 = conn_after ?cfg c0 [seg]" for c0
      using seg_cases connect_log_in_segment[OF msg[of ?cfg], of cs]
      by (auto simp: conn_after_def)
    have step: "for_range_try (Suc n) body handler s = for_range_try n body handler s2"
      using b Inl h(1) by simp
    from Suc.IH[of s2] h(2) obtain segs tail v where ih:
      "fst (for_range_try n body handler s2) = Inr v"
      "events (snd (for_range_try n body handler s2)) = events s2 @ concat segs @ tail"
      "list_all (failed_attempt ?cfg (msg ?cfg) (seqs ?cfg)) segs"
      "v = None \<longrightarrow> length segs = n \<and> tail = []"
      "v \<noteq> None \<longrightarrow> length segs < n \<and> (\<exists>q\<in>set (seqs ?cfg). tail = map Call q)"
      "conn (snd (for_range_try n body handler s2)) = conn_after ?cfg (conn s2) segs"
      "settings (snd (for_range_try n body handler s2)) = ?cfg"
      by auto
    have ca: "conn_after ?cfg (conn s2) segs = conn_after ?cfg (conn s) (seg # segs)"
    proof (cases "segs = []")
      case True
      then show ?thesis using c2[of "conn s"] by (simp add: conn_after_def)
    next
      case False
      then show ?thesis by (simp add: conn_after_def)
    qed
    have "fst (for_range_try (Suc n) body handler s) = Inr v \<and>
          events (snd (for_range_try (Suc n) body handler s))
            = events s @ concat (seg # segs) @ tail \<and>
          list_all (failed_attempt ?cfg (msg ?cfg) (seqs ?cfg)) (seg # segs) \<and>
          (v = None \<longrightarrow> length (seg # segs) = Suc n \<and> tail = []) \<and>
          (v \<noteq> None \<longrightarrow> length (seg # segs) < Suc n \<and>
             (\<exists>q\<in>set (seqs ?cfg). tail = map Call q)) \<and>
          conn (snd (for_range_try (Suc n) body handler s))
            = conn_after ?cfg (conn s) (seg # segs) \<and>
          settings (snd (for_range_try (Suc n) body handler s)) = ?cfg"
      unfolding step using ih seg fa ca by simp
    then show ?thesis by blast
  qed
qed

lemma conn_put_object_Inr:
  assumes "conn_put_object b k d n s = (Inr w, s')"
  shows "conn s \<noteq> None \<and> events s' = events s @ [Call (PutObject b k d n)]"
  using assms unfolding conn_put_object_def
  by (elim bindE_E) (auto dest!: invoke_Inr simp: called_fields split: option.splits)

lemma conn_put_object_Inl:
  assumes "conn_put_object b k d n s = (Inl e, s')"
  shows "s' = s \<and> conn s = None \<or> s' = called (PutObject b k d n) s \<and> conn s \<noteq> None"
  using assms unfolding conn_put_object_def
  by (elim bindE_E) (auto dest!: invoke_Inr invoke_Inl split: option.splits)

lemma conn_get_object_Inl:
  assumes "conn_get_object b k s = (Inl e, s')"
  shows "s' = s \<and> conn s = None \<or> s' = called (GetObject b k) s \<and> conn s \<noteq> None"
  using assms unfolding conn_get_object_def
  by (elim bindE_E) (auto dest!: invoke_Inr invoke_Inl split: option.splits)

lemma response_read_run: "response_read d s = (r, s') \<Longrightarrow> s' = called ResponseRead s"
  by (auto simp: response_read_def bindE_def ret_def induce_run split: option.splits)

lemma conn_get_presigned_url_Inr:
  assumes "conn_get_presigned_url m b k x s = (Inr u, s')"
  shows "s' = called (GetPresignedUrl m b k x) s \<and> conn s \<noteq> None"
  using assms unfolding conn_get_presigned_url_def
  by (elim bindE_E) (auto dest!: invoke_Inr simp: called_fields split: option.splits)

lemma conn_get_presigned_url_Inl:
  assumes "conn_get_presigned_url m b k x s = (Inl e, s')"
  shows "s' = s \<and> conn s = None \<or> s' = called (GetPresignedUrl m b k x) s \<and> conn s \<noteq> None"
  using assms unfolding conn_get_presigned_url_def
  by (elim bindE_E) (auto dest!: invoke_Inr invoke_Inl split: option.splits)

lemma put_body_calls:
  assumes "put_body bucket fnm binary s = (r, s1)"
  shows "case r of
           Inr v \<Rightarrow> \<exists>q\<in>set (put_seqs (with_prefix (settings s) bucket) fnm binary).
                      events s1 = events s @ map Call q
         | Inl e \<Rightarrow> \<exists>q\<in>set (put_seqs (with_prefix (settings s) bucket) fnm binary).
                      \<exists>cs\<in>set (prefixes q). events s1 = events s @ map Call cs"
  using assms unfolding put_body_def Let_def put_seqs_def
  by (cases r)
     (auto elim!: bindE_E
        dest!: ret_E conn_bucket_exists_Inr conn_bucket_exists_Inl conn_make_bucket_Inr
          conn_make_bucket_Inl conn_put_object_Inr conn_put_object_Inl
        simp: called_fields split: if_splits)

lemma get_body_calls:
  assumes "get_body bucket filename s = (r, s1)"
  shows "case r of
           Inr v \<Rightarrow> \<exists>q\<in>set (get_seqs (with_prefix (settings s) bucket) filename).
                      events s1 = events s @ map Call q
         | Inl e \<Rightarrow> \<exists>q\<in>set (get_seqs (with_prefix (settings s) bucket) filename).
                      \<exists>cs\<in>set (prefixes q). events s1 = events s @ map Call cs"
  using assms unfolding get_body_def Let_def get_seqs_def
  by (cases r)
     (auto elim!: bindE_E
        dest!: conn_get_object_Inr conn_get_object_Inl response_read_run
        simp: called_fields)

lemma get_presigned_url_body_calls:
  assumes "get_presigned_url_body bucket fnm expires s = (r, s1)"
  shows "case r of
           Inr v \<Rightarrow> \<exists>q\<in>set (get_presigned_url_seqs (with_prefix (settings s) bucket) fnm expires).
                      events s1 = events s @ map Call q
         | Inl e \<Rightarrow> \<exists>q\<in>set (get_presigned_url_seqs (with_prefix (settings s) bucket) fnm expires).
                      \<exists>cs\<in>set (prefixes q). events s1 = events s @ map Call cs"
  using assms unfolding get_presigned_url_body_def Let_def get_presigned_url_seqs_def
  by (cases r)
     (auto dest!: conn_get_presigned_url_Inr conn_get_presigned_url_Inl simp: called_fields)

lemma put_run:
  "\<exists>segs tail v.
     fst (put bucket fnm binary t s) = Inr v \<and>
     events (snd (put bucket fnm binary t s)) = events s @ concat segs @ tail \<and>
     list_all (failed_attempt (settings s) (''Fail to put '' @ bucket @ ''/'' @ fnm @ '':'')
                 (put_seqs (with_prefix (settings s) bucket) fnm binary)) segs \<and>
     (v = None \<longrightarrow> length segs = 3 \<and> tail = []) \<and>
     (v \<noteq> None \<longrightarrow> length segs < 3 \<and>
        (\<exists>q\<in>set (put_seqs (with_prefix (settings s) bucket) fnm binary). tail = map Call q)) \<and>
     conn (snd (put bucket fnm binary t s)) = conn_after (settings s) (conn s) segs \<and>
     settings (snd (put bucket fnm binary t s)) = settings s"
  unfolding put_def put_handler_recover
proof (rule for_range_try_run[where
      msg = "\<lambda>cfg. ''Fail to put '' @ bucket @ ''/'' @ fnm @ '':''"
      and seqs = "\<lambda>cfg. put_seqs (with_prefix cfg bucket) fnm binary"])
  fix s v s1
  assume b: "put_body bucket fnm binary s = (Inr v, s1)"
  show "settings s1 = settings s \<and> conn s1 = conn s \<and>
        (\<exists>q\<in>set (put_seqs (with_prefix (settings s) bucket) fnm binary).
           events s1 = events s @ map Call q)"
    using put_body_calls[OF b] frame_put_body[of s bucket fnm binary] b
    by (simp add: frame_def)
next
  fix s e s1
  assume b: "put_body bucket fnm binary s = (Inl e, s1)"
  show "settings s1 = settings s \<and> conn s1 = conn s \<and>
        (\<exists>q\<in>set (put_seqs (with_prefix (settings s) bucket) fnm binary).
           \<exists>cs\<in>set (prefixes q). events s1 = events s @ map Call cs)"
    using put_body_calls[OF b] frame_put_body[of s bucket fnm binary] b
    by (simp add: frame_def)
next
  fix s
  show "\<exists>s2. recover (''Fail to put '' @ bucket @ ''/'' @ fnm @ '':'') s = (Inr (), s2) \<and>
          settings s2 = settings s \<and>
          (events s2 = events s @ retry_block (settings s)
                                    (''Fail to put '' @ bucket @ ''/'' @ fnm @ '':'') \<and>
             conn s2 = Some (static_client (settings s)) \<or>
           events s2 = events s @ retry_block_failed (settings s)
                                    (''Fail to put '' @ bucket @ ''/'' @ fnm @ '':'') \<and>
             conn s2 = None)"
    by (rule recover_run)
next
  fix cfg
  show "''Fail to put '' @ bucket @ ''/'' @ fnm @ '':'' \<noteq> connect_msg cfg"
    by (simp add: connect_msg_def)
qed

lemma get_run:
  "\<exists>segs tail v.
     fst (get bucket fnm t s) = Inr v \<and>
     events (snd (get bucket fnm t s)) = events s @ concat segs @ tail \<and>
     list_all (failed_attempt (settings s)
                 (''Fail to get '' @ with_prefix (settings s) bucket @ ''/'' @ fnm)
                 (get_seqs (with_prefix (settings s) bucket) fnm)) segs \<and>
     (v = None \<longrightarrow> length segs = 1 \<and> tail = []) \<and>
     (v \<noteq> None \<longrightarrow> length segs < 1 \<and>
        (\<exists>q\<in>set (get_seqs (with_prefix (settings s) bucket) fnm). tail = map Call q)) \<and>
     conn (snd (get bucket fnm t s)) = conn_after (settings s) (conn s) segs \<and>
     settings (snd (get bucket fnm t s)) = settings s"
  unfolding get_def
proof (rule for_range_try_run[where
      msg = "\<lambda>cfg. ''Fail to get '' @ with_prefix cfg bucket @ ''/'' @ fnm"
      and seqs = "\<lambda>cfg. get_seqs (with_prefix cfg bucket) fnm"])
  fix s v s1
  assume b: "get_body bucket fnm s = (Inr v, s1)"
  show "settings s1 = settings s \<and> conn s1 = conn s \<and>
        (\<exists>q\<in>set (get_seqs (with_prefix (settings s) bucket) fnm).
           events s1 = events s @ map Call q)"
    using get_body_calls[OF b] frame_get_body[of s bucket fnm] b
    by (simp add: frame_def)
next
  fix s e s1
  assume b: "get_body bucket fnm s = (Inl e, s1)"
  show "settings s1 = settings s \<and> conn s1 = conn s \<and>
        (\<exists>q\<in>set (get_seqs (with_prefix (settings s) bucket) fnm).
           \<exists>cs\<in>set (prefixes q). events s1 = events s @ map Call cs)"
    using get_body_calls[OF b] frame_get_body[of s bucket fnm] b
    by (simp add: frame_def)
next
  fix s
  show "\<exists>s2. get_handler bucket fnm s = (Inr (), s2) \<and>
          settings s2 = settings s \<and>
          (events s2 = events s @ retry_block (settings s)
                         (''Fail to get '' @ with_prefix (settings s) bucket @ ''/'' @ fnm) \<and>
             conn s2 = Some (static_client (settings s)) \<or>
           events s2 = events s @ retry_block_failed (settings s)
                         (''Fail to get '' @ with_prefix (settings s) bucket @ ''/'' @ fnm) \<and>
             conn s2 = None)"
    unfolding get_handler_recover by (rule recover_run)
next
  fix cfg
  show "''Fail to get '' @ with_prefix cfg bucket @ ''/'' @ fnm \<noteq> connect_msg cfg"
    by (simp add: connect_msg_def)
qed

lemma get_presigned_url_run:
  "\<exists>segs tail v.
     fst (get_presigned_url bucket fnm expires t s) = Inr v \<and>
     events (snd (get_presigned_url bucket fnm expires t s)) = events s @ concat segs @ tail \<and>
     list_all (failed_attempt (settings s)
                 (''Fail to get_presigned '' @ with_prefix (settings s) bucket @ ''/'' @ fnm
                    @ '':'')
                 (get_presigned_url_seqs (with_prefix (settings s) bucket) fnm expires)) segs \<and>
     (v = None \<longrightarrow> length segs = 10 \<and> tail = []) \<and>
     (v \<noteq> None \<longrightarrow> length segs < 10 \<and>
        (\<exists>q\<in>set (get_presigned_url_seqs (with_prefix (settings s) bucket) fnm expires).
           tail = map Call q)) \<and>
     conn (snd (get_presigned_url bucket fnm expires t s))
       = conn_after (settings s) (conn s) segs \<and>
     settings (snd (get_presigned_url bucket fnm expires t s)) = settings s"
  unfolding get_presigned_url_def
proof (rule for_range_try_run[where
      msg = "\<lambda>cfg. ''Fail to get_presigned '' @ with_prefix cfg bucket @ ''/'' @ fnm @ '':''"
      and seqs = "\<lambda>cfg. get_presigned_url_seqs (with_prefix cfg bucket) fnm expires"])
  fix s v s1
  assume b: "get_presigned_url_body bucket fnm expires s = (Inr v, s1)"
  show "settings s1 = settings s \<and> conn s1 = conn s \<and>
        (\<exists>q\<in>set (get_presigned_url_seqs (with_prefix (settings s) bucket) fnm expires).
           events s1 = events s @ map Call q)"
    using get_presigned_url_body_calls[OF b]
      frame_get_presigned_url_body[of s bucket fnm expires] b
    by (simp add: frame_def)
next
  fix s e s1
  assume b: "get_presigned_url_body bucket fnm expires s = (Inl e, s1)"
  show "settings s1 = settings s \<and> conn s1 = conn s \<and>
        (\<exists>q\<in>set (get_presigned_url_seqs (with_prefix (settings s) bucket) fnm expires).
           \<exists>cs\<in>set (prefixes q). events s1 = events s @ map Call cs)"
    using get_presigned_url_body_calls[OF b]
      frame_get_presigned_url_body[of s bucket fnm expires] b
    by (simp add: frame_def)
next
  fix s
  show "\<exists>s2. get_presigned_url_handler bucket fnm s = (Inr (), s2) \<and>
          settings s2 = settings s \<and>
          (events s2 = events s @ retry_block (settings s)
             (''Fail to get_presigned '' @ with_prefix (settings s) bucket @ ''/'' @ fnm
                @ '':'') \<and>
             conn s2 = Some (static_client (settings s)) \<or>
           events s2 = events s @ retry_block_failed (settings s)
             (''Fail to get_presigned '' @ with_prefix (settings s) bucket @ ''/'' @ fnm
                @ '':'') \<and>
             conn s2 = None)"
    unfolding get_presigned_url_handler_recover by (rule recover_run)
next
  fix cfg
  show "''Fail to get_presigned '' @ with_prefix cfg bucket @ ''/'' @ fnm @ '':''
          \<noteq> connect_msg cfg"
    by (simp add: connect_msg_def)
qed

lemma retry_runI:
  assumes "events s' = events s @ concat segs @ tail"
    and "list_all (failed_attempt cfg msg seqs) segs"
    and "v = None \<longrightarrow> length segs = n \<and> tail = []"
    and "v \<noteq> None \<longrightarrow> length segs < n \<and> (\<exists>q\<in>set seqs. tail = map Call q)"
    and "conn s' = conn_after cfg (conn s) segs"
  shows "retry_run n cfg msg seqs (v = None) (conn s) (conn s') (new_events s s')"
proof -
  have "new_events s s' = concat segs @ tail" using assms(1) by (simp add: new_events_def)
  moreover have "if v = None then length segs = n \<and> tail = []
     else length segs < n \<and> (\<exists>q\<in>set seqs. tail = map Call q)"
    using assms(3,4) by simp
  ultimately show ?thesis
    unfolding retry_run_def using assms(2,5) by blast
qed

lemma reconnect_runI:
  assumes "events s' = events s @ concat segs @ tail"
    and "list_all (failed_attempt cfg msg seqs) segs"
    and "v = None \<longrightarrow> length segs = n \<and> tail = []"
    and "v \<noteq> None \<longrightarrow> length segs < n \<and> (\<exists>q\<in>set seqs. tail = map Call q)"
    and "conn s' = conn_after cfg (conn s) segs"
  shows "reconnect_run cfg msg seqs (conn s) (conn s') (new_events s s')"
proof -
  have "new_events s s' = concat segs @ tail" using assms(1) by (simp add: new_events_def)
  moreover have "tail = [] \<or> (\<exists>q\<in>set seqs. tail = map Call q)"
    using assms(3,4) by (cases v) auto
  ultimately show ?thesis
    unfolding reconnect_run_def using assms(2,5) by blast
qed

subsection \<open>Retry ceilings\<close>

text \<open>
  Claim C3. The events \<open>get\<close>, \<open>put\<close> and \<open>get_presigned_url\<close> add to the record are one
  segment per failed attempt and then the calls of the attempt that returned, if any. A
  segment holds the calls of one run of the \<open>try\<close> block up to the call that raised, then
  the failure's log record, the constructor call of the reconnect (with the record of a
  failed connect if the constructor raised) and a pause of one second. With no result
  there are exactly 1, 3 and 10 segments and nothing after them; with a result there are
  fewer, followed by one full run of the block. So \<open>get\<close> makes exactly one attempt,
  \<open>put\<close> at most three and \<open>get_presigned_url\<close> at most ten, every failed attempt is logged,
  reconnects and pauses one second, and no exception leaves the operation. The handle
  afterwards is the one held before when no attempt failed, else the one the last
  reconnect built, or none when its constructor raised. When the next 1, 3, 10 calls on
  the connection all raise, the operation returns no result.
\<close>

theorem retry_ceilings:
  "retry_run 1 (settings s)
     (''Fail to get '' @ with_prefix (settings s) bucket @ ''/'' @ fnm)
     (get_seqs (with_prefix (settings s) bucket) fnm)
     (fst (get bucket fnm t s) = Inr None)
     (conn s) (conn (snd (get bucket fnm t s)))
     (new_events s (snd (get bucket fnm t s))) \<and>
   retry_run 3 (settings s)
     (''Fail to put '' @ bucket @ ''/'' @ fnm @ '':'')
     (put_seqs (with_prefix (settings s) bucket) fnm binary)
     (fst (put bucket fnm binary t s) = Inr None)
     (conn s) (conn (snd (put bucket fnm binary t s)))
     (new_events s (snd (put bucket fnm binary t s))) \<and>
   retry_run 10 (settings s)
     (''Fail to get_presigned '' @ with_prefix (settings s) bucket @ ''/'' @ fnm @ '':'')
     (get_presigned_url_seqs (with_prefix (settings s) bucket) fnm expires)
     (fst (get_presigned_url bucket fnm expires t s) = Inr None)
     (conn s) (conn (snd (get_presigned_url bucket fnm expires t s)))
     (new_events s (snd (get_presigned_url bucket fnm expires t s))) \<and>
   (\<exists>v. fst (get bucket fnm t s) = Inr v) \<and>
   (\<exists>v. fst (put bucket fnm binary t s) = Inr v) \<and>
   (\<exists>v. fst (get_presigned_url bucket fnm expires t s) = Inr v) \<and>
   (persistent_failure 1 s \<longrightarrow> fst (get bucket fnm t s) = Inr None) \<and>
   (persistent_failure 3 s \<longrightarrow> fst (put bucket fnm binary t s) = Inr None) \<and>
   (persistent_failure 10 s \<longrightarrow> fst (get_presigned_url bucket fnm expires t s) = Inr None)"
proof -
  from get_run[of bucket fnm t s] obtain segs tail v where g:
    "fst (get bucket fnm t s) = Inr v"
    "events (snd (get bucket fnm t s)) = events s @ concat segs @ tail"
    "list_all (failed_attempt (settings s)
                 (''Fail to get '' @ with_prefix (settings s) bucket @ ''/'' @ fnm)
                 (get_seqs (with_prefix (settings s) bucket) fnm)) segs"
    "v = None \<longrightarrow> length segs = 1 \<and> tail = []"
    "v \<noteq> None \<longrightarrow> length segs < 1 \<and>
        (\<exists>q\<in>set (get_seqs (with_prefix (settings s) bucket) fnm). tail = map Call q)"
    "conn (snd (get bucket fnm t s)) = conn_after (settings s) (conn s) segs"
    by blast
  have 1: "retry_run 1 (settings s)
     (''Fail to get '' @ with_prefix (settings s) bucket @ ''/'' @ fnm)
     (get_seqs (with_prefix (settings s) bucket) fnm)
     (fst (get bucket fnm t s) = Inr None)
     (conn s) (conn (snd (get bucket fnm t s)))
     (new_events s (snd (get bucket fnm t s)))"
    using retry_runI[OF g(2,3,4,5,6)] g(1) by simp
  from put_run[of bucket fnm binary t s] obtain segs tail v where p:
    "fst (put bucket fnm binary t s) = Inr v"
    "events (snd (put bucket fnm binary t s)) = events s @ concat segs @ tail"
    "list_all (failed_attempt (settings s) (''Fail to put '' @ bucket @ ''/'' @ fnm @ '':'')
                 (put_seqs (with_prefix (settings s) bucket) fnm binary)) segs"
    "v = None \<longrightarrow> length segs = 3 \<and> tail = []"
    "v \<noteq> None \<longrightarrow> length segs < 3 \<and>
        (\<exists>q\<in>set (put_seqs (with_prefix (settings s) bucket) fnm binary). tail = map Call q)"
    "conn (snd (put bucket fnm binary t s)) = conn_after (settings s) (conn s) segs"
    by blast
  have 2: "retry_run 3 (settings s)
     (''Fail to put '' @ bucket @ ''/'' @ fnm @ '':'')
     (put_seqs (with_prefix (settings s) bucket) fnm binary)
     (fst (put bucket fnm binary t s) = Inr None)
     (conn s) (conn (snd (put bucket fnm binary t s)))
     (new_events s (snd (put bucket fnm binary t s)))"
    using retry_runI[OF p(2,3,4,5,6)] p(1) by simp
  from get_presigned_url_run[of bucket fnm expires t s] obtain segs tail v where u:
    "fst (get_presigned_url bucket fnm expires t s) = Inr v"
    "events (snd (get_presigned_url bucket fnm expires t s)) = events s @ concat segs @ tail"
    "list_all (failed_attempt (settings s)
                 (''Fail to get_presigned '' @ with_prefix (settings s) bucket @ ''/'' @ fnm
                    @ '':'')
                 (get_presigned_url_seqs (with_prefix (settings s) bucket) fnm expires)) segs"
    "v = None \<longrightarrow> length segs = 10 \<and> tail = []"
    "v \<noteq> None \<longrightarrow> length segs < 10 \<and>
        (\<exists>q\<in>set (get_presigned_url_seqs (with_prefix (settings s) bucket) fnm expires).
           tail = map Call q)"
    "conn (snd (get_presigned_url bucket fnm expires t s))
       = conn_after (settings s) (conn s) segs"
    by blast
  have 3: "retry_run 10 (settings s)
     (''Fail to get_presigned '' @ with_prefix (settings s) bucket @ ''/'' @ fnm @ '':'')
     (get_presigned_url_seqs (with_prefix (settings s) bucket) fnm expires)
     (fst (get_presigned_url bucket fnm expires t s) = Inr None)
     (conn s) (conn (snd (get_presigned_url bucket fnm expires t s)))
     (new_events s (snd (get_presigned_url bucket fnm expires t s)))"
    using retry_runI[OF u(2,3,4,5,6)] u(1) by simp
  have 4: "\<exists>v. fst (get bucket fnm t s) = Inr v" using g(1) by blast
  have 5: "\<exists>v. fst (put bucket fnm binary t s) = Inr v" using p(1) by blast
  have 6: "\<exists>v. fst (get_presigned_url bucket fnm expires t s) = Inr v" using u(1) by blast
  show ?thesis
    using 1 2 3 4 5 6 get_fails[of s bucket fnm t] put_fails[of s bucket fnm binary t]
      get_presigned_url_fails[of s bucket fnm expires t]
    by blast
qed

theorem retry_ceilings_witness:
  "persistent_failure 1 st_down \<and> persistent_failure 3 st_down \<and>
   persistent_failure 10 st_down \<and>
   fst (get ''docs'' ''a.pdf'' None st_down) = Inr None \<and>
   fst (put ''docs'' ''a.pdf'' [1, 2] None st_down) = Inr None \<and>
   fst (get_presigned_url ''docs'' ''a.pdf'' 3600 None st_down) = Inr None \<and>
   new_events st_down (snd (put ''docs'' ''a.pdf'' [1, 2] None st_down))
     = [Call (BucketExists ''docs''), LogException ''Fail to put docs/a.pdf:'',
        NewMinio ''minio:9000'' ''rag'' ''secret'' False, Sleep 1,
        Call (BucketExists ''docs''), LogException ''Fail to put docs/a.pdf:'',
        NewMinio ''minio:9000'' ''rag'' ''secret'' False, Sleep 1,
        Call (BucketExists ''docs''), LogException ''Fail to put docs/a.pdf:'',
        NewMinio ''minio:9000'' ''rag'' ''secret'' False, Sleep 1] \<and>
   retry_run 3 cfg0 ''Fail to put docs/a.pdf:'' (put_seqs ''docs'' ''a.pdf'' [1, 2]) True
     (Some h0) (Some h0)
     [Call (BucketExists ''docs''), LogException ''Fail to put docs/a.pdf:'',
      NewMinio ''minio:9000'' ''rag'' ''secret'' False, Sleep 1,
      Call (BucketExists ''docs''), LogException ''Fail to put docs/a.pdf:'',
      NewMinio ''minio:9000'' ''rag'' ''secret'' False, Sleep 1,
      Call (BucketExists ''docs''), LogException ''Fail to put docs/a.pdf:'',
      NewMinio ''minio:9000'' ''rag'' ''secret'' False, Sleep 1] \<and>
   retry_run 1 cfg0 ''Fail to get docs/a.pdf'' (get_seqs ''docs'' ''a.pdf'') True
     (Some h0) (Some h0)
     [Call (GetObject ''docs'' ''a.pdf''), LogException ''Fail to get docs/a.pdf'',
      NewMinio ''minio:9000'' ''rag'' ''secret'' False, Sleep 1]"
proof -
  have h: "persistent_failure 1 st_down" "persistent_failure 3 st_down"
    "persistent_failure 10 st_down"
    by (simp_all add: persistent_failure_def st_down_def st0_def eval_nat_numeral)
  have cfg: "settings st_down = cfg0" "with_prefix cfg0 ''docs'' = ''docs''"
    by (simp_all add: example_defs with_prefix_def)
  have p: "new_events st_down (snd (put ''docs'' ''a.pdf'' [1, 2] None st_down))
     = [Call (BucketExists ''docs''), LogException ''Fail to put docs/a.pdf:'',
        NewMinio ''minio:9000'' ''rag'' ''secret'' False, Sleep 1,
        Call (BucketExists ''docs''), LogException ''Fail to put docs/a.pdf:'',
        NewMinio ''minio:9000'' ''rag'' ''secret'' False, Sleep 1,
        Call (BucketExists ''docs''), LogException ''Fail to put docs/a.pdf:'',
        NewMinio ''minio:9000'' ''rag'' ''secret'' False, Sleep 1]"
    by (simp add: op_defs run_defs conn_defs example_defs new_events_def eval_nat_numeral)
  have g: "new_events st_down (snd (get ''docs'' ''a.pdf'' None st_down))
     = [Call (GetObject ''docs'' ''a.pdf''), LogException ''Fail to get docs/a.pdf'',
        NewMinio ''minio:9000'' ''rag'' ''secret'' False, Sleep 1]"
    by (simp add: op_defs run_defs conn_defs example_defs new_events_def eval_nat_numeral)
  have c: "conn st_down = Some h0"
    "conn (snd (put ''docs'' ''a.pdf'' [1, 2] None st_down)) = Some h0"
    "conn (snd (get ''docs'' ''a.pdf'' None st_down)) = Some h0"
    by (simp_all add: op_defs run_defs conn_defs example_defs eval_nat_numeral)
  note A = retry_ceilings[of st_down "''docs''" "''a.pdf''" None "[1, 2]" 3600,
      unfolded cfg p g c]
  have r: "fst (get ''docs'' ''a.pdf'' None st_down) = Inr None"
    "fst (put ''docs'' ''a.pdf'' [1, 2] None st_down) = Inr None"
    "fst (get_presigned_url ''docs'' ''a.pdf'' 3600 None st_down) = Inr None"
    using A h by blast+
  show ?thesis using h r p A[unfolded r] by simp
qed

subsection \<open>Which failures reconnect\<close>

lemma frame_no_reconnect:
  assumes "frame (call_or_log Q) s s'"
  shows "conn s' = conn s \<and> filter is_new_minio (new_events s s') = []"
proof -
  from assms obtain evs where evs: "events s' = events s @ evs" "list_all (call_or_log Q) evs"
    by (auto simp: frame_def)
  have "filter is_new_minio evs = []"
    using evs(2)
  proof (induction evs)
    case Nil
    show ?case by simp
  next
    case (Cons e evs)
    then show ?case by (cases e) simp_all
  qed
  then show ?thesis using evs(1) assms by (simp add: new_events_def frame_def)
qed

lemma dunder_open_new_minio:
  "filter is_new_minio (new_events s (snd (dunder_open s)))
     = [NewMinio (MINIO_host (settings s)) (MINIO_user (settings s))
          (MINIO_password (settings s)) False]"
  by (simp add: new_events_def dunder_open_events split: list.splits option.splits)

text \<open>
  Claim C8, amended. \<open>__open__\<close> drops the handle and calls the constructor once with the
  host, user and password of the settings and \<open>secure=False\<close>; the handle is then the one
  built from them, or none when the constructor raised. In \<open>put\<close>, \<open>get\<close> and
  \<open>get_presigned_url\<close> every failed attempt is followed by exactly that constructor call:
  the new events are one segment per failed attempt (the calls of the attempt, its log
  record, the constructor call, the record of a failed connect if the constructor raised,
  a pause of one second) and then the calls of the attempt that returned, if any; and the
  handle afterwards is the one it was when no attempt failed, and otherwise the one the
  last reconnect built, or none when that constructor call raised. \<open>rm\<close>, \<open>copy\<close>, \<open>move\<close>,
  \<open>obj_exist\<close>, \<open>bucket_exists\<close> and \<open>remove_bucket\<close> never call the constructor and leave
  the handle as it was, whether they fail or not.
\<close>

theorem reconnect_policy:
  "fst (dunder_open s) = Inr () \<and> settings (snd (dunder_open s)) = settings s \<and>
   conn (snd (dunder_open s))
     = (case ctor_faults s of Some e # fs \<Rightarrow> None | _ \<Rightarrow> Some (static_client (settings s))) \<and>
   filter is_new_minio (new_events s (snd (dunder_open s)))
     = [NewMinio (MINIO_host (settings s)) (MINIO_user (settings s))
          (MINIO_password (settings s)) False] \<and>
   reconnect_run (settings s)
     (''Fail to put '' @ bucket @ ''/'' @ fnm @ '':'')
     (put_seqs (with_prefix (settings s) bucket) fnm binary)
     (conn s) (conn (snd (put bucket fnm binary t s)))
     (new_events s (snd (put bucket fnm binary t s))) \<and>
   reconnect_run (settings s)
     (''Fail to get '' @ with_prefix (settings s) bucket @ ''/'' @ fnm)
     (get_seqs (with_prefix (settings s) bucket) fnm)
     (conn s) (conn (snd (get bucket fnm t s)))
     (new_events s (snd (get bucket fnm t s))) \<and>
   reconnect_run (settings s)
     (''Fail to get_presigned '' @ with_prefix (settings s) bucket @ ''/'' @ fnm @ '':'')
     (get_presigned_url_seqs (with_prefix (settings s) bucket) fnm expires)
     (conn s) (conn (snd (get_presigned_url bucket fnm expires t s)))
     (new_events s (snd (get_presigned_url bucket fnm expires t s))) \<and>
   conn (snd (rm bucket fnm t s)) = conn s \<and>
   filter is_new_minio (new_events s (snd (rm bucket fnm t s))) = [] \<and>
   conn (snd (copy bucket fnm db dp s)) = conn s \<and>
   filter is_new_minio (new_events s (snd (copy bucket fnm db dp s))) = [] \<and>
   conn (snd (move bucket fnm db dp s)) = conn s \<and>
   filter is_new_minio (new_events s (snd (move bucket fnm db dp s))) = [] \<and>
   conn (snd (obj_exist bucket fnm t s)) = conn s \<and>
   filter is_new_minio (new_events s (snd (obj_exist bucket fnm t s))) = [] \<and>
   conn (snd (bucket_exists bucket s)) = conn s \<and>
   filter is_new_minio (new_events s (snd (bucket_exists bucket s))) = [] \<and>
   conn (snd (remove_bucket bucket s)) = conn s \<and>
   filter is_new_minio (new_events s (snd (remove_bucket bucket s))) = []"
proof -
  have 1: "conn (snd (dunder_open s))
     = (case ctor_faults s of Some e # fs \<Rightarrow> None | _ \<Rightarrow> Some (static_client (settings s)))"
    by (simp add: dunder_open_conn static_client_def split: list.splits option.splits)
  from put_run[of bucket fnm binary t s] obtain segs tail v where p:
    "events (snd (put bucket fnm binary t s)) = events s @ concat segs @ tail"
    "list_all (failed_attempt (settings s) (''Fail to put '' @ bucket @ ''/'' @ fnm @ '':'')
                 (put_seqs (with_prefix (settings s) bucket) fnm binary)) segs"
    "v = None \<longrightarrow> length segs = 3 \<and> tail = []"
    "v \<noteq> None \<longrightarrow> length segs < 3 \<and>
        (\<exists>q\<in>set (put_seqs (with_prefix (settings s) bucket) fnm binary). tail = map Call q)"
    "conn (snd (put bucket fnm binary t s)) = conn_after (settings s) (conn s) segs"
    by blast
  note 2 = reconnect_runI[OF p]
  from get_run[of bucket fnm t s] obtain segs tail v where g:
    "events (snd (get bucket fnm t s)) = events s @ concat segs @ tail"
    "list_all (failed_attempt (settings s)
                 (''Fail to get '' @ with_prefix (settings s) bucket @ ''/'' @ fnm)
                 (get_seqs (with_prefix (settings s) bucket) fnm)) segs"
    "v = None \<longrightarrow> length segs = 1 \<and> tail = []"
    "v \<noteq> None \<longrightarrow> length segs < 1 \<and>
        (\<exists>q\<in>set (get_seqs (with_prefix (settings s) bucket) fnm). tail = map Call q)"
    "conn (snd (get bucket fnm t s)) = conn_after (settings s) (conn s) segs"
    by blast
  note 3 = reconnect_runI[OF g]
  from get_presigned_url_run[of bucket fnm expires t s] obtain segs tail v where u:
    "events (snd (get_presigned_url bucket fnm expires t s)) = events s @ concat segs @ tail"
    "list_all (failed_attempt (settings s)
                 (''Fail to get_presigned '' @ with_prefix (settings s) bucket @ ''/'' @ fnm
                    @ '':'')
                 (get_presigned_url_seqs (with_prefix (settings s) bucket) fnm expires)) segs"
    "v = None \<longrightarrow> length segs = 10 \<and> tail = []"
    "v \<noteq> None \<longrightarrow> length segs < 10 \<and>
        (\<exists>q\<in>set (get_presigned_url_seqs (with_prefix (settings s) bucket) fnm expires).
           tail = map Call q)"
    "conn (snd (get_presigned_url bucket fnm expires t s))
       = conn_after (settings s) (conn s) segs"
    by blast
  note 4 = reconnect_runI[OF u]
  note quiet = frame_no_reconnect[OF frame_rm] frame_no_reconnect[OF frame_copy]
    frame_no_reconnect[OF frame_move] frame_no_reconnect[OF frame_obj_exist]
    frame_no_reconnect[OF frame_bucket_exists] frame_no_reconnect[OF frame_remove_bucket]
  show ?thesis
    by (intro conjI dunder_open_result dunder_open_settings 1 dunder_open_new_minio 2 3 4
          quiet[THEN conjunct1] quiet[THEN conjunct2])
qed

theorem reconnect_policy_witness:
  "fst (put ''docs'' ''a.pdf'' [1, 2] None st_closed)
     = Inr (Some (ObjectWriteResult ''docs'' ''a.pdf'')) \<and>
   conn st_closed = None \<and>
   conn (snd (put ''docs'' ''a.pdf'' [1, 2] None st_closed)) = Some h0 \<and>
   reconnect_run cfg0 ''Fail to put docs/a.pdf:'' (put_seqs ''docs'' ''a.pdf'' [1, 2])
     None (Some h0)
     [LogException ''Fail to put docs/a.pdf:'',
      NewMinio ''minio:9000'' ''rag'' ''secret'' False, Sleep 1,
      Call (BucketExists ''docs''), Call (MakeBucket ''docs''),
      Call (PutObject ''docs'' ''a.pdf'' [1, 2] 2)] \<and>
   conn st_lost = Some h0 \<and>
   conn (snd (put ''docs'' ''a.pdf'' [1, 2] None st_lost)) = None \<and>
   reconnect_run cfg0 ''Fail to put docs/a.pdf:'' (put_seqs ''docs'' ''a.pdf'' [1, 2])
     (Some h0) None
     [Call (BucketExists ''docs''), LogException ''Fail to put docs/a.pdf:'',
      NewMinio ''minio:9000'' ''rag'' ''secret'' False,
      LogException ''Fail to connect minio:9000 '', Sleep 1,
      LogException ''Fail to put docs/a.pdf:'',
      NewMinio ''minio:9000'' ''rag'' ''secret'' False,
      LogException ''Fail to connect minio:9000 '', Sleep 1,
      LogException ''Fail to put docs/a.pdf:'',
      NewMinio ''minio:9000'' ''rag'' ''secret'' False,
      LogException ''Fail to connect minio:9000 '', Sleep 1] \<and>
   conn (snd (rm ''docs'' ''a.pdf'' None st_down)) = conn st_down \<and>
   filter is_new_minio (new_events st_down (snd (rm ''docs'' ''a.pdf'' None st_down))) = []"
proof -
  have cfg: "settings st_closed = cfg0" "settings st_lost = cfg0"
    "with_prefix cfg0 ''docs'' = ''docs''"
    by (simp_all add: example_defs st_closed_def st_lost_def with_prefix_def)
  have c: "fst (put ''docs'' ''a.pdf'' [1, 2] None st_closed)
       = Inr (Some (ObjectWriteResult ''docs'' ''a.pdf''))"
    "conn st_closed = None"
    "conn (snd (put ''docs'' ''a.pdf'' [1, 2] None st_closed)) = Some h0"
    "new_events st_closed (snd (put ''docs'' ''a.pdf'' [1, 2] None st_closed))
       = [LogException ''Fail to put docs/a.pdf:'',
          NewMinio ''minio:9000'' ''rag'' ''secret'' False, Sleep 1,
          Call (BucketExists ''docs''), Call (MakeBucket ''docs''),
          Call (PutObject ''docs'' ''a.pdf'' [1, 2] 2)]"
    by (simp_all add: op_defs run_defs conn_defs example_defs st_closed_def new_events_def
          eval_nat_numeral)
  have l: "conn st_lost = Some h0"
    "conn (snd (put ''docs'' ''a.pdf'' [1, 2] None st_lost)) = None"
    "new_events st_lost (snd (put ''docs'' ''a.pdf'' [1, 2] None st_lost))
       = [Call (BucketExists ''docs''), LogException ''Fail to put docs/a.pdf:'',
          NewMinio ''minio:9000'' ''rag'' ''secret'' False,
          LogException ''Fail to connect minio:9000 '', Sleep 1,
          LogException ''Fail to put docs/a.pdf:'',
          NewMinio ''minio:9000'' ''rag'' ''secret'' False,
          LogException ''Fail to connect minio:9000 '', Sleep 1,
          LogException ''Fail to put docs/a.pdf:'',
          NewMinio ''minio:9000'' ''rag'' ''secret'' False,
          LogException ''Fail to connect minio:9000 '', Sleep 1]"
    by (simp_all add: op_defs run_defs conn_defs example_defs st_lost_def new_events_def
          eval_nat_numeral)
  note A = reconnect_policy[of st_closed "''docs''" "''a.pdf''" "[1, 2]" None 3600
      "''archive''" "''b.pdf''", unfolded cfg c]
  note B = reconnect_policy[of st_lost "''docs''" "''a.pdf''" "[1, 2]" None 3600
      "''archive''" "''b.pdf''", unfolded cfg l]
  note C = reconnect_policy[of st_down "''docs''" "''a.pdf''" "[1, 2]" None 3600
      "''archive''" "''b.pdf''"]
  have a: "reconnect_run cfg0 ''Fail to put docs/a.pdf:'' (put_seqs ''docs'' ''a.pdf'' [1, 2])
     None (Some h0)
     [LogException ''Fail to put docs/a.pdf:'',
      NewMinio ''minio:9000'' ''rag'' ''secret'' False, Sleep 1,
      Call (BucketExists ''docs''), Call (MakeBucket ''docs''),
      Call (PutObject ''docs'' ''a.pdf'' [1, 2] 2)]"
    using A by simp
  have b: "reconnect_run cfg0 ''Fail to put docs/a.pdf:'' (put_seqs ''docs'' ''a.pdf'' [1, 2])
     (Some h0) None
     [Call (BucketExists ''docs''), LogException ''Fail to put docs/a.pdf:'',
      NewMinio ''minio:9000'' ''rag'' ''secret'' False,
      LogException ''Fail to connect minio:9000 '', Sleep 1,
      LogException ''Fail to put docs/a.pdf:'',
      NewMinio ''minio:9000'' ''rag'' ''secret'' False,
      LogException ''Fail to connect minio:9000 '', Sleep 1,
      LogException ''Fail to put docs/a.pdf:'',
      NewMinio ''minio:9000'' ''rag'' ''secret'' False,
      LogException ''Fail to connect minio:9000 '', Sleep 1]"
    using B by simp
  have d: "conn (snd (rm ''docs'' ''a.pdf'' None st_down)) = conn st_down"
    "filter is_new_minio (new_events st_down (snd (rm ''docs'' ''a.pdf'' None st_down))) = []"
    using C by blast+
  show ?thesis using a b c(1,2,3) l(1,2) d by blast
qed

text \<open>A failed \<open>rm\<close>: the call raises, the failure is logged, no constructor call follows.\<close>

theorem rm_failure_without_reconnect:
  "fst (rm ''docs'' ''a.pdf'' None st_down) = Inr () \<and>
   new_events st_down (snd (rm ''docs'' ''a.pdf'' None st_down))
     = [Call (RemoveObject ''docs'' ''a.pdf''), LogException ''Fail to remove docs/a.pdf:''] \<and>
   conn (snd (rm ''docs'' ''a.pdf'' None st_down)) = conn st_down"
  by (simp add: op_defs run_defs conn_defs example_defs new_events_def eval_nat_numeral)

end
